(* ===== verification/Prelude.thy ===== *)
theory Prelude
  imports Main "HOL-Library.AList"
begin

text \<open>
  Shared vocabulary of the development: the Go value types the components exchange, the error
  values and their \<open>errors.Is\<close> chains, the contract of a Go map with its association-list model,
  and the contract of an encoder with a left inverse.

  A Go \<open>string\<close> and the contents of a Go byte slice are both sequences of bytes, so both are
  Isabelle \<open>string\<close>s (a \<open>char\<close> is one byte). A \<open>[]byte\<close> value can be nil, which the code
  observes (\<open>Handle == nil\<close>, \<open>evidence != nil\<close>): it is a \<open>string option\<close>, nil being None.
\<close>

section \<open>Go values\<close>

type_synonym gobytes = "string option"
type_synonym time = int

text \<open>The contents of a slice, and \<open>len\<close>: nil and the empty slice both have length 0.\<close>

definition bytes_of :: "gobytes \<Rightarrow> string" where
  "bytes_of b = (case b of None \<Rightarrow> [] | Some s \<Rightarrow> s)"

definition blen :: "gobytes \<Rightarrow> nat" where
  "blen b = length (bytes_of b)"

text \<open>\<open>append([]byte(nil), b...)\<close>: a fresh copy, which is nil when there is nothing to copy.\<close>

definition append_nil :: "gobytes \<Rightarrow> gobytes" where
  "append_nil b = (if bytes_of b = [] then None else Some (bytes_of b))"

lemma bytes_of_simps [simp]: "bytes_of None = []" "bytes_of (Some s) = s"
  by (simp_all add: bytes_of_def)

lemma blen_simps [simp]: "blen None = 0" "blen (Some s) = length s"
  by (simp_all add: blen_def)

lemma bytes_of_append_nil [simp]: "bytes_of (append_nil b) = bytes_of b"
  by (simp add: append_nil_def)

lemma append_nil_Some [simp]: "s \<noteq> [] \<Longrightarrow> append_nil (Some s) = Some s"
  by (simp add: append_nil_def)

lemma append_nil_None [simp]: "append_nil None = None"
  by (simp add: append_nil_def)

section \<open>Errors\<close>

text \<open>
  Go compares errors by identity, so every package-level error value is a constructor of its own
  (the two \<open>ErrTerminal\<close> values of the packages session and flow carry the same text and are
  still different values). \<open>ENew\<close> is an anonymous \<open>errors.New\<close> or formatted error, \<open>EWrap\<close> is
  \<open>fmt.Errorf("...: %w", err)\<close>, and \<open>EMaxBytes\<close> is the \<open>http.MaxBytesError\<close> a bounded body
  reader returns.
\<close>

datatype sentinel =
    SessionErrNotFound
  | SessionErrTerminal
  | SessionErrResuming
  | FlowErrTerminal
  | ErrInvalidComplete
  | ErrUnknownState
  | ErrServerClosed

datatype go_error =
    ESentinel sentinel
  | ENew string
  | EMaxBytes
  | EWrap string go_error

fun errors_Is :: "go_error \<Rightarrow> sentinel \<Rightarrow> bool" where
  "errors_Is (ESentinel s) t = (s = t)"
| "errors_Is (ENew _) t = False"
| "errors_Is EMaxBytes t = False"
| "errors_Is (EWrap _ e) t = errors_Is e t"

text \<open>\<open>errors.As\<close> with a \<open>*http.MaxBytesError\<close> target.\<close>

fun errors_As_MaxBytes :: "go_error \<Rightarrow> bool" where
  "errors_As_MaxBytes (ESentinel s) = False"
| "errors_As_MaxBytes (ENew _) = False"
| "errors_As_MaxBytes EMaxBytes = True"
| "errors_As_MaxBytes (EWrap _ e) = errors_As_MaxBytes e"

fun sentinel_text :: "sentinel \<Rightarrow> string" where
  "sentinel_text SessionErrNotFound = ''session not found''"
| "sentinel_text SessionErrTerminal = ''session already terminal''"
| "sentinel_text SessionErrResuming = ''session already resuming''"
| "sentinel_text FlowErrTerminal = ''session already terminal''"
| "sentinel_text ErrInvalidComplete = ''invalid completion input''"
| "sentinel_text ErrUnknownState = ''unknown OAuth state''"
| "sentinel_text ErrServerClosed = ''http: Server closed''"

text \<open>The method \<open>Error()\<close>: the text of an error, wrappers outermost first.\<close>

fun error_text :: "go_error \<Rightarrow> string" where
  "error_text (ESentinel s) = sentinel_text s"
| "error_text (ENew m) = m"
| "error_text EMaxBytes = ''http: request body too large''"
| "error_text (EWrap m e) = m @ '': '' @ error_text e"

section \<open>Results\<close>

text \<open>Monadic sequencing of an error result; \<open>Inl\<close> is the early return.\<close>

fun bind_result :: "'e + 'a \<Rightarrow> ('a \<Rightarrow> 'e + 'b) \<Rightarrow> 'e + 'b" where
  "bind_result (Inl e) f = Inl e"
| "bind_result (Inr a) f = f a"

lemma bind_result_Inr_iff:
  "bind_result r f = Inr b \<longleftrightarrow> (\<exists>a. r = Inr a \<and> f a = Inr b)"
  by (cases r) auto

text \<open>\<open>if cond { return err }\<close> as a result: the guard clauses of the validators.\<close>

definition guard_result :: "bool \<Rightarrow> 'e \<Rightarrow> 'e + unit" where
  "guard_result ok e = (if ok then Inr () else Inl e)"

lemma guard_result_Inr_iff [simp]: "guard_result ok e = Inr u \<longleftrightarrow> ok"
  by (simp add: guard_result_def)

section \<open>Go maps\<close>

text \<open>
  The contract a Go map keeps, as far as the code relies on it: what a lookup returns after an
  assignment and after a delete, which keys it has, and that a key occurs once.
\<close>

locale go_map =
  fixes look :: "'m \<Rightarrow> 'k \<Rightarrow> 'v option"
    and put :: "'k \<Rightarrow> 'v \<Rightarrow> 'm \<Rightarrow> 'm"
    and del :: "'k \<Rightarrow> 'm \<Rightarrow> 'm"
    and entries :: "'m \<Rightarrow> ('k \<times> 'v) list"
    and ok :: "'m \<Rightarrow> bool"
  assumes look_put: "look (put k v m) = (look m)(k \<mapsto> v)"
    and look_del: "look (del k m) = (look m)(k := None)"
    and ok_put: "ok m \<Longrightarrow> ok (put k v m)"
    and ok_del: "ok m \<Longrightarrow> ok (del k m)"
    and entries_look: "ok m \<Longrightarrow> (k, v) \<in> set (entries m) \<longleftrightarrow> look m k = Some v"
begin

text \<open>Deleting a list of keys, in any order, removes exactly those keys.\<close>

lemma look_del_list: "look (fold del ks m) k = (if k \<in> set ks then None else look m k)"
  by (induction ks arbitrary: m) (auto simp: look_del)

lemma ok_del_list: "ok m \<Longrightarrow> ok (fold del ks m)"
  by (induction ks arbitrary: m) (auto simp: ok_del)

lemma look_put_same: "look (put k v m) k = Some v"
  by (simp add: look_put)

lemma look_put_other: "k \<noteq> k' \<Longrightarrow> look (put k v m) k' = look m k'"
  by (simp add: look_put)

lemma entries_put:
  assumes "ok m" and "(k', v') \<in> set (entries (put k v m))"
  shows "k' = k \<and> v' = v \<or> (k', v') \<in> set (entries m)"
  using assms by (auto simp: entries_look ok_put look_put split: if_splits)

lemma entries_del:
  assumes "ok m"
  shows "(k', v') \<in> set (entries (del k m)) \<longleftrightarrow> k' \<noteq> k \<and> (k', v') \<in> set (entries m)"
  using assms by (auto simp: entries_look ok_del look_del)

end

text \<open>The model's maps are association lists with distinct keys.\<close>

abbreviation distinct_keys :: "('k \<times> 'v) list \<Rightarrow> bool" where
  "distinct_keys m \<equiv> distinct (map fst m)"

interpretation amap: go_map map_of AList.update AList.delete "\<lambda>m. m" distinct_keys
proof unfold_locales
  show "map_of (AList.update k v m) = (map_of m)(k \<mapsto> v)" for k v and m :: "('a \<times> 'b) list"
    by (rule update_conv')
  show "map_of (AList.delete k m) = (map_of m)(k := None)" for k and m :: "('a \<times> 'b) list"
    by (rule delete_conv')
  show "distinct_keys (AList.update k v m)" if "distinct_keys m" for k v and m :: "('a \<times> 'b) list"
    using that by (rule distinct_update)
  show "distinct_keys (AList.delete k m)" if "distinct_keys m" for k and m :: "('a \<times> 'b) list"
    using that by (rule distinct_delete)
  show "((k, v) \<in> set m) = (map_of m k = Some v)" if "distinct_keys m"
    for k v and m :: "('a \<times> 'b) list"
    using that by (metis map_of_eq_Some_iff)
qed

text \<open>Indexing a Go map with a missing key gives the zero value; \<open>map_str\<close> is that lookup for string values.\<close>

definition map_str :: "(string \<times> string) list \<Rightarrow> string \<Rightarrow> string" where
  "map_str m k = (case map_of m k of None \<Rightarrow> [] | Some v \<Rightarrow> v)"

lemma map_str_nonempty: "map_str m k = v \<Longrightarrow> v \<noteq> [] \<Longrightarrow> map_of m k = Some v"
  by (auto simp: map_str_def split: option.splits)

section \<open>Encodings\<close>

text \<open>An encoder with a decoder that undoes it: hexadecimal, base64 and query escaping are three.\<close>

locale codec =
  fixes enc :: "'a \<Rightarrow> 'b"
    and dec :: "'b \<Rightarrow> 'a option"
  assumes dec_enc: "dec (enc x) = Some x"
begin

lemma enc_inject: "enc x = enc y \<longleftrightarrow> x = y"
  by (metis dec_enc option.inject)

lemma dec_total_on_range: "b \<in> range enc \<Longrightarrow> \<exists>x. dec b = Some x \<and> enc x = b"
  by (auto simp: dec_enc)

end

section \<open>Transition systems\<close>

text \<open>
  The invariant rule every state machine of the development uses: what holds at the start and is
  kept by each step holds in every reachable state.
\<close>

inductive reachable :: "('s \<Rightarrow> bool) \<Rightarrow> ('s \<Rightarrow> 's \<Rightarrow> bool) \<Rightarrow> 's \<Rightarrow> bool"
  for init :: "'s \<Rightarrow> bool" and step :: "'s \<Rightarrow> 's \<Rightarrow> bool" where
  reach_init: "init s \<Longrightarrow> reachable init step s"
| reach_step: "reachable init step s \<Longrightarrow> step s t \<Longrightarrow> reachable init step t"

locale transition_system =
  fixes init :: "'s \<Rightarrow> bool"
    and step :: "'s \<Rightarrow> 's \<Rightarrow> bool"
    and inv :: "'s \<Rightarrow> bool"
  assumes inv_init: "init s \<Longrightarrow> inv s"
    and inv_step: "inv s \<Longrightarrow> step s t \<Longrightarrow> inv t"
begin

lemma reachable_inv: "reachable init step s \<Longrightarrow> inv s"
  by (induction rule: reachable.induct) (auto intro: inv_init inv_step)

lemma steps_inv: "step\<^sup>*\<^sup>* s t \<Longrightarrow> inv s \<Longrightarrow> inv t"
  by (induction rule: rtranclp_induct) (auto intro: inv_step)

end

section \<open>Automation\<close>

named_theorems store_simps \<open>unfolding rules of the session store's operations\<close>
named_theorems flow_simps \<open>unfolding rules of the flow engine's operations\<close>
named_theorems http_simps \<open>unfolding rules of the HTTP layer\<close>

end
