(* ===== verification/Go_Base.thy ===== *)
theory Go_Base
  imports Prelude "HOL-Library.Char_ord" "HOL-Library.List_Lexorder"
begin

text \<open>
  The part of Go's standard library on strings and bytes that the gateway uses: the functions of
  the package strings, hexadecimal and base64 encoding, UTF-8 decoding, decimal formatting. The
  two encodings are interpretations of the codec contract.
\<close>

section \<open>Bytes and the package strings\<close>

abbreviation ord :: "char \<Rightarrow> nat" where
  "ord c \<equiv> of_char c"

abbreviation chr :: "nat \<Rightarrow> char" where
  "chr n \<equiv> char_of n"

definition strings_HasPrefix :: "string \<Rightarrow> string \<Rightarrow> bool" where
  "strings_HasPrefix s p = (take (length p) s = p)"

definition strings_HasSuffix :: "string \<Rightarrow> string \<Rightarrow> bool" where
  "strings_HasSuffix s p = (length p \<le> length s \<and> drop (length s - length p) s = p)"

definition strings_TrimPrefix :: "string \<Rightarrow> string \<Rightarrow> string" where
  "strings_TrimPrefix s p = (if strings_HasPrefix s p then drop (length p) s else s)"

text \<open>\<open>TrimRight\<close> with a one-byte cutset.\<close>

definition strings_TrimRight :: "string \<Rightarrow> char \<Rightarrow> string" where
  "strings_TrimRight s c = rev (dropWhile (\<lambda>x. x = c) (rev s))"

text \<open>\<open>Cut\<close> around the first occurrence of a byte: what is before it, what is after it, and whether it was found.\<close>

definition strings_Cut :: "string \<Rightarrow> char \<Rightarrow> string \<times> string \<times> bool" where
  "strings_Cut s c =
     (takeWhile (\<lambda>x. x \<noteq> c) s,
      (case dropWhile (\<lambda>x. x \<noteq> c) s of [] \<Rightarrow> [] | _ # r \<Rightarrow> r),
      c \<in> set s)"

fun strings_Split :: "string \<Rightarrow> char \<Rightarrow> string list" where
  "strings_Split [] c = [[]]"
| "strings_Split (x # xs) c =
     (if x = c then [] # strings_Split xs c
      else case strings_Split xs c of
             [] \<Rightarrow> [[x]]
           | p # ps \<Rightarrow> (x # p) # ps)"

fun strings_Join :: "string list \<Rightarrow> string \<Rightarrow> string" where
  "strings_Join [] sep = []"
| "strings_Join [p] sep = p"
| "strings_Join (p # q # ps) sep = p @ sep @ strings_Join (q # ps) sep"

definition is_upper :: "char \<Rightarrow> bool" where
  "is_upper c = (65 \<le> ord c \<and> ord c \<le> 90)"

definition is_lower :: "char \<Rightarrow> bool" where
  "is_lower c = (97 \<le> ord c \<and> ord c \<le> 122)"

definition is_digit :: "char \<Rightarrow> bool" where
  "is_digit c = (48 \<le> ord c \<and> ord c \<le> 57)"

definition lower_char :: "char \<Rightarrow> char" where
  "lower_char c = (if is_upper c then chr (ord c + 32) else c)"

definition upper_char :: "char \<Rightarrow> char" where
  "upper_char c = (if is_lower c then chr (ord c - 32) else c)"

text \<open>
  \<open>EqualFold(s, t)\<close> for an ASCII \<open>t\<close>. Unicode simple folding has two code points outside ASCII
  that fold to an ASCII letter: U+017F (bytes C5 BF) to s and U+212A (bytes E2 84 AA) to k.
\<close>

fun strings_EqualFold :: "string \<Rightarrow> string \<Rightarrow> bool" where
  "strings_EqualFold [] [] = True"
| "strings_EqualFold (x # xs) (y # ys) =
     (if ord x < 128 then lower_char x = lower_char y \<and> strings_EqualFold xs ys
      else if ord x = 197 then
        (case xs of x2 # xs2 \<Rightarrow>
           ord x2 = 191 \<and> lower_char y = CHR ''s'' \<and> strings_EqualFold xs2 ys
         | [] \<Rightarrow> False)
      else if ord x = 226 then
        (case xs of x2 # x3 # xs3 \<Rightarrow>
           ord x2 = 132 \<and> ord x3 = 170 \<and> lower_char y = CHR ''k'' \<and> strings_EqualFold xs3 ys
         | _ \<Rightarrow> False)
      else False)"
| "strings_EqualFold _ _ = False"

lemma strings_HasPrefix_append [simp]: "strings_HasPrefix (p @ s) p"
  by (simp add: strings_HasPrefix_def)

lemma strings_HasPrefix_iff: "strings_HasPrefix s p \<longleftrightarrow> (\<exists>r. s = p @ r)"
  unfolding strings_HasPrefix_def by (metis append_eq_conv_conj append_take_drop_id)

lemma strings_TrimPrefix_append [simp]: "strings_TrimPrefix (p @ s) p = s"
  by (simp add: strings_TrimPrefix_def)

lemma strings_Cut_append:
  assumes "c \<notin> set s"
  shows "strings_Cut (s @ c # r) c = (s, r, True)"
  using assms by (induction s) (auto simp: strings_Cut_def)

lemma strings_Cut_none:
  assumes "c \<notin> set s"
  shows "strings_Cut s c = (s, [], False)"
proof -
  have "takeWhile (\<lambda>x. x \<noteq> c) s = s" "dropWhile (\<lambda>x. x \<noteq> c) s = []"
    using assms by (auto simp: takeWhile_eq_all_conv dropWhile_eq_Nil_conv)
  then show ?thesis using assms unfolding strings_Cut_def by (simp only:) simp
qed

lemma strings_Split_nonempty [simp]: "strings_Split s c \<noteq> []"
  by (induction s) (auto split: list.splits)

lemma strings_Split_plain: "c \<notin> set s \<Longrightarrow> strings_Split s c = [s]"
  by (induction s) auto

lemma strings_Split_append:
  assumes "c \<notin> set s"
  shows "strings_Split (s @ c # r) c = s # strings_Split r c"
  using assms by (induction s) (auto split: list.splits)

lemma strings_Join_Cons: "ps \<noteq> [] \<Longrightarrow> strings_Join (p # ps) sep = p @ sep @ strings_Join ps sep"
  by (cases ps) auto

lemma strings_Join_Split: "strings_Join (strings_Split s c) [c] = s"
proof (induction s)
  case Nil
  then show ?case by simp
next
  case (Cons x xs)
  show ?case
  proof (cases "strings_Split xs c")
    case Nil
    then show ?thesis by simp
  next
    case (Cons p ps)
    with Cons.IH show ?thesis by (cases ps) (auto simp: strings_Join_Cons)
  qed
qed

lemma strings_TrimRight_not_suffix:
  "strings_TrimRight s c = [] \<or> last (strings_TrimRight s c) \<noteq> c"
proof (cases "dropWhile (\<lambda>x. x = c) (rev s)")
  case Nil
  then show ?thesis by (simp add: strings_TrimRight_def)
next
  case (Cons y ys)
  then have "y \<noteq> c"
    using hd_dropWhile [of "\<lambda>x. x = c" "rev s"] by simp
  with Cons show ?thesis by (simp add: strings_TrimRight_def)
qed

section \<open>Decimal numbers\<close>

fun show_nat :: "nat \<Rightarrow> string" where
  "show_nat n = (if n < 10 then [chr (48 + n)] else show_nat (n div 10) @ [chr (48 + n mod 10)])"

declare show_nat.simps [simp del]

definition show_int :: "int \<Rightarrow> string" where
  "show_int i = (if i < 0 then ''-'' @ show_nat (nat (- i)) else show_nat (nat i))"

text \<open>A number padded with zeros to a width, as the date formats do.\<close>

definition pad_nat :: "nat \<Rightarrow> nat \<Rightarrow> string" where
  "pad_nat w n = (let s = show_nat n in replicate (w - length s) (CHR ''0'') @ s)"

section \<open>Hexadecimal (encoding/hex)\<close>

definition hex_digits :: string where
  "hex_digits = ''0123456789abcdef''"

definition hex_char :: "nat \<Rightarrow> char" where
  "hex_char n = (if n < 10 then chr (48 + n) else chr (87 + n))"

definition upper_hex_char :: "nat \<Rightarrow> char" where
  "upper_hex_char n = (if n < 10 then chr (48 + n) else chr (55 + n))"

definition unhex :: "char \<Rightarrow> nat option" where
  "unhex c =
     (if is_digit c then Some (ord c - 48)
      else if 97 \<le> ord c \<and> ord c \<le> 102 then Some (ord c - 87)
      else if 65 \<le> ord c \<and> ord c \<le> 70 then Some (ord c - 55)
      else None)"

fun hex_EncodeToString :: "string \<Rightarrow> string" where
  "hex_EncodeToString [] = []"
| "hex_EncodeToString (c # cs) =
     hex_char (ord c div 16) # hex_char (ord c mod 16) # hex_EncodeToString cs"

fun hex_DecodeString :: "string \<Rightarrow> string option" where
  "hex_DecodeString [] = Some []"
| "hex_DecodeString [_] = None"
| "hex_DecodeString (a # b # cs) =
     (case (unhex a, unhex b, hex_DecodeString cs) of
        (Some x, Some y, Some r) \<Rightarrow> Some (chr (16 * x + y) # r)
      | _ \<Rightarrow> None)"

lemma ord_less_256: "ord c < 256"
  by (rule nat_of_char_less_256)

lemma ord_chr: "n < 256 \<Longrightarrow> ord (chr n) = n"
  by simp

text \<open>The reading table inverts both digit tables.\<close>

lemma unhex_hex_char: "n < 16 \<Longrightarrow> unhex (hex_char n) = Some n"
  by (auto simp: unhex_def hex_char_def is_digit_def)

lemma unhex_upper_hex_char: "n < 16 \<Longrightarrow> unhex (upper_hex_char n) = Some n"
  by (auto simp: unhex_def upper_hex_char_def is_digit_def)

lemma unhex_bound: "unhex c = Some n \<Longrightarrow> n < 16"
  by (auto simp: unhex_def is_digit_def split: if_splits)

lemma nibble_bounds: "ord c div 16 < 16" "ord c mod 16 < 16"
proof -
  have gen: "x div 16 < 16" if "x < 256" for x :: nat using that by presburger
  show "ord c div 16 < 16" by (rule gen [OF ord_less_256])
  show "ord c mod 16 < 16" by simp
qed

lemma hex_decode_encode: "hex_DecodeString (hex_EncodeToString s) = Some s"
proof (induction s)
  case Nil
  then show ?case by simp
next
  case (Cons c s)
  show ?case
    using Cons by (simp add: unhex_hex_char [OF nibble_bounds(1)] unhex_hex_char [OF nibble_bounds(2)])
qed

interpretation hex: codec hex_EncodeToString hex_DecodeString
  by unfold_locales (rule hex_decode_encode)

lemma length_hex_EncodeToString: "length (hex_EncodeToString s) = 2 * length s"
  by (induction s) auto

section \<open>Base64 (encoding/base64, StdEncoding)\<close>

definition b64_char :: "nat \<Rightarrow> char" where
  "b64_char n =
     (if n < 26 then chr (65 + n)
      else if n < 52 then chr (71 + n)
      else if n < 62 then chr (n - 4)
      else if n = 62 then CHR ''+''
      else CHR ''/'')"

definition b64_val :: "char \<Rightarrow> nat option" where
  "b64_val c =
     (if is_upper c then Some (ord c - 65)
      else if is_lower c then Some (ord c - 71)
      else if is_digit c then Some (ord c + 4)
      else if c = CHR ''+'' then Some 62
      else if c = CHR ''/'' then Some 63
      else None)"

fun base64_EncodeToString :: "string \<Rightarrow> string" where
  "base64_EncodeToString [] = []"
| "base64_EncodeToString [a] =
     [b64_char (ord a div 4), b64_char ((ord a mod 4) * 16), CHR ''='', CHR ''='']"
| "base64_EncodeToString [a, b] =
     [b64_char (ord a div 4), b64_char ((ord a mod 4) * 16 + ord b div 16),
      b64_char ((ord b mod 16) * 4), CHR ''='']"
| "base64_EncodeToString (a # b # c # cs) =
     b64_char (ord a div 4) # b64_char ((ord a mod 4) * 16 + ord b div 16)
     # b64_char ((ord b mod 16) * 4 + ord c div 64) # b64_char (ord c mod 64)
     # base64_EncodeToString cs"

text \<open>
  \<open>DecodeString\<close> skips carriage returns and line feeds, wants padding in the last quantum only,
  and does not look at the unused low bits of a padded quantum (the encoding is not Strict).
\<close>

fun b64_quanta :: "string \<Rightarrow> string option" where
  "b64_quanta [] = Some []"
| "b64_quanta (a # b # c # d # cs) =
     (case (b64_val a, b64_val b) of
        (Some w, Some x) \<Rightarrow>
          (if c = CHR ''='' then
             (if d = CHR ''='' \<and> cs = [] then Some [chr (w * 4 + x div 16)] else None)
           else case b64_val c of
             None \<Rightarrow> None
           | Some y \<Rightarrow>
               (if d = CHR ''='' then
                  (if cs = [] then Some [chr (w * 4 + x div 16), chr ((x mod 16) * 16 + y div 4)]
                   else None)
                else case b64_val d of
                  None \<Rightarrow> None
                | Some z \<Rightarrow>
                    map_option
                      (\<lambda>r. chr (w * 4 + x div 16) # chr ((x mod 16) * 16 + y div 4)
                             # chr ((y mod 4) * 64 + z) # r)
                      (b64_quanta cs)))
      | _ \<Rightarrow> None)"
| "b64_quanta _ = None"

definition is_newline :: "char \<Rightarrow> bool" where
  "is_newline c = (ord c = 10 \<or> ord c = 13)"

definition base64_DecodeString :: "string \<Rightarrow> string option" where
  "base64_DecodeString s = b64_quanta (filter (\<lambda>c. \<not> is_newline c) s)"

lemma b64_val_b64_char: "n < 64 \<Longrightarrow> b64_val (b64_char n) = Some n"
  by (auto simp: b64_val_def b64_char_def is_upper_def is_lower_def is_digit_def)

text \<open>No base64 digit is the padding byte or a line break: those have no value.\<close>

lemma b64_char_plain:
  assumes "n < 64"
  shows "b64_char n \<noteq> CHR ''=''" and "\<not> is_newline (b64_char n)"
proof -
  have v: "b64_val (b64_char n) = Some n" using assms by (rule b64_val_b64_char)
  have "b64_val (CHR ''='') = None"
    by (simp add: b64_val_def is_upper_def is_lower_def is_digit_def)
  with v show "b64_char n \<noteq> CHR ''=''" by (metis option.distinct(1))
  have "is_newline c \<Longrightarrow> b64_val c = None" for c
    by (auto simp: is_newline_def b64_val_def is_upper_def is_lower_def is_digit_def)
  with v show "\<not> is_newline (b64_char n)" by (metis option.distinct(1))
qed

lemma byte_split_bounds:
  fixes a b c :: char
  shows "ord a div 4 < 64" "(ord a mod 4) * 16 < 64" "(ord a mod 4) * 16 + ord b div 16 < 64"
    "(ord b mod 16) * 4 < 64" "(ord b mod 16) * 4 + ord c div 64 < 64" "ord c mod 64 < 64"
proof -
  have q4: "x div 4 < 64" and q16: "x div 16 < 16" and q64: "x div 64 < 4" if "x < 256" for x :: nat
    using that less_mult_imp_div_less [of x 64 4] less_mult_imp_div_less [of x 16 16]
      less_mult_imp_div_less [of x 4 64] by simp_all
  note a = ord_less_256 [of a] and b = ord_less_256 [of b] and c = ord_less_256 [of c]
  show "ord a div 4 < 64" by (rule q4 [OF a])
  have m4: "ord a mod 4 < 4" and m16: "ord b mod 16 < 16" by simp_all
  show "(ord a mod 4) * 16 < 64" using m4 by linarith
  show "(ord a mod 4) * 16 + ord b div 16 < 64" using m4 q16 [OF b] by linarith
  show "(ord b mod 16) * 4 < 64" using m16 by linarith
  show "(ord b mod 16) * 4 + ord c div 64 < 64" using m16 q64 [OF c] by linarith
  show "ord c mod 64 < 64" by simp
qed

text \<open>Reassembling a byte from the two digits it was spread over.\<close>

lemma byte_rejoin:
  fixes x y z :: nat
  assumes "x < 256" "y < 256" "z < 256"
  shows "x div 4 * 4 + ((x mod 4) * 16 + y div 16) div 16 = x"
    and "((x mod 4) * 16 + y div 16) mod 16 * 16 + ((y mod 16) * 4 + z div 64) div 4 = y"
    and "((y mod 16) * 4 + z div 64) mod 4 * 64 + z mod 64 = z"
    and "x div 4 * 4 + (x mod 4) * 16 div 16 = x"
    and "((x mod 4) * 16 + y div 16) mod 16 * 16 + (y mod 16) * 4 div 4 = y"
proof -
  have y: "y div 16 < 16" and z: "z div 64 < 4"
    using assms less_mult_imp_div_less [of y 16 16] less_mult_imp_div_less [of z 4 64] by simp_all
  have 1: "((x mod 4) * 16 + y div 16) div 16 = x mod 4"
    and 2: "((x mod 4) * 16 + y div 16) mod 16 = y div 16"
    using y by simp_all
  have 3: "((y mod 16) * 4 + z div 64) div 4 = y mod 16"
    and 4: "((y mod 16) * 4 + z div 64) mod 4 = z div 64"
    using z by simp_all
  show "x div 4 * 4 + ((x mod 4) * 16 + y div 16) div 16 = x" by (simp only: 1 div_mult_mod_eq)
  show "((x mod 4) * 16 + y div 16) mod 16 * 16 + ((y mod 16) * 4 + z div 64) div 4 = y"
    by (simp only: 2 3 div_mult_mod_eq)
  show "((y mod 16) * 4 + z div 64) mod 4 * 64 + z mod 64 = z" by (simp only: 4 div_mult_mod_eq)
  have 5: "(x mod 4) * 16 div 16 = x mod 4" and 6: "(y mod 16) * 4 div 4 = y mod 16" by simp_all
  show "x div 4 * 4 + (x mod 4) * 16 div 16 = x" by (simp only: 5 div_mult_mod_eq)
  show "((x mod 4) * 16 + y div 16) mod 16 * 16 + (y mod 16) * 4 div 4 = y"
    by (simp only: 2 6 div_mult_mod_eq)
qed

lemmas ord_rejoin = byte_rejoin [OF ord_less_256 ord_less_256 ord_less_256]

lemmas b64_digit = b64_val_b64_char [OF byte_split_bounds(1)] b64_val_b64_char [OF byte_split_bounds(2)]
  b64_val_b64_char [OF byte_split_bounds(3)] b64_val_b64_char [OF byte_split_bounds(4)]
  b64_val_b64_char [OF byte_split_bounds(5)] b64_val_b64_char [OF byte_split_bounds(6)]

lemmas b64_digit_plain = b64_char_plain [OF byte_split_bounds(1)] b64_char_plain [OF byte_split_bounds(2)]
  b64_char_plain [OF byte_split_bounds(3)] b64_char_plain [OF byte_split_bounds(4)]
  b64_char_plain [OF byte_split_bounds(5)] b64_char_plain [OF byte_split_bounds(6)]

lemma b64_quanta_encode: "b64_quanta (base64_EncodeToString s) = Some s"
proof (induction s rule: base64_EncodeToString.induct)
  case 1
  then show ?case by simp
next
  case (2 a)
  show ?case
    by (simp only: base64_EncodeToString.simps b64_quanta.simps b64_digit option.case prod.case
        ord_rejoin char_of_char if_True simp_thms)
next
  case (3 a b)
  show ?case
    by (simp only: base64_EncodeToString.simps b64_quanta.simps b64_digit b64_digit_plain
        option.case prod.case ord_rejoin char_of_char if_True if_False simp_thms)
next
  case (4 a b c cs)
  show ?case
    by (simp only: base64_EncodeToString.simps b64_quanta.simps b64_digit b64_digit_plain 4
        option.case option.map prod.case ord_rejoin char_of_char if_True if_False simp_thms)
qed

lemma base64_no_newline: "c \<in> set (base64_EncodeToString s) \<Longrightarrow> \<not> is_newline c"
  by (induction s rule: base64_EncodeToString.induct)
     (auto simp: b64_digit_plain, auto simp: is_newline_def)

lemma base64_decode_encode: "base64_DecodeString (base64_EncodeToString s) = Some s"
proof -
  have "filter (\<lambda>c. \<not> is_newline c) (base64_EncodeToString s) = base64_EncodeToString s"
    using base64_no_newline [of _ s] by (simp add: filter_id_conv)
  then show ?thesis by (simp add: base64_DecodeString_def b64_quanta_encode)
qed

interpretation b64: codec base64_EncodeToString base64_DecodeString
  by unfold_locales (rule base64_decode_encode)

text \<open>Decoding shrinks: four digits give at most three bytes.\<close>

lemma length_b64_quanta: "b64_quanta s = Some r \<Longrightarrow> 4 * length r \<le> 3 * length s"
  by (induction s arbitrary: r rule: b64_quanta.induct)
     (fastforce split: option.splits if_splits)+

lemma length_base64_DecodeString:
  assumes "base64_DecodeString s = Some r"
  shows "4 * length r \<le> 3 * length s"
proof -
  have "4 * length r \<le> 3 * length (filter (\<lambda>c. \<not> is_newline c) s)"
    using assms by (simp add: base64_DecodeString_def length_b64_quanta)
  also have "\<dots> \<le> 3 * length s" by simp
  finally show ?thesis .
qed

section \<open>Quoted text\<close>

text \<open>
  \<open>strconv.Quote\<close>, which the verb \<open>%q\<close> uses: exact for ASCII; bytes above 127 are copied, which is
  what it does with printable UTF-8. It occurs in error texts only.
\<close>

definition quote_char :: "char \<Rightarrow> string" where
  "quote_char c =
     (if ord c = 34 \<or> ord c = 92 then [chr 92, c]
      else if ord c = 7 then [chr 92] @ ''a'' else if ord c = 8 then [chr 92] @ ''b''
      else if ord c = 12 then [chr 92] @ ''f'' else if ord c = 10 then [chr 92] @ ''n''
      else if ord c = 13 then [chr 92] @ ''r'' else if ord c = 9 then [chr 92] @ ''t''
      else if ord c = 11 then [chr 92] @ ''v''
      else if ord c < 32 \<or> ord c = 127
           then [chr 92] @ ''x'' @ [hex_char (ord c div 16), hex_char (ord c mod 16)]
      else [c])"

definition strconv_Quote :: "string \<Rightarrow> string" where
  "strconv_Quote s = [chr 34] @ concat (map quote_char s) @ [chr 34]"

text \<open>Text without quotes, backslashes and control characters is quoted as it is.\<close>

definition plain_char :: "char \<Rightarrow> bool" where
  "plain_char c = (32 \<le> ord c \<and> ord c \<noteq> 34 \<and> ord c \<noteq> 92 \<and> ord c \<noteq> 127)"

lemma quote_plain: "list_all plain_char s \<Longrightarrow> strconv_Quote s = [chr 34] @ s @ [chr 34]"
proof -
  assume "list_all plain_char s"
  then have "concat (map quote_char s) = s"
    by (induction s) (auto simp: quote_char_def plain_char_def)
  then show ?thesis by (simp add: strconv_Quote_def)
qed

end
