(* ===== verification/Session_Store.thy ===== *)
theory Session_Store
  imports Go_Base
begin

text \<open>
  The in-memory session store of internal/session/store.go. A \<open>*Session\<close> is an address of the
  model's heap, because the code keeps pointers across calls and mutates through them while the
  maps may already have dropped the session. Each operation takes the clock readings the code
  makes and returns the new store; each holds the mutex from start to end, so it is one atomic step.

  Times are nanoseconds as unbounded integers (a deadline is a creation time plus an int64
  duration, far from the range of Go's 64-bit second count).
\<close>

section \<open>Statuses and sessions\<close>

type_synonym status = string

definition StatusPending :: status where "StatusPending = ''pending''"
definition StatusAuthorizing :: status where "StatusAuthorizing = ''authorizing''"
definition StatusCompleted :: status where "StatusCompleted = ''completed''"
definition StatusDeclined :: status where "StatusDeclined = ''declined''"
definition StatusFailed :: status where "StatusFailed = ''failed''"

lemmas status_defs = StatusPending_def StatusAuthorizing_def StatusCompleted_def
  StatusDeclined_def StatusFailed_def

definition status_Terminal :: "status \<Rightarrow> bool" where
  "status_Terminal st = (st = StatusCompleted \<or> st = StatusDeclined \<or> st = StatusFailed)"

definition reasonSessionExpired :: string where
  "reasonSessionExpired = ''session_expired''"

definition evictGrace :: time where
  "evictGrace = 5 * 60 * 1000000000"

record session =
  CorrelationID :: string
  OAuthState :: string
  ClientState :: string
  Handle :: gobytes
  Status :: status
  Reason :: string
  Conformance :: string
  ResultPDF :: gobytes
  Evidence :: gobytes
  CreatedAt :: time
  ExpiresAt :: time
  resuming :: bool

definition Terminal :: "session \<Rightarrow> bool" where
  "Terminal s = status_Terminal (Status s)"

text \<open>The snapshot the HTTP layer reads.\<close>

record view =
  vCorrelationID :: string
  vClientState :: string
  vStatus :: status
  vReason :: string
  vResultPDF :: gobytes
  vEvidence :: gobytes

definition session_view :: "session \<Rightarrow> view" where
  "session_view s =
     \<lparr>vCorrelationID = CorrelationID s, vClientState = ClientState s, vStatus = Status s,
      vReason = Reason s, vResultPDF = ResultPDF s, vEvidence = Evidence s\<rparr>"

section \<open>The store\<close>

type_synonym addr = nat

record memory =
  byID :: "(string \<times> addr) list"
  byState :: "(string \<times> string) list"
  heap :: "addr \<Rightarrow> session"
  next_addr :: addr

definition zero_session :: session where
  "zero_session =
     \<lparr>CorrelationID = [], OAuthState = [], ClientState = [], Handle = None, Status = [],
      Reason = [], Conformance = [], ResultPDF = None, Evidence = None, CreatedAt = 0,
      ExpiresAt = 0, resuming = False\<rparr>"

definition NewMemory :: memory where
  "NewMemory = \<lparr>byID = [], byState = [], heap = (\<lambda>_. zero_session), next_addr = 0\<rparr>"

text \<open>\<open>Update\<close>: a mutation of one session under the mutex. The code passes a closure.\<close>

definition Update :: "addr \<Rightarrow> (session \<Rightarrow> session) \<Rightarrow> memory \<Rightarrow> memory" where
  "Update a mutate m = m\<lparr>heap := (heap m)(a := mutate (heap m a))\<rparr>"

text \<open>
  The fragment \<open>if session.OAuthState != "" { delete(memory.byState, ...) }\<close>, and the same with
  the field cleared, which ConsumeForResume, Finalize and expireLocked share.
\<close>

definition delete_state :: "addr \<Rightarrow> memory \<Rightarrow> memory" where
  "delete_state a m =
     (if OAuthState (heap m a) \<noteq> []
      then m\<lparr>byState := AList.delete (OAuthState (heap m a)) (byState m)\<rparr> else m)"

definition clear_state :: "addr \<Rightarrow> memory \<Rightarrow> memory" where
  "clear_state a m = Update a (\<lambda>s. s\<lparr>OAuthState := []\<rparr>) (delete_state a m)"

definition expireLocked :: "time \<Rightarrow> addr \<Rightarrow> memory \<Rightarrow> memory" where
  "expireLocked now a m =
     (if Terminal (heap m a) \<or> \<not> now > ExpiresAt (heap m a) then m
      else clear_state a
             (Update a (\<lambda>s. s\<lparr>Status := StatusFailed, Reason := reasonSessionExpired, Handle := None\<rparr>) m))"

text \<open>One round of the eviction loop, and the loop over the entries of \<open>byID\<close> in any order.\<close>

definition evict_entry :: "time \<Rightarrow> string \<times> addr \<Rightarrow> memory \<Rightarrow> memory" where
  "evict_entry now e m =
     (let s = heap m (snd e)
      in if \<not> resuming s \<and> now > ExpiresAt s + evictGrace
         then (delete_state (snd e) m)\<lparr>byID := AList.delete (fst e) (byID m)\<rparr>
         else m)"

definition evictExpiredLocked :: "time \<Rightarrow> memory \<Rightarrow> memory" where
  "evictExpiredLocked now m = fold (evict_entry now) (byID m) m"

text \<open>\<open>New\<close> (\<open>NewSession\<close> here): the clock is read once by the eviction and once for the creation time.\<close>

definition NewSession :: "string \<Rightarrow> string \<Rightarrow> string \<Rightarrow> string \<Rightarrow> time \<Rightarrow> time \<Rightarrow> time \<Rightarrow> memory \<Rightarrow> addr \<times> memory" where
  "NewSession correlationID oauthState clientState conformance ttl evictNow now m =
     (let m1 = evictExpiredLocked evictNow m;
          a = next_addr m1;
          s = \<lparr>CorrelationID = correlationID, OAuthState = oauthState, ClientState = clientState,
               Handle = None, Status = StatusAuthorizing, Reason = [], Conformance = conformance,
               ResultPDF = None, Evidence = None, CreatedAt = now, ExpiresAt = now + ttl,
               resuming = False\<rparr>
      in (a, m1\<lparr>heap := (heap m1)(a := s), next_addr := Suc a,
                byID := AList.update correlationID a (byID m1),
                byState := (if oauthState \<noteq> [] then AList.update oauthState correlationID (byState m1)
                            else byState m1)\<rparr>))"

definition Get :: "string \<Rightarrow> time \<Rightarrow> memory \<Rightarrow> (sentinel + addr) \<times> memory" where
  "Get correlationID now m =
     (case map_of (byID m) correlationID of
        None \<Rightarrow> (Inl SessionErrNotFound, m)
      | Some a \<Rightarrow> (Inr a, expireLocked now a m))"

definition GetByState :: "string \<Rightarrow> time \<Rightarrow> memory \<Rightarrow> (sentinel + addr) \<times> memory" where
  "GetByState oauthState now m =
     (let correlationID = map_str (byState m) oauthState
      in if correlationID = [] then (Inl SessionErrNotFound, m)
         else case map_of (byID m) correlationID of
                None \<Rightarrow> (Inl SessionErrNotFound, m)
              | Some a \<Rightarrow>
                  (let m1 = expireLocked now a m
                   in if map_str (byState m1) oauthState \<noteq> correlationID
                      then (Inl SessionErrNotFound, m1) else (Inr a, m1)))"

definition ViewByID :: "string \<Rightarrow> time \<Rightarrow> memory \<Rightarrow> (sentinel + view) \<times> memory" where
  "ViewByID correlationID now m =
     (case map_of (byID m) correlationID of
        None \<Rightarrow> (Inl SessionErrNotFound, m)
      | Some a \<Rightarrow>
          (let m1 = expireLocked now a m in (Inr (session_view (heap m1 a)), m1)))"

definition ConsumeForResume :: "addr \<Rightarrow> time \<Rightarrow> memory \<Rightarrow> (sentinel + gobytes) \<times> memory" where
  "ConsumeForResume a now m =
     (let m1 = expireLocked now a m
      in if Terminal (heap m1 a) then (Inl SessionErrTerminal, m1)
         else if resuming (heap m1 a) then (Inl SessionErrResuming, m1)
         else (let m2 = clear_state a (Update a (\<lambda>s. s\<lparr>resuming := True\<rparr>) m1)
               in (Inr (append_nil (Handle (heap m2 a))), m2)))"

definition SetState :: "addr \<Rightarrow> string \<Rightarrow> memory \<Rightarrow> memory" where
  "SetState a oauthState m =
     (let m1 = Update a (\<lambda>s. s\<lparr>OAuthState := oauthState\<rparr>) (delete_state a m);
          m2 = (if oauthState \<noteq> []
                then m1\<lparr>byState := AList.update oauthState (CorrelationID (heap m1 a)) (byState m1)\<rparr>
                else m1)
      in Update a (\<lambda>s. s\<lparr>resuming := False\<rparr>) m2)"

definition Finalize :: "addr \<Rightarrow> memory \<Rightarrow> memory" where
  "Finalize a m = Update a (\<lambda>s. s\<lparr>Handle := None, resuming := False\<rparr>) (clear_state a m)"

lemmas store_op_defs [store_simps] = Update_def delete_state_def clear_state_def expireLocked_def
  Get_def GetByState_def ViewByID_def ConsumeForResume_def SetState_def Finalize_def Let_def

section \<open>What each operation reads and writes\<close>

lemma status_Terminal_simps [simp]:
  "status_Terminal StatusCompleted" "status_Terminal StatusDeclined" "status_Terminal StatusFailed"
  "\<not> status_Terminal StatusAuthorizing" "\<not> status_Terminal StatusPending" "\<not> status_Terminal []"
  by (simp_all add: status_Terminal_def status_defs)

lemma Update_simps [simp]:
  "heap (Update a f m) = (heap m)(a := f (heap m a))"
  "byID (Update a f m) = byID m" "byState (Update a f m) = byState m"
  "next_addr (Update a f m) = next_addr m"
  by (simp_all add: Update_def)

lemma delete_state_simps [simp]:
  "heap (delete_state a m) = heap m" "byID (delete_state a m) = byID m"
  "next_addr (delete_state a m) = next_addr m"
  by (simp_all add: delete_state_def)

lemma byState_delete_state [simp]:
  "map_of (byState (delete_state a m)) st
   = (if st = OAuthState (heap m a) \<and> st \<noteq> [] then None else map_of (byState m) st)"
  by (simp add: delete_state_def amap.look_del)

lemma clear_state_simps [simp]:
  "heap (clear_state a m) = (heap m)(a := (heap m a)\<lparr>OAuthState := []\<rparr>)"
  "byID (clear_state a m) = byID m" "next_addr (clear_state a m) = next_addr m"
  "byState (clear_state a m) = byState (delete_state a m)"
  by (simp_all add: clear_state_def)

text \<open>The effect of expiry on the session it looks at.\<close>

definition expired :: "time \<Rightarrow> session \<Rightarrow> bool" where
  "expired now s = (\<not> Terminal s \<and> now > ExpiresAt s)"

definition expire_session :: "time \<Rightarrow> session \<Rightarrow> session" where
  "expire_session now s =
     (if expired now s
      then s\<lparr>Status := StatusFailed, Reason := reasonSessionExpired, Handle := None, OAuthState := []\<rparr>
      else s)"

lemma expireLocked_simps [simp]:
  "heap (expireLocked now a m) = (heap m)(a := expire_session now (heap m a))"
  "byID (expireLocked now a m) = byID m" "next_addr (expireLocked now a m) = next_addr m"
  by (auto simp: expireLocked_def expire_session_def expired_def)

lemma delete_state_Update:
  "OAuthState (f (heap m a)) = OAuthState (heap m a)
   \<Longrightarrow> byState (delete_state a (Update a f m)) = byState (delete_state a m)"
  by (simp add: delete_state_def)

lemma byState_expireLocked:
  "byState (expireLocked now a m)
   = (if expired now (heap m a) then byState (delete_state a m) else byState m)"
  by (simp add: expireLocked_def expired_def delete_state_Update)

lemma expire_session_simps [simp]:
  "CorrelationID (expire_session now s) = CorrelationID s"
  "ClientState (expire_session now s) = ClientState s"
  "ExpiresAt (expire_session now s) = ExpiresAt s"
  "resuming (expire_session now s) = resuming s"
  "ResultPDF (expire_session now s) = ResultPDF s"
  "Evidence (expire_session now s) = Evidence s"
  by (simp_all add: expire_session_def)

lemma Terminal_expire_session:
  "Terminal (expire_session now s) \<longleftrightarrow> Terminal s \<or> now > ExpiresAt s"
  by (auto simp: expire_session_def expired_def Terminal_def)

lemma expire_session_idem: "now' \<le> now \<Longrightarrow> expire_session now' (expire_session now s) = expire_session now s"
  by (auto simp: expire_session_def expired_def Terminal_def)

lemma SetState_simps [simp]:
  "heap (SetState a st m) = (heap m)(a := (heap m a)\<lparr>OAuthState := st, resuming := False\<rparr>)"
  "byID (SetState a st m) = byID m" "next_addr (SetState a st m) = next_addr m"
  by (auto simp: SetState_def Let_def)

lemma byState_SetState:
  "map_of (byState (SetState a st m)) k
   = (if st \<noteq> [] \<and> k = st then Some (CorrelationID (heap m a))
      else if k = OAuthState (heap m a) \<and> k \<noteq> [] then None else map_of (byState m) k)"
  by (auto simp: SetState_def Let_def amap.look_put)

lemma Finalize_simps [simp]:
  "heap (Finalize a m)
   = (heap m)(a := (heap m a)\<lparr>OAuthState := [], Handle := None, resuming := False\<rparr>)"
  "byID (Finalize a m) = byID m" "next_addr (Finalize a m) = next_addr m"
  "byState (Finalize a m) = byState (delete_state a m)"
  by (simp_all add: Finalize_def)

text \<open>ConsumeForResume by cases: who is refused, and what the winner gets.\<close>

lemma ConsumeForResume_cases:
  obtains (terminal) "ConsumeForResume a now m = (Inl SessionErrTerminal, expireLocked now a m)"
      "Terminal (heap m a) \<or> now > ExpiresAt (heap m a)"
  | (busy) "ConsumeForResume a now m = (Inl SessionErrResuming, m)"
      "\<not> Terminal (heap m a)" "now \<le> ExpiresAt (heap m a)" "resuming (heap m a)"
  | (won) "ConsumeForResume a now m
        = (Inr (append_nil (Handle (heap m a))), clear_state a (Update a (\<lambda>s. s\<lparr>resuming := True\<rparr>) m))"
      "\<not> Terminal (heap m a)" "now \<le> ExpiresAt (heap m a)" "\<not> resuming (heap m a)"
proof (cases "Terminal (heap m a) \<or> now > ExpiresAt (heap m a)")
  case True
  then have "Terminal (expire_session now (heap m a))" by (simp add: Terminal_expire_session)
  with True that(1) show thesis by (simp add: ConsumeForResume_def Let_def)
next
  case False
  then have "expireLocked now a m = m" by (auto simp: expireLocked_def)
  with False that(2,3) show thesis
    by (cases "resuming (heap m a)") (auto simp: ConsumeForResume_def Let_def Update_def)
qed

lemma byID_ConsumeForResume [simp]: "byID (snd (ConsumeForResume a now m)) = byID m"
  by (simp add: ConsumeForResume_def Let_def)

lemma next_ConsumeForResume [simp]: "next_addr (snd (ConsumeForResume a now m)) = next_addr m"
  by (simp add: ConsumeForResume_def Let_def)

lemma ConsumeForResume_won:
  assumes "ConsumeForResume a now m = (Inr h, m')"
  shows "\<not> Terminal (heap m a)" "\<not> resuming (heap m a)" "now \<le> ExpiresAt (heap m a)"
    "h = append_nil (Handle (heap m a))"
    "m' = clear_state a (Update a (\<lambda>s. s\<lparr>resuming := True\<rparr>) m)"
  using assms by (cases rule: ConsumeForResume_cases [of a now m]; simp)+

section \<open>The store as an interface\<close>

text \<open>
  What the flow engine relies on. \<open>sess\<close> observes a session; each operation changes the one session
  it names and says how; a claim succeeds only on a live, unclaimed session.
\<close>

locale resumable_store =
  fixes sess :: "'m \<Rightarrow> 'r \<Rightarrow> session"
    and update :: "'r \<Rightarrow> (session \<Rightarrow> session) \<Rightarrow> 'm \<Rightarrow> 'm"
    and set_state :: "'r \<Rightarrow> string \<Rightarrow> 'm \<Rightarrow> 'm"
    and finalize :: "'r \<Rightarrow> 'm \<Rightarrow> 'm"
    and consume :: "'r \<Rightarrow> time \<Rightarrow> 'm \<Rightarrow> (sentinel + gobytes) \<times> 'm"
  assumes sess_update: "sess (update a f m) b = (if b = a then f (sess m a) else sess m b)"
    and sess_set_state: "sess (set_state a st m) b
      = (if b = a then (sess m a)\<lparr>OAuthState := st, resuming := False\<rparr> else sess m b)"
    and sess_finalize: "sess (finalize a m) b
      = (if b = a then (sess m a)\<lparr>OAuthState := [], Handle := None, resuming := False\<rparr> else sess m b)"
    and consume_won: "consume a now m = (Inr h, m') \<Longrightarrow>
      \<not> Terminal (sess m a) \<and> \<not> resuming (sess m a) \<and> now \<le> ExpiresAt (sess m a)
      \<and> h = append_nil (Handle (sess m a))
      \<and> sess m' a = (sess m a)\<lparr>resuming := True, OAuthState := []\<rparr>"
    and consume_lost: "consume a now m = (Inl e, m') \<Longrightarrow>
      (e = SessionErrTerminal \<and> Terminal (sess m' a)) \<or>
      (e = SessionErrResuming \<and> resuming (sess m a) \<and> sess m' a = sess m a)"
    and consume_frame: "b \<noteq> a \<Longrightarrow> sess (snd (consume a now m)) b = sess m b"
    and consume_keeps_claim: "resuming (sess m a) \<Longrightarrow> resuming (sess (snd (consume a now m)) a)"
begin

text \<open>While a claim is held no other claim succeeds.\<close>

lemma claim_excludes:
  assumes "resuming (sess m a)"
  obtains e where "fst (consume a now m) = Inl e" "e = SessionErrTerminal \<or> e = SessionErrResuming"
proof (cases "consume a now m")
  case (Pair r m')
  show thesis
  proof (cases r)
    case (Inl e)
    with Pair consume_lost [of a now m e m'] that show thesis by auto
  next
    case (Inr h)
    with Pair consume_won [of a now m h m'] assms show thesis by simp
  qed
qed

text \<open>Of any run of claims on one session with nothing released in between, at most one succeeds.\<close>

fun claims :: "'r \<Rightarrow> time list \<Rightarrow> 'm \<Rightarrow> (sentinel + gobytes) list" where
  "claims a [] m = []"
| "claims a (t # ts) m = (case consume a t m of (r, m') \<Rightarrow> r # claims a ts m')"

lemma claims_none_while_held:
  "resuming (sess m a) \<Longrightarrow> \<forall>r \<in> set (claims a ts m). isl r"
proof (induction ts arbitrary: m)
  case Nil
  then show ?case by simp
next
  case (Cons t ts)
  obtain e where "fst (consume a t m) = Inl e" using claim_excludes [OF Cons.prems] .
  moreover have "resuming (sess (snd (consume a t m)) a)"
    using Cons.prems by (rule consume_keeps_claim)
  ultimately show ?case using Cons.IH by (cases "consume a t m") auto
qed

lemma claims_at_most_one: "length (filter (\<lambda>r. \<not> isl r) (claims a ts m)) \<le> 1"
proof (induction ts arbitrary: m)
  case Nil
  then show ?case by simp
next
  case (Cons t ts)
  obtain r m' where c: "consume a t m = (r, m')" by (cases "consume a t m")
  show ?case
  proof (cases r)
    case (Inl e)
    with c Cons.IH [of m'] show ?thesis by simp
  next
    case (Inr h)
    with c consume_won [of a t m h m'] have "resuming (sess m' a)" by simp
    then have "filter (\<lambda>r. \<not> isl r) (claims a ts m') = []"
      using claims_none_while_held by (simp add: filter_empty_conv)
    with c Inr show ?thesis by simp
  qed
qed

text \<open>A finished session is sealed: no handle, no pending state, no claim.\<close>

lemma finalize_sealed:
  "Handle (sess (finalize a m) a) = None \<and> OAuthState (sess (finalize a m) a) = []
   \<and> \<not> resuming (sess (finalize a m) a) \<and> Status (sess (finalize a m) a) = Status (sess m a)"
  by (simp add: sess_finalize)

end

interpretation store: resumable_store heap Update SetState Finalize ConsumeForResume
proof unfold_locales
  fix a b :: addr and m m' :: memory and h :: gobytes and e :: sentinel and now :: time
  show "\<not> Terminal (heap m a) \<and> \<not> resuming (heap m a) \<and> now \<le> ExpiresAt (heap m a)
      \<and> h = append_nil (Handle (heap m a))
      \<and> heap m' a = (heap m a)\<lparr>resuming := True, OAuthState := []\<rparr>"
    if "ConsumeForResume a now m = (Inr h, m')"
    using ConsumeForResume_won [OF that] by simp
  show "(e = SessionErrTerminal \<and> Terminal (heap m' a)) \<or>
      (e = SessionErrResuming \<and> resuming (heap m a) \<and> heap m' a = heap m a)"
    if "ConsumeForResume a now m = (Inl e, m')"
    using that by (cases rule: ConsumeForResume_cases [of a now m]) (auto simp: Terminal_expire_session)
  show "heap (snd (ConsumeForResume a now m)) b = heap m b" if "b \<noteq> a"
    using that by (cases rule: ConsumeForResume_cases [of a now m]) auto
  show "resuming (heap (snd (ConsumeForResume a now m)) a)" if "resuming (heap m a)"
    using that by (cases rule: ConsumeForResume_cases [of a now m]) auto
qed auto

section \<open>The invariant of the store\<close>

text \<open>
  \<open>wf_memory T m\<close>: the two indexes agree with the sessions they point to, and a session the index
  has dropped is neither claimed nor alive at the time \<open>T\<close> of the last operation. The last part is
  what makes it safe that callers keep a pointer to a session after it was evicted.
\<close>

definition id_entry_ok :: "memory \<Rightarrow> string \<times> addr \<Rightarrow> bool" where
  "id_entry_ok m e =
     (fst e \<noteq> [] \<and> snd e < next_addr m \<and> CorrelationID (heap m (snd e)) = fst e)"

definition state_entry_ok :: "memory \<Rightarrow> string \<times> string \<Rightarrow> bool" where
  "state_entry_ok m e =
     (fst e \<noteq> [] \<and>
      (case map_of (byID m) (snd e) of
         None \<Rightarrow> False
       | Some a \<Rightarrow> OAuthState (heap m a) = fst e))"

definition dropped_ok :: "time \<Rightarrow> memory \<Rightarrow> addr \<Rightarrow> bool" where
  "dropped_ok T m a =
     (map_of (byID m) (CorrelationID (heap m a)) = Some a
      \<or> (\<not> resuming (heap m a) \<and> ExpiresAt (heap m a) < T))"

definition wf_memory :: "time \<Rightarrow> memory \<Rightarrow> bool" where
  "wf_memory T m =
     (distinct_keys (byID m) \<and> distinct_keys (byState m)
      \<and> list_all (id_entry_ok m) (byID m)
      \<and> list_all (state_entry_ok m) (byState m)
      \<and> list_all (dropped_ok T m) [0..<next_addr m])"

text \<open>The same through the lookups, which is how proofs use it.\<close>

declare map_of_eq_Some_iff [simp del]

lemma wf_memory_iff:
  "wf_memory T m \<longleftrightarrow>
     distinct_keys (byID m) \<and> distinct_keys (byState m)
     \<and> (\<forall>c a. map_of (byID m) c = Some a \<longrightarrow> id_entry_ok m (c, a))
     \<and> (\<forall>st c. map_of (byState m) st = Some c \<longrightarrow> state_entry_ok m (st, c))
     \<and> (\<forall>a < next_addr m. dropped_ok T m a)"
proof -
  have e: "(\<forall>x \<in> set l. P x) \<longleftrightarrow> (\<forall>k v. map_of l k = Some v \<longrightarrow> P (k, v))"
    if "distinct_keys l" for l :: "('k \<times> 'v) list" and P
    using amap.entries_look [OF that] by (auto simp: split_paired_all)
  show ?thesis
    by (auto simp: wf_memory_def list_all_iff e)
qed

lemma wf_memoryI:
  assumes "distinct_keys (byID m)" "distinct_keys (byState m)"
    and "\<And>c a. map_of (byID m) c = Some a \<Longrightarrow> c \<noteq> [] \<and> a < next_addr m \<and> CorrelationID (heap m a) = c"
    and "\<And>st c. map_of (byState m) st = Some c \<Longrightarrow>
      st \<noteq> [] \<and> (\<exists>a. map_of (byID m) c = Some a \<and> OAuthState (heap m a) = st)"
    and "\<And>a. a < next_addr m \<Longrightarrow> resuming (heap m a) \<or> \<not> ExpiresAt (heap m a) < T \<Longrightarrow>
      map_of (byID m) (CorrelationID (heap m a)) = Some a"
  shows "wf_memory T m"
proof -
  have "state_entry_ok m (st, c)" if "map_of (byState m) st = Some c" for st c
    using assms(4) [OF that] by (auto simp: state_entry_ok_def)
  moreover have "dropped_ok T m a" if "a < next_addr m" for a
    using assms(5) [OF that] unfolding dropped_ok_def by blast
  ultimately show ?thesis
    unfolding wf_memory_iff id_entry_ok_def using assms(1-3) by simp
qed

lemma wf_distinct:
  "wf_memory T m \<Longrightarrow> distinct_keys (byID m)" "wf_memory T m \<Longrightarrow> distinct_keys (byState m)"
  by (simp_all add: wf_memory_def)

lemma wf_id:
  assumes "wf_memory T m" "map_of (byID m) c = Some a"
  shows "c \<noteq> []" "a < next_addr m" "CorrelationID (heap m a) = c"
  using assms by (auto simp: wf_memory_iff id_entry_ok_def)

lemma wf_state:
  assumes "wf_memory T m" "map_of (byState m) st = Some c"
  obtains a where "st \<noteq> []" "map_of (byID m) c = Some a" "OAuthState (heap m a) = st"
  using assms by (fastforce simp: wf_memory_iff state_entry_ok_def split: option.splits)

lemma wf_dropped:
  assumes "wf_memory T m" "a < next_addr m"
  shows "map_of (byID m) (CorrelationID (heap m a)) = Some a
    \<or> (\<not> resuming (heap m a) \<and> ExpiresAt (heap m a) < T)"
  using assms by (auto simp: wf_memory_iff dropped_ok_def)

lemma wf_NewMemory: "wf_memory T NewMemory"
  by (simp add: wf_memory_def NewMemory_def)

lemma wf_mono:
  assumes "wf_memory T m" "T \<le> T'"
  shows "wf_memory T' m"
  using assms by (auto simp: wf_memory_iff dropped_ok_def)

text \<open>\<open>indexed\<close>: the store still knows the session. A claimed or living session is indexed.\<close>

definition indexed :: "memory \<Rightarrow> addr \<Rightarrow> bool" where
  "indexed m a = (map_of (byID m) (CorrelationID (heap m a)) = Some a)"

lemma wf_live_indexed:
  assumes "wf_memory T m" "a < next_addr m" "resuming (heap m a) \<or> T \<le> ExpiresAt (heap m a)"
  shows "indexed m a"
  using wf_dropped [OF assms(1,2)] assms(3) by (auto simp: indexed_def)

lemma wf_memory_indexed:
  assumes "wf_memory T m" "map_of (byID m) c = Some a"
  shows "indexed m a"
  using assms wf_id [OF assms] by (simp add: indexed_def)

text \<open>
  A mutation that keeps the correlation ID, the deadline and the pending state keeps the invariant
  if it does not claim a dropped session.
\<close>

lemma wf_Update:
  assumes wf: "wf_memory T m"
    and c: "CorrelationID (f (heap m a)) = CorrelationID (heap m a)"
    and x: "ExpiresAt (f (heap m a)) = ExpiresAt (heap m a)"
    and o: "OAuthState (f (heap m a)) = OAuthState (heap m a)"
    and r: "resuming (f (heap m a)) \<Longrightarrow> resuming (heap m a) \<or> indexed m a"
  shows "wf_memory T (Update a f m)"
proof (rule wf_memoryI)
  show "distinct_keys (byID (Update a f m))" "distinct_keys (byState (Update a f m))"
    using wf by (simp_all add: wf_distinct)
  fix k b assume "map_of (byID (Update a f m)) k = Some b"
  then show "k \<noteq> [] \<and> b < next_addr (Update a f m) \<and> CorrelationID (heap (Update a f m) b) = k"
    using wf_id [OF wf, of k b] c by auto
next
  fix st k assume "map_of (byState (Update a f m)) st = Some k"
  then obtain b where "st \<noteq> []" "map_of (byID m) k = Some b" "OAuthState (heap m b) = st"
    by (simp only: Update_simps) (rule wf_state [OF wf])
  then show "st \<noteq> [] \<and> (\<exists>b. map_of (byID (Update a f m)) k = Some b
      \<and> OAuthState (heap (Update a f m) b) = st)"
    using o by auto
next
  fix b assume "b < next_addr (Update a f m)"
    and "resuming (heap (Update a f m) b) \<or> \<not> ExpiresAt (heap (Update a f m) b) < T"
  then show "map_of (byID (Update a f m)) (CorrelationID (heap (Update a f m) b)) = Some b"
    using wf_dropped [OF wf, of b] c x r by (auto simp: indexed_def split: if_splits)
qed

lemma distinct_byState_delete_state:
  "distinct_keys (byState m) \<Longrightarrow> distinct_keys (byState (delete_state a m))"
  by (simp add: delete_state_def amap.ok_del)

text \<open>Changing the pending state of a session after dropping its old index entry.\<close>

lemma wf_set_pending:
  assumes wf: "wf_memory T m"
    and c: "CorrelationID (f (heap m a)) = CorrelationID (heap m a)"
    and x: "ExpiresAt (f (heap m a)) = ExpiresAt (heap m a)"
    and r: "resuming (f (heap m a)) \<Longrightarrow> resuming (heap m a)"
  shows "wf_memory T (Update a f (delete_state a m))"
proof (rule wf_memoryI)
  let ?m = "Update a f (delete_state a m)"
  show "distinct_keys (byID ?m)" "distinct_keys (byState ?m)"
    using wf by (simp_all add: wf_distinct distinct_byState_delete_state)
  fix k b assume "map_of (byID ?m) k = Some b"
  then show "k \<noteq> [] \<and> b < next_addr ?m \<and> CorrelationID (heap ?m b) = k"
    using wf_id [OF wf, of k b] c by auto
next
  let ?m = "Update a f (delete_state a m)"
  fix st k assume "map_of (byState ?m) st = Some k"
  then have k: "map_of (byState m) st = Some k" "st \<noteq> OAuthState (heap m a) \<or> st = []"
    by (auto split: if_splits)
  obtain b where "st \<noteq> []" "map_of (byID m) k = Some b" "OAuthState (heap m b) = st"
    using wf_state [OF wf k(1)] .
  then show "st \<noteq> [] \<and> (\<exists>b. map_of (byID ?m) k = Some b \<and> OAuthState (heap ?m b) = st)"
    using k(2) by auto
next
  let ?m = "Update a f (delete_state a m)"
  fix b assume "b < next_addr ?m" and "resuming (heap ?m b) \<or> \<not> ExpiresAt (heap ?m b) < T"
  then show "map_of (byID ?m) (CorrelationID (heap ?m b)) = Some b"
    using wf_dropped [OF wf, of b] c x r by (auto split: if_splits)
qed

lemma wf_clear_state: "wf_memory T m \<Longrightarrow> wf_memory T (clear_state a m)"
  unfolding clear_state_def by (rule wf_set_pending) auto

lemma wf_Finalize: "wf_memory T m \<Longrightarrow> wf_memory T (Finalize a m)"
  unfolding Finalize_def by (rule wf_Update [OF wf_clear_state]) auto

lemma wf_expireLocked:
  assumes "wf_memory T m" "T \<le> now"
  shows "wf_memory now (expireLocked now a m)"
  using wf_mono [OF assms]
  by (auto simp: expireLocked_def intro!: wf_clear_state wf_Update)

lemma wf_Get:
  assumes "wf_memory T m" "T \<le> now"
  shows "wf_memory now (snd (Get c now m))"
  using assms wf_mono [OF assms] by (auto simp: Get_def wf_expireLocked split: option.split)

lemma wf_GetByState:
  assumes "wf_memory T m" "T \<le> now"
  shows "wf_memory now (snd (GetByState st now m))"
  using assms wf_mono [OF assms] by (auto simp: GetByState_def Let_def wf_expireLocked split: option.split)

lemma wf_ViewByID:
  assumes "wf_memory T m" "T \<le> now"
  shows "wf_memory now (snd (ViewByID c now m))"
  using assms wf_mono [OF assms] by (auto simp: ViewByID_def Let_def wf_expireLocked split: option.split)

text \<open>Only a living session can be claimed, and a living session is indexed.\<close>

lemma wf_ConsumeForResume:
  assumes wf: "wf_memory T m" and le: "T \<le> now" and a: "a < next_addr m"
  shows "wf_memory now (snd (ConsumeForResume a now m))"
proof (cases rule: ConsumeForResume_cases [of a now m])
  case terminal
  with wf_expireLocked [OF wf le] show ?thesis by simp
next
  case busy
  with wf_mono [OF wf le] show ?thesis by simp
next
  case won
  note wf' = wf_mono [OF wf le]
  have "indexed m a" using wf_live_indexed [OF wf' a] won(3) by simp
  then have "wf_memory now (Update a (\<lambda>s. s\<lparr>resuming := True\<rparr>) m)"
    using wf' by (intro wf_Update) auto
  with won show ?thesis by (simp add: wf_clear_state)
qed

text \<open>Indexing the next state of a session the store still knows.\<close>

lemma wf_put_state:
  assumes wf: "wf_memory T m" and ix: "indexed m a" and st: "st = OAuthState (heap m a)" "st \<noteq> []"
  shows "wf_memory T (m\<lparr>byState := AList.update st (CorrelationID (heap m a)) (byState m)\<rparr>)"
proof (rule wf_memoryI)
  let ?m = "m\<lparr>byState := AList.update st (CorrelationID (heap m a)) (byState m)\<rparr>"
  show "distinct_keys (byID ?m)" "distinct_keys (byState ?m)"
    using wf by (simp_all add: wf_distinct amap.ok_put)
  show "c \<noteq> [] \<and> b < next_addr ?m \<and> CorrelationID (heap ?m b) = c" if "map_of (byID ?m) c = Some b" for c b
    using wf_id [OF wf, of c b] that by simp
  show "k \<noteq> [] \<and> (\<exists>b. map_of (byID ?m) c = Some b \<and> OAuthState (heap ?m b) = k)"
    if "map_of (byState ?m) k = Some c" for k c
  proof (cases "k = st")
    case True
    with that ix st show ?thesis by (auto simp: amap.look_put indexed_def)
  next
    case False
    with that have "map_of (byState m) k = Some c" by (simp add: amap.look_put)
    then obtain b where "k \<noteq> []" "map_of (byID m) c = Some b" "OAuthState (heap m b) = k"
      by (rule wf_state [OF wf])
    then show ?thesis by simp
  qed
  show "map_of (byID ?m) (CorrelationID (heap ?m b)) = Some b"
    if "b < next_addr ?m" "resuming (heap ?m b) \<or> \<not> ExpiresAt (heap ?m b) < T" for b
    using wf_dropped [OF wf, of b] that by auto
qed

lemma wf_SetState:
  assumes wf: "wf_memory T m" and ix: "indexed m a"
  shows "wf_memory T (SetState a st m)"
proof -
  let ?m1 = "Update a (\<lambda>s. s\<lparr>OAuthState := st\<rparr>) (delete_state a m)"
  have 1: "wf_memory T ?m1" using wf by (rule wf_set_pending) auto
  have ix1: "indexed ?m1 a" using ix by (simp add: indexed_def)
  have "wf_memory T (if st \<noteq> [] then ?m1\<lparr>byState := AList.update st (CorrelationID (heap ?m1 a)) (byState ?m1)\<rparr> else ?m1)"
    using 1 wf_put_state [OF 1 ix1, of st] by (cases "st = []") simp_all
  then show ?thesis unfolding SetState_def Let_def by (rule wf_Update) (auto split: if_splits)
qed

section \<open>Eviction\<close>

text \<open>A session is stale when nobody is resuming it and its deadline passed by more than the grace.\<close>

definition stale :: "time \<Rightarrow> memory \<Rightarrow> addr \<Rightarrow> bool" where
  "stale now m a = (\<not> resuming (heap m a) \<and> now > ExpiresAt (heap m a) + evictGrace)"

lemma evict_entry_simps [simp]:
  "heap (evict_entry now e m) = heap m" "next_addr (evict_entry now e m) = next_addr m"
  by (simp_all add: evict_entry_def Let_def)

lemma evict_fold_frame [simp]:
  "heap (fold (evict_entry now) es m) = heap m"
  "next_addr (fold (evict_entry now) es m) = next_addr m"
  by (induction es arbitrary: m) auto

lemma stale_cong: "heap m' = heap m \<Longrightarrow> stale now m' a = stale now m a"
  by (simp add: stale_def)

lemma byID_evict_entry:
  "map_of (byID (evict_entry now e m)) c
   = (if fst e = c \<and> stale now m (snd e) then None else map_of (byID m) c)"
  by (auto simp: evict_entry_def Let_def stale_def amap.look_del)

lemma byState_evict_entry:
  "map_of (byState (evict_entry now e m)) st
   = (if stale now m (snd e) \<and> OAuthState (heap m (snd e)) = st \<and> st \<noteq> [] then None
      else map_of (byState m) st)"
  by (auto simp: evict_entry_def Let_def stale_def)

lemma byID_evict_fold:
  "map_of (byID (fold (evict_entry now) es m)) c
   = (if \<exists>a. (c, a) \<in> set es \<and> stale now m a then None else map_of (byID m) c)"
proof (induction es arbitrary: m)
  case Nil
  then show ?case by simp
next
  case (Cons e es)
  have "stale now (evict_entry now e m) a = stale now m a" for a by (rule stale_cong) simp
  with Cons show ?case by (cases e) (auto simp: byID_evict_entry)
qed

lemma byState_evict_fold:
  "map_of (byState (fold (evict_entry now) es m)) st
   = (if st \<noteq> [] \<and> (\<exists>e \<in> set es. stale now m (snd e) \<and> OAuthState (heap m (snd e)) = st) then None
      else map_of (byState m) st)"
proof (induction es arbitrary: m)
  case Nil
  then show ?case by simp
next
  case (Cons e es)
  have "stale now (evict_entry now e m) a = stale now m a" for a by (rule stale_cong) simp
  with Cons show ?case by (auto simp: byState_evict_entry)
qed

lemma distinct_evict_entry:
  "distinct_keys (byID m) \<Longrightarrow> distinct_keys (byID (evict_entry now e m))"
  "distinct_keys (byState m) \<Longrightarrow> distinct_keys (byState (evict_entry now e m))"
  by (simp_all add: evict_entry_def Let_def amap.ok_del distinct_byState_delete_state)

lemma distinct_evict_fold:
  "distinct_keys (byID m) \<Longrightarrow> distinct_keys (byID (fold (evict_entry now) es m))"
  "distinct_keys (byState m) \<Longrightarrow> distinct_keys (byState (fold (evict_entry now) es m))"
  by (induction es arbitrary: m) (auto simp: distinct_evict_entry)

lemma evictExpiredLocked_frame [simp]:
  "heap (evictExpiredLocked now m) = heap m" "next_addr (evictExpiredLocked now m) = next_addr m"
  by (simp_all add: evictExpiredLocked_def)

lemma byID_evictExpiredLocked:
  assumes "wf_memory T m"
  shows "map_of (byID (evictExpiredLocked now m)) c
    = (case map_of (byID m) c of None \<Rightarrow> None | Some a \<Rightarrow> if stale now m a then None else Some a)"
  using amap.entries_look [OF wf_distinct(1) [OF assms]]
  by (auto simp: evictExpiredLocked_def byID_evict_fold split: option.split)

lemma byState_evictExpiredLocked:
  assumes "wf_memory T m"
  shows "map_of (byState (evictExpiredLocked now m)) st
    = (if st \<noteq> [] \<and> (\<exists>c a. map_of (byID m) c = Some a \<and> stale now m a \<and> OAuthState (heap m a) = st)
       then None else map_of (byState m) st)"
  using amap.entries_look [OF wf_distinct(1) [OF assms]]
  by (fastforce simp: evictExpiredLocked_def byState_evict_fold)

lemma wf_evictExpiredLocked:
  assumes wf: "wf_memory T m" and le: "T \<le> now"
  shows "wf_memory now (evictExpiredLocked now m)"
proof (rule wf_memoryI)
  let ?m = "evictExpiredLocked now m"
  note id = byID_evictExpiredLocked [OF wf]
  show "distinct_keys (byID ?m)" "distinct_keys (byState ?m)"
    using wf by (simp_all add: evictExpiredLocked_def distinct_evict_fold wf_distinct)
  show "c \<noteq> [] \<and> a < next_addr ?m \<and> CorrelationID (heap ?m a) = c" if "map_of (byID ?m) c = Some a" for c a
    using that wf_id [OF wf, of c a] by (auto simp: id split: option.splits if_splits)
  show "st \<noteq> [] \<and> (\<exists>a. map_of (byID ?m) c = Some a \<and> OAuthState (heap ?m a) = st)"
    if st: "map_of (byState ?m) st = Some c" for st c
  proof -
    have "map_of (byState m) st = Some c"
      and ns: "\<not> (st \<noteq> [] \<and> (\<exists>c a. map_of (byID m) c = Some a \<and> stale now m a \<and> OAuthState (heap m a) = st))"
      using st by (auto simp: byState_evictExpiredLocked [OF wf] split: if_splits)
    then obtain a where "st \<noteq> []" "map_of (byID m) c = Some a" "OAuthState (heap m a) = st"
      by (auto elim: wf_state [OF wf])
    then show ?thesis using ns by (auto simp: id)
  qed
  show "map_of (byID ?m) (CorrelationID (heap ?m a)) = Some a"
    if "a < next_addr ?m" "resuming (heap ?m a) \<or> \<not> ExpiresAt (heap ?m a) < now" for a
  proof -
    have "map_of (byID m) (CorrelationID (heap m a)) = Some a"
      using wf_dropped [OF wf, of a] that le by auto
    moreover have "\<not> stale now m a" using that by (auto simp: stale_def evictGrace_def)
    ultimately show ?thesis by (simp add: id)
  qed
qed

section \<open>Creation\<close>

text \<open>A correlation ID is fresh when the store has no session under it (128 random bits in the code).\<close>

definition new_session :: "string \<Rightarrow> string \<Rightarrow> string \<Rightarrow> string \<Rightarrow> time \<Rightarrow> time \<Rightarrow> session" where
  "new_session correlationID oauthState clientState conformance ttl now =
     \<lparr>CorrelationID = correlationID, OAuthState = oauthState, ClientState = clientState,
      Handle = None, Status = StatusAuthorizing, Reason = [], Conformance = conformance,
      ResultPDF = None, Evidence = None, CreatedAt = now, ExpiresAt = now + ttl, resuming = False\<rparr>"

lemma NewSession_unfold:
  "NewSession c st cs conf ttl t0 t1 m =
     (let m1 = evictExpiredLocked t0 m; a = next_addr m
      in (a, m1\<lparr>heap := (heap m)(a := new_session c st cs conf ttl t1), next_addr := Suc a,
               byID := AList.update c a (byID m1),
               byState := (if st \<noteq> [] then AList.update st c (byState m1) else byState m1)\<rparr>))"
  by (simp add: NewSession_def new_session_def Let_def)

lemma wf_NewSession:
  assumes wf: "wf_memory T m" and le: "T \<le> t0" "t0 \<le> t1"
    and c: "c \<noteq> []" and fresh: "map_of (byID m) c = None"
  shows "wf_memory t1 (snd (NewSession c st cs conf ttl t0 t1 m))"
proof -
  let ?m1 = "evictExpiredLocked t0 m" and ?m = "snd (NewSession c st cs conf ttl t0 t1 m)"
  have wf1: "wf_memory t1 ?m1"
    using wf_mono [OF wf_evictExpiredLocked [OF wf le(1)] le(2)] .
  have fresh1: "map_of (byID ?m1) c = None" by (simp add: byID_evictExpiredLocked [OF wf] fresh)
  have h: "heap ?m = (heap m)(next_addr m := new_session c st cs conf ttl t1)"
    and n: "next_addr ?m = Suc (next_addr m)"
    and i: "map_of (byID ?m) = (map_of (byID ?m1))(c \<mapsto> next_addr m)"
    and s: "map_of (byState ?m) k = (if st \<noteq> [] \<and> k = st then Some c else map_of (byState ?m1) k)" for k
    by (simp_all add: NewSession_unfold Let_def amap.look_put)
  have below: "a < next_addr m" if "map_of (byID ?m1) k = Some a" for k a
    using wf_id(2) [OF wf1 that] by simp
  show ?thesis
  proof (rule wf_memoryI)
    show "distinct_keys (byID ?m)" "distinct_keys (byState ?m)"
      using wf_distinct [OF wf1] by (simp_all add: NewSession_unfold Let_def amap.ok_put)
    show "k \<noteq> [] \<and> a < next_addr ?m \<and> CorrelationID (heap ?m a) = k" if k: "map_of (byID ?m) k = Some a" for k a
      using k c below [of k a] wf_id [OF wf1, of k a]
      by (auto simp: h n i new_session_def split: if_splits)
    show "k \<noteq> [] \<and> (\<exists>a. map_of (byID ?m) d = Some a \<and> OAuthState (heap ?m a) = k)"
      if k: "map_of (byState ?m) k = Some d" for k d
    proof (cases "st \<noteq> [] \<and> k = st")
      case True
      have "map_of (byID ?m) c = Some (next_addr m)" "OAuthState (heap ?m (next_addr m)) = st"
        by (simp_all add: i h new_session_def)
      moreover have "d = c" using k True by (simp add: s)
      ultimately show ?thesis using True by blast
    next
      case False
      with k have "map_of (byState ?m1) k = Some d" by (auto simp: s split: if_splits)
      then obtain a where a: "k \<noteq> []" "map_of (byID ?m1) d = Some a" "OAuthState (heap ?m1 a) = k"
        by (rule wf_state [OF wf1])
      then show ?thesis using fresh1 below [OF a(2)] by (auto simp: i h)
    qed
    show "map_of (byID ?m) (CorrelationID (heap ?m a)) = Some a"
      if a: "a < next_addr ?m" "resuming (heap ?m a) \<or> \<not> ExpiresAt (heap ?m a) < t1" for a
    proof (cases "a = next_addr m")
      case True
      then show ?thesis by (simp add: h i new_session_def)
    next
      case False
      with a have "map_of (byID ?m1) (CorrelationID (heap m a)) = Some a"
        using wf_dropped [OF wf1, of a] by (auto simp: h n)
      then show ?thesis using False fresh1 by (auto simp: h i)
    qed
  qed
qed

lemma NewSession_result:
  assumes "NewSession c st cs conf ttl t0 t1 m = (a, m')"
  shows "a = next_addr m" "heap m' a = new_session c st cs conf ttl t1"
    "map_of (byID m') c = Some a" "st \<noteq> [] \<Longrightarrow> map_of (byState m') st = Some c"
  using assms by (auto simp: NewSession_unfold Let_def amap.look_put)

lemma NewSession_frame:
  assumes "b < next_addr m"
  shows "heap (snd (NewSession c st cs conf ttl t0 t1 m)) b = heap m b"
  using assms by (simp add: NewSession_unfold Let_def)

section \<open>Properties\<close>

text \<open>A store with one live session, to apply the theorems to.\<close>

definition demo_store :: memory where
  "demo_store = snd (NewSession ''c1'' ''s1'' ''app'' ''B-B'' 900 0 1 NewMemory)"

lemma demo_store_eq:
  "demo_store = \<lparr>byID = [(''c1'', 0)], byState = [(''s1'', ''c1'')],
     heap = (heap NewMemory)(0 := new_session ''c1'' ''s1'' ''app'' ''B-B'' 900 1), next_addr = 1\<rparr>"
  by (simp add: demo_store_def NewSession_unfold NewMemory_def evictExpiredLocked_def)

lemma demo_store_wf: "wf_memory 1 demo_store"
  by (simp add: demo_store_eq wf_memory_def id_entry_ok_def state_entry_ok_def dropped_ok_def new_session_def)

text \<open>
  C7: every store operation keeps the store well formed, used as the engine and the handlers use it.
  In a well-formed store each key of the two indexes leads to a session that carries it, and a session
  the index has dropped is neither claimed nor alive. As the clock advances, the lookups, the expiry of
  a session, \<open>Finalize\<close> and the eviction keep this without a condition; a claim does for a pointer the
  store has handed out, \<open>Update\<close> for a mutation that keeps the correlation ID, the deadline, the
  pending state and the claim, \<open>SetState\<close> for a session the index still knows, and \<open>New\<close> for a fresh
  correlation ID.
\<close>

theorem store_operations_keep_invariant:
  assumes wf: "wf_memory T m" and le: "T \<le> now"
  shows "wf_memory now (snd (Get c now m)) \<and> wf_memory now (snd (GetByState state now m))
    \<and> wf_memory now (snd (ViewByID c now m)) \<and> wf_memory now (expireLocked now a m)
    \<and> wf_memory now (Finalize a m) \<and> wf_memory now (evictExpiredLocked now m)
    \<and> (a < next_addr m \<longrightarrow> wf_memory now (snd (ConsumeForResume a now m)))
    \<and> (CorrelationID (f (heap m a)) = CorrelationID (heap m a) \<and> ExpiresAt (f (heap m a)) = ExpiresAt (heap m a)
       \<and> OAuthState (f (heap m a)) = OAuthState (heap m a) \<and> resuming (f (heap m a)) = resuming (heap m a)
       \<longrightarrow> wf_memory now (Update a f m))
    \<and> (map_of (byID m) (CorrelationID (heap m a)) = Some a \<longrightarrow> wf_memory now (SetState a state m))
    \<and> (c \<noteq> [] \<and> map_of (byID m) c = None \<and> now \<le> now2
       \<longrightarrow> wf_memory now2 (snd (NewSession c state cs conf ttl now now2 m)))"
proof -
  have wf': "wf_memory now m" using wf le by (rule wf_mono)
  have "wf_memory now (Update a f m)"
    if "CorrelationID (f (heap m a)) = CorrelationID (heap m a)" "ExpiresAt (f (heap m a)) = ExpiresAt (heap m a)"
      "OAuthState (f (heap m a)) = OAuthState (heap m a)" "resuming (f (heap m a)) = resuming (heap m a)"
    using that by (intro wf_Update [OF wf']) auto
  then show ?thesis
    using wf_Get [OF wf le] wf_GetByState [OF wf le] wf_ViewByID [OF wf le] wf_Finalize [OF wf']
      wf_expireLocked [OF wf le] wf_evictExpiredLocked [OF wf le] wf_ConsumeForResume [OF wf le]
      wf_SetState [OF wf', of a state] wf_NewSession [OF wf le]
    unfolding indexed_def by blast
qed

theorem store_operations_keep_invariant_witness:
  "wf_memory 5 (snd (ConsumeForResume 0 5 demo_store))
   \<and> wf_memory 5 (SetState 0 ''s2'' demo_store)
   \<and> wf_memory 6 (snd (NewSession ''c2'' ''s2'' [] ''B-T'' 900 5 6 demo_store))"
  using store_operations_keep_invariant [OF demo_store_wf, of 5 "''c2''" "''s2''" 0 id 6 "[]" "''B-T''" 900]
  by (simp add: demo_store_eq new_session_def)

lemma GetByState_waits:
  assumes wf: "wf_memory T m"
  shows "GetByState state now m = (Inr a, m') \<longleftrightarrow>
      m' = m \<and> OAuthState (heap m a) = state \<and> \<not> expired now (heap m a)
      \<and> (\<exists>c. map_of (byState m) state = Some c \<and> map_of (byID m) c = Some a)"
proof
  assume g: "GetByState state now m = (Inr a, m')"
  then obtain c where c: "map_of (byState m) state = Some c" "map_of (byID m) c = Some a"
      "map_str (byState (expireLocked now a m)) state = c" "c \<noteq> []"
    by (auto simp: GetByState_def Let_def map_str_def split: option.splits if_splits)
  obtain b where b: "state \<noteq> []" "map_of (byID m) c = Some b" "OAuthState (heap m b) = state"
    using wf c(1) by (rule wf_state)
  have ne: "\<not> expired now (heap m a)"
  proof
    assume "expired now (heap m a)"
    then have "map_str (byState (expireLocked now a m)) state = []"
      using b c(2) by (simp add: byState_expireLocked map_str_def)
    with c(3,4) show False by simp
  qed
  then have "expireLocked now a m = m" by (auto simp: expireLocked_def expired_def)
  with g c have "m' = m" by (auto simp: GetByState_def Let_def map_str_def)
  with b c ne show "m' = m \<and> OAuthState (heap m a) = state \<and> \<not> expired now (heap m a)
      \<and> (\<exists>c. map_of (byState m) state = Some c \<and> map_of (byID m) c = Some a)"
    by auto
next
  assume r: "m' = m \<and> OAuthState (heap m a) = state \<and> \<not> expired now (heap m a)
      \<and> (\<exists>c. map_of (byState m) state = Some c \<and> map_of (byID m) c = Some a)"
  then obtain c where c: "map_of (byState m) state = Some c" "map_of (byID m) c = Some a" by blast
  have "expireLocked now a m = m" using r by (auto simp: expireLocked_def expired_def)
  with c r wf_id(1) [OF wf c(2)] show "GetByState state now m = (Inr a, m')"
    by (simp add: GetByState_def Let_def map_str_def)
qed

text \<open>
  C14: an OAuth state finds a session exactly while that session waits for it. In a well-formed store
  \<open>GetByState\<close> returns a session if and only if the state is indexed to it and it has not run out; the
  session found carries that state, and the lookup does not change the store.
\<close>

theorem GetByState_iff:
  assumes wf: "wf_memory T m"
  shows "GetByState state now m = (Inr a, m') \<longleftrightarrow>
      m' = m \<and> OAuthState (heap m a) = state \<and> \<not> expired now (heap m a)
      \<and> (\<exists>c. map_of (byState m) state = Some c \<and> map_of (byID m) c = Some a)"
  by (rule GetByState_waits [OF wf])

theorem GetByState_iff_witness:
  "GetByState ''s1'' 901 demo_store = (Inr 0, demo_store) \<and> GetByState ''s1'' 902 demo_store \<noteq> (Inr 0, demo_store)"
  using GetByState_iff [OF demo_store_wf, of "''s1''" 901 0 demo_store]
    GetByState_iff [OF demo_store_wf, of "''s1''" 902 0 demo_store]
  by (simp add: demo_store_eq expired_def new_session_def Terminal_def)

text \<open>
  Eviction spares what is still needed. Creating a session keeps every other indexed session that
  is being resumed or whose deadline lies at most five minutes back: it is still found, unchanged. A
  session that is neither is gone from the index.
\<close>

theorem eviction_spares:
  assumes wf: "wf_memory T m" and other: "c' \<noteq> c" and ix: "map_of (byID m) c' = Some a"
  shows "map_of (byID (snd (NewSession c state cs conf ttl now now2 m))) c'
    = (if resuming (heap m a) \<or> now \<le> ExpiresAt (heap m a) + 300000000000 then Some a else None)
    \<and> heap (snd (NewSession c state cs conf ttl now now2 m)) a = heap m a"
  using wf_id(2) [OF wf ix] other ix
  by (simp add: NewSession_unfold Let_def amap.look_put byID_evictExpiredLocked [OF wf] stale_def evictGrace_def)

theorem eviction_spares_witness:
  "map_of (byID (snd (NewSession ''c2'' [] [] [] 900 300000000901 300000000901 demo_store))) ''c1'' = Some 0
   \<and> map_of (byID (snd (NewSession ''c2'' [] [] [] 900 300000000902 300000000902 demo_store))) ''c1'' = None"
proof -
  have "map_of (byID demo_store) ''c1'' = Some 0" by (simp add: demo_store_eq)
  note e = eviction_spares [OF demo_store_wf, of "''c1''" "''c2''", OF _ this]
  show ?thesis
    using e [of "[]" "[]" "[]" 900 300000000901 300000000901] e [of "[]" "[]" "[]" 900 300000000902 300000000902]
    by (simp add: demo_store_eq new_session_def)
qed

text \<open>Claims of one session at the given times, with nothing in between.\<close>

fun claim_all :: "addr \<Rightarrow> time list \<Rightarrow> memory \<Rightarrow> (sentinel + gobytes) list" where
  "claim_all a [] m = []"
| "claim_all a (t # ts) m = (case ConsumeForResume a t m of (r, m') \<Rightarrow> r # claim_all a ts m')"

lemma claim_all_claims: "claim_all a ts m = store.claims a ts m"
  by (induction a ts m rule: claim_all.induct) (auto split: prod.split)

text \<open>
  A session is claimed once. However often and whenever callbacks claim the same session, at most
  one of them gets the handle before the session is released.
\<close>

theorem claimed_once: "length (filter (\<lambda>r. \<not> isl r) (claim_all a ts m)) \<le> 1"
  unfolding claim_all_claims by (rule store.claims_at_most_one)

text \<open>
  A created session is found under both its keys. Right after its creation and until its deadline,
  a session is returned by \<open>Get\<close>, \<open>GetByState\<close> and \<open>ViewByID\<close>, with the fields it was created with.
\<close>

theorem new_session_found:
  assumes new: "NewSession c state cs conf ttl t0 t1 m = (a, m')" and "c \<noteq> []" "state \<noteq> []" "now \<le> t1 + ttl"
  shows "Get c now m' = (Inr a, m') \<and> GetByState state now m' = (Inr a, m')
    \<and> ViewByID c now m' = (Inr \<lparr>vCorrelationID = c, vClientState = cs, vStatus = ''authorizing'', vReason = [],
        vResultPDF = None, vEvidence = None\<rparr>, m')"
proof -
  note r = NewSession_result [OF new]
  have x: "expireLocked now a m' = m'"
    using assms(4) by (simp add: expireLocked_def r(2) new_session_def)
  show ?thesis
    using r(3) r(4) [OF assms(3)] assms(2)
    by (simp add: Get_def GetByState_def ViewByID_def map_str_def x Let_def session_view_def r(2) new_session_def
        StatusAuthorizing_def)
qed

theorem new_session_found_witness:
  "GetByState ''s1'' 901 demo_store = (Inr 0, demo_store)"
proof -
  have "NewSession ''c1'' ''s1'' ''app'' ''B-B'' 900 0 1 NewMemory = (0, demo_store)"
    by (simp add: demo_store_def NewSession_unfold Let_def NewMemory_def)
  from new_session_found [OF this, of 901] show ?thesis by simp
qed

end
