(* ===== verification/Store_Spec.thy ===== *)
theory Store_Spec
  imports Session_Store
begin

text \<open>
  What the store promises, without pointers and without an index of states: a finite map from
  correlation IDs to sessions. The detailed store of Session_Store implements it: every operation
  through a pointer the index knows is the operation of the map at that pointer's correlation ID.
\<close>

section \<open>The abstract store\<close>

type_synonym store_spec = "string \<rightharpoonup> session"

definition abs_store :: "memory \<Rightarrow> store_spec" where
  "abs_store m c = map_option (heap m) (map_of (byID m) c)"

definition spec_update :: "string \<Rightarrow> (session \<Rightarrow> session) \<Rightarrow> store_spec \<Rightarrow> store_spec" where
  "spec_update c f s = (case s c of None \<Rightarrow> s | Some x \<Rightarrow> s(c \<mapsto> f x))"

definition spec_view :: "string \<Rightarrow> time \<Rightarrow> store_spec \<Rightarrow> (sentinel + view) \<times> store_spec" where
  "spec_view c now s =
     (case s c of
        None \<Rightarrow> (Inl SessionErrNotFound, s)
      | Some x \<Rightarrow> (Inr (session_view (expire_session now x)), spec_update c (expire_session now) s))"

definition spec_claim :: "string \<Rightarrow> time \<Rightarrow> store_spec \<Rightarrow> (sentinel + gobytes) \<times> store_spec" where
  "spec_claim c now s =
     (case s c of
        None \<Rightarrow> (Inl SessionErrNotFound, s)
      | Some x \<Rightarrow>
          (if Terminal x \<or> now > ExpiresAt x
           then (Inl SessionErrTerminal, spec_update c (expire_session now) s)
           else if resuming x then (Inl SessionErrResuming, s)
           else (Inr (append_nil (Handle x)), spec_update c (\<lambda>x. x\<lparr>resuming := True, OAuthState := []\<rparr>) s)))"

definition spec_set_state :: "string \<Rightarrow> string \<Rightarrow> store_spec \<Rightarrow> store_spec" where
  "spec_set_state c st = spec_update c (\<lambda>x. x\<lparr>OAuthState := st, resuming := False\<rparr>)"

definition spec_finalize :: "string \<Rightarrow> store_spec \<Rightarrow> store_spec" where
  "spec_finalize c = spec_update c (\<lambda>x. x\<lparr>OAuthState := [], Handle := None, resuming := False\<rparr>)"

text \<open>Eviction drops what has been over for the grace period, unless it is claimed.\<close>

definition spec_evict :: "time \<Rightarrow> store_spec \<Rightarrow> store_spec" where
  "spec_evict now s c =
     (case s c of
        None \<Rightarrow> None
      | Some x \<Rightarrow> if \<not> resuming x \<and> now > ExpiresAt x + evictGrace then None else Some x)"

definition spec_new ::
  "string \<Rightarrow> string \<Rightarrow> string \<Rightarrow> string \<Rightarrow> time \<Rightarrow> time \<Rightarrow> time \<Rightarrow> store_spec \<Rightarrow> store_spec" where
  "spec_new c st cs conf ttl t0 t1 s = (spec_evict t0 s)(c \<mapsto> new_session c st cs conf ttl t1)"

section \<open>The refinement\<close>

text \<open>A change of the one session at \<open>a\<close> is a change of the map at its correlation ID.\<close>

lemma abs_heap_update:
  assumes wf: "wf_memory T m" and a: "map_of (byID m) c = Some a"
    and m': "heap m' = (heap m)(a := f (heap m a))" "byID m' = byID m"
  shows "abs_store m' = spec_update c f (abs_store m)"
proof
  fix d
  have "d = c" if "map_of (byID m) d = Some a" using wf_id(3) [OF wf that] wf_id(3) [OF wf a] by simp
  then show "abs_store m' d = spec_update c f (abs_store m) d"
    using a by (cases "map_of (byID m) d") (auto simp: abs_store_def spec_update_def m')
qed

lemma abs_expire:
  assumes "wf_memory T m" "map_of (byID m) c = Some a"
  shows "abs_store (expireLocked now a m) = spec_update c (expire_session now) (abs_store m)"
  by (rule abs_heap_update [OF assms]) simp_all

lemma abs_view:
  assumes "wf_memory T m"
  shows "map_prod id abs_store (ViewByID c now m) = spec_view c now (abs_store m)"
proof (cases "map_of (byID m) c")
  case None
  then show ?thesis by (simp add: ViewByID_def spec_view_def abs_store_def)
next
  case (Some a)
  then show ?thesis
    using abs_expire [OF assms Some, of now] by (simp add: ViewByID_def Let_def spec_view_def) (simp add: abs_store_def)
qed

lemma abs_claim:
  assumes wf: "wf_memory T m" and a: "map_of (byID m) c = Some a"
  shows "map_prod id abs_store (ConsumeForResume a now m) = spec_claim c now (abs_store m)"
proof -
  have x: "abs_store m c = Some (heap m a)" using a by (simp add: abs_store_def)
  show ?thesis
  proof (cases rule: ConsumeForResume_cases [of a now m])
    case terminal
    then show ?thesis using x abs_expire [OF wf a, of now] by (simp add: spec_claim_def)
  next
    case busy
    then show ?thesis using x by (simp add: spec_claim_def)
  next
    case won
    have "abs_store (clear_state a (Update a (\<lambda>s. s\<lparr>resuming := True\<rparr>) m))
        = spec_update c (\<lambda>x. x\<lparr>resuming := True, OAuthState := []\<rparr>) (abs_store m)"
      by (rule abs_heap_update [OF wf a]) simp_all
    with won x show ?thesis by (simp add: spec_claim_def)
  qed
qed

lemma abs_evict:
  assumes "wf_memory T m"
  shows "abs_store (evictExpiredLocked now m) = spec_evict now (abs_store m)"
  by (rule ext) (simp add: abs_store_def spec_evict_def byID_evictExpiredLocked [OF assms] stale_def split: option.split)

lemma abs_new:
  assumes wf: "wf_memory T m"
  shows "abs_store (snd (NewSession c st cs conf ttl t0 t1 m)) = spec_new c st cs conf ttl t0 t1 (abs_store m)"
proof
  fix d
  have "a \<noteq> next_addr m" if "map_of (byID m) k = Some a" for k a using wf_id(2) [OF wf that] by simp
  then show "abs_store (snd (NewSession c st cs conf ttl t0 t1 m)) d = spec_new c st cs conf ttl t0 t1 (abs_store m) d"
    unfolding spec_new_def abs_evict [OF wf, symmetric]
    by (auto simp: abs_store_def NewSession_unfold Let_def amap.look_put byID_evictExpiredLocked [OF wf]
        split: option.split)
qed

section \<open>Properties\<close>

text \<open>
  C8: the store implements a map of sessions. On a well-formed store, creating a session, reading
  one, claiming one, setting its next state, finalizing it and updating it are the same operations of
  a plain map from correlation IDs to sessions, with the same results; eviction drops exactly the
  unclaimed sessions whose deadline passed more than five minutes ago.
\<close>

theorem store_refines_map:
  assumes wf: "wf_memory T m" and a: "map_of (byID m) c = Some a"
  shows "abs_store (snd (NewSession d st cs conf ttl t0 t1 m)) = spec_new d st cs conf ttl t0 t1 (abs_store m)
    \<and> map_prod id abs_store (ViewByID d now m) = spec_view d now (abs_store m)
    \<and> map_prod id abs_store (ConsumeForResume a now m) = spec_claim c now (abs_store m)
    \<and> abs_store (SetState a st m) = spec_set_state c st (abs_store m)
    \<and> abs_store (Finalize a m) = spec_finalize c (abs_store m)
    \<and> abs_store (Update a f m) = spec_update c f (abs_store m)"
  unfolding spec_set_state_def spec_finalize_def
  by (intro conjI abs_new [OF wf] abs_view [OF wf] abs_claim [OF wf a] abs_heap_update [OF wf a]) simp_all

theorem store_refines_map_witness:
  "map_prod id abs_store (ConsumeForResume 0 5 demo_store) = spec_claim ''c1'' 5 (abs_store demo_store)"
proof -
  have "map_of (byID demo_store) ''c1'' = Some 0" by (simp add: demo_store_eq)
  from store_refines_map [OF demo_store_wf this] show ?thesis by blast
qed

end
