(* ===== verification/Go_Net.thy ===== *)
theory Go_Net
  imports Go_Base
begin

text \<open>
  IP address literals as \<open>netip.ParseAddr\<close> and \<open>net.ParseIP\<close> read them, and the loopback test.
  The configuration asks whether a host is a loopback address, and the URL parser refuses a
  bracketed host that is not an IPv6 address. An address is its list of bytes (numbers below 256),
  four for IPv4 and sixteen for IPv6.
\<close>

section \<open>IPv4\<close>

text \<open>One decimal field: digits only, no leading zero, at most 255.\<close>

definition ipv4_field :: "string \<Rightarrow> nat option" where
  "ipv4_field s =
     (if s = [] \<or> \<not> list_all is_digit s \<or> length s > 3 \<or> (length s > 1 \<and> hd s = CHR ''0'')
      then None
      else let n = foldl (\<lambda>a c. 10 * a + (ord c - 48)) 0 s
           in if n > 255 then None else Some n)"

fun option_list :: "'a option list \<Rightarrow> 'a list option" where
  "option_list [] = Some []"
| "option_list (None # _) = None"
| "option_list (Some x # xs) = map_option ((#) x) (option_list xs)"

definition parse_ipv4 :: "string \<Rightarrow> nat list option" where
  "parse_ipv4 s =
     (let fs = strings_Split s (CHR ''.'')
      in if length fs = 4 then option_list (map ipv4_field fs) else None)"

section \<open>IPv6\<close>

definition hex_value :: "string \<Rightarrow> nat" where
  "hex_value s = foldl (\<lambda>a c. 16 * a + (case unhex c of Some n \<Rightarrow> n | None \<Rightarrow> 0)) 0 s"

definition is_hex :: "char \<Rightarrow> bool" where
  "is_hex c = (unhex c \<noteq> None)"

text \<open>
  The loop over the colon-separated groups: \<open>n\<close> is the number of 16-bit groups that still fit,
  \<open>acc\<close> the bytes read, \<open>ell\<close> where the ellipsis was. The result is the bytes, the ellipsis and the
  text that is left over.
\<close>

fun ipv6_groups :: "nat \<Rightarrow> string \<Rightarrow> nat list \<Rightarrow> nat option \<Rightarrow> (nat list \<times> nat option \<times> string) option" where
  "ipv6_groups 0 s acc ell = Some (acc, ell, s)"
| "ipv6_groups (Suc n) s acc ell =
     (let ds = takeWhile is_hex s; r = dropWhile is_hex s
      in if ds = [] \<or> length ds > 4 then None
         else if r \<noteq> [] \<and> hd r = CHR ''.'' then
           (if ell = None \<and> length acc \<noteq> 12 \<or> length acc + 4 > 16 then None
            else case parse_ipv4 s of
                   None \<Rightarrow> None
                 | Some bs \<Rightarrow> Some (acc @ bs, ell, []))
         else
           (let v = hex_value ds; acc' = acc @ [v div 256, v mod 256]
            in case r of
                 [] \<Rightarrow> Some (acc', ell, [])
               | c # r1 \<Rightarrow>
                   (if c \<noteq> CHR '':'' then None
                    else case r1 of
                           [] \<Rightarrow> None
                         | c1 # r2 \<Rightarrow>
                             (if c1 = CHR '':'' then
                                (if ell \<noteq> None then None
                                 else if r2 = [] then Some (acc', Some (length acc'), [])
                                 else ipv6_groups n r2 acc' (Some (length acc')))
                              else ipv6_groups n r1 acc' ell))))"

definition expand_ellipsis :: "nat list \<times> nat option \<times> string \<Rightarrow> nat list option" where
  "expand_ellipsis r =
     (case r of (bs, ell, rest) \<Rightarrow>
        if rest \<noteq> [] then None
        else case ell of
               None \<Rightarrow> if length bs = 16 then Some bs else None
             | Some e \<Rightarrow>
                 if length bs < 16
                 then Some (take e bs @ replicate (16 - length bs) 0 @ drop e bs)
                 else None)"

definition parse_ipv6_bytes :: "string \<Rightarrow> nat list option" where
  "parse_ipv6_bytes s =
     (if take 2 s = ''::'' then
        (if length s = 2 then Some (replicate 16 0)
         else Option.bind (ipv6_groups 8 (drop 2 s) [] (Some 0)) expand_ellipsis)
      else Option.bind (ipv6_groups 8 s [] None) expand_ellipsis)"

text \<open>An address with its zone; a percent sign starts the zone, which must not be empty.\<close>

definition parse_ipv6 :: "string \<Rightarrow> (nat list \<times> string) option" where
  "parse_ipv6 s =
     (case strings_Cut s (CHR ''%'') of (a, zone, found) \<Rightarrow>
        if found \<and> zone = [] then None
        else map_option (\<lambda>bs. (bs, zone)) (parse_ipv6_bytes a))"

fun netip_ParseAddr_at :: "string \<Rightarrow> string \<Rightarrow> (nat list \<times> string) option" where
  "netip_ParseAddr_at s [] = None"
| "netip_ParseAddr_at s (c # cs) =
     (if c = CHR ''.'' then map_option (\<lambda>bs. (bs, [])) (parse_ipv4 s)
      else if c = CHR '':'' then parse_ipv6 s
      else if c = CHR ''%'' then None
      else netip_ParseAddr_at s cs)"

definition netip_ParseAddr :: "string \<Rightarrow> (nat list \<times> string) option" where
  "netip_ParseAddr s = netip_ParseAddr_at s s"

section \<open>net.ParseIP and IsLoopback\<close>

text \<open>A parsed address without a zone, in its sixteen-byte form.\<close>

definition v4_prefix :: "nat list" where
  "v4_prefix = replicate 10 0 @ [255, 255]"

definition net_ParseIP :: "string \<Rightarrow> nat list option" where
  "net_ParseIP s =
     (case netip_ParseAddr s of
        None \<Rightarrow> None
      | Some (bs, zone) \<Rightarrow>
          if zone \<noteq> [] then None
          else Some (if length bs = 4 then v4_prefix @ bs else bs))"

definition To4 :: "nat list \<Rightarrow> nat list option" where
  "To4 ip = (if length ip = 16 \<and> take 12 ip = v4_prefix then Some (drop 12 ip) else None)"

definition IsLoopback :: "nat list \<Rightarrow> bool" where
  "IsLoopback ip =
     (case To4 ip of
        Some ip4 \<Rightarrow> hd ip4 = 127
      | None \<Rightarrow> ip = replicate 15 0 @ [1])"

end
