(* ===== verification/Go_URL.thy ===== *)
theory Go_URL
  imports Go_Net
begin

text \<open>
  The package net/url as the gateway uses it: percent escaping in its modes, \<open>Parse\<close>, \<open>String\<close>,
  \<open>Hostname\<close>, \<open>Values.Encode\<close> and \<open>ParseQuery\<close>, after the sources of Go 1.26 (the version go.mod
  names). Errors carry no text here: the code tests only whether parsing failed.
\<close>

section \<open>Escaping\<close>

datatype url_encoding =
    EncodePath | EncodePathSegment | EncodeHost | EncodeZone
  | EncodeUserPassword | EncodeQueryComponent | EncodeFragment

definition is_alnum :: "char \<Rightarrow> bool" where
  "is_alnum c = (is_lower c \<or> is_upper c \<or> is_digit c)"

definition url_reserved :: "char \<Rightarrow> url_encoding \<Rightarrow> bool" where
  "url_reserved c mode =
     (case mode of
        EncodePath \<Rightarrow> c = CHR ''?''
      | EncodePathSegment \<Rightarrow> c \<in> set ''/;,?''
      | EncodeUserPassword \<Rightarrow> c \<in> set ''@/?:''
      | EncodeQueryComponent \<Rightarrow> True
      | EncodeFragment \<Rightarrow> False
      | _ \<Rightarrow> True)"

definition shouldEscape :: "char \<Rightarrow> url_encoding \<Rightarrow> bool" where
  "shouldEscape c mode =
     (if is_alnum c then False
      else if mode \<in> {EncodeHost, EncodeZone} \<and> (c \<in> set ''!$&()*+,;=:[]<>'' \<or> ord c = 39 \<or> ord c = 34)
      then False
      else if c \<in> set ''-_.~'' then False
      else if c \<in> set ''$&+,/:;=?@'' then url_reserved c mode
      else if mode = EncodeFragment \<and> c \<in> set ''!()*'' then False
      else True)"

text \<open>A percent escape uses upper-case digits; a space in a query component is a plus sign.\<close>

definition escape_char :: "url_encoding \<Rightarrow> char \<Rightarrow> string" where
  "escape_char mode c =
     (if c = CHR '' '' \<and> mode = EncodeQueryComponent then ''+''
      else if shouldEscape c mode
      then [CHR ''%'', upper_hex_char (ord c div 16), upper_hex_char (ord c mod 16)]
      else [c])"

definition url_escape :: "string \<Rightarrow> url_encoding \<Rightarrow> string" where
  "url_escape s mode = concat (map (escape_char mode) s)"

definition escape_allowed :: "url_encoding \<Rightarrow> nat \<Rightarrow> nat \<Rightarrow> bool" where
  "escape_allowed mode h l =
     ((mode = EncodeHost \<longrightarrow> h \<ge> 8 \<or> (h = 2 \<and> l = 5))
      \<and> (mode = EncodeZone \<longrightarrow>
           (h = 2 \<and> l = 5) \<or> 16 * h + l = 32 \<or> \<not> shouldEscape (chr (16 * h + l)) EncodeHost))"

fun url_unescape :: "string \<Rightarrow> url_encoding \<Rightarrow> string option" where
  "url_unescape [] mode = Some []"
| "url_unescape (c # cs) mode =
     (if c = CHR ''%'' then
        (case cs of
           h # l # r \<Rightarrow>
             (case (unhex h, unhex l) of
                (Some x, Some y) \<Rightarrow>
                  (if escape_allowed mode x y
                   then map_option ((#) (chr (16 * x + y))) (url_unescape r mode)
                   else None)
              | _ \<Rightarrow> None)
         | _ \<Rightarrow> None)
      else if mode \<in> {EncodeHost, EncodeZone} \<and> ord c < 128 \<and> shouldEscape c mode then None
      else map_option
             ((#) (if c = CHR ''+'' \<and> mode = EncodeQueryComponent then CHR '' '' else c))
             (url_unescape cs mode))"

definition url_QueryEscape :: "string \<Rightarrow> string" where
  "url_QueryEscape s = url_escape s EncodeQueryComponent"

definition url_QueryUnescape :: "string \<Rightarrow> string option" where
  "url_QueryUnescape s = url_unescape s EncodeQueryComponent"

section \<open>URLs\<close>

record userinfo =
  username :: string
  password :: "string option"

record url =
  Scheme :: string
  Opaque :: string
  User :: "userinfo option"
  Host :: string
  Path :: string
  RawPath :: string
  OmitHost :: bool
  ForceQuery :: bool
  RawQuery :: string
  Fragment :: string
  RawFragment :: string

definition empty_url :: url where
  "empty_url = \<lparr>Scheme = [], Opaque = [], User = None, Host = [], Path = [], RawPath = [],
     OmitHost = False, ForceQuery = False, RawQuery = [], Fragment = [], RawFragment = []\<rparr>"

text \<open>\<open>getScheme\<close>: None is an error, otherwise the scheme (possibly empty) and the rest.\<close>

fun getScheme_at :: "string \<Rightarrow> string \<Rightarrow> string \<Rightarrow> (string \<times> string) option" where
  "getScheme_at raw seen [] = Some ([], raw)"
| "getScheme_at raw seen (c # cs) =
     (if is_lower c \<or> is_upper c then getScheme_at raw (seen @ [c]) cs
      else if is_digit c \<or> c \<in> set ''+-.'' then
        (if seen = [] then Some ([], raw) else getScheme_at raw (seen @ [c]) cs)
      else if c = CHR '':'' then
        (if seen = [] then None else Some (seen, cs))
      else Some ([], raw))"

definition getScheme :: "string \<Rightarrow> (string \<times> string) option" where
  "getScheme raw = getScheme_at raw [] raw"

definition validOptionalPort :: "string \<Rightarrow> bool" where
  "validOptionalPort p = (p = [] \<or> (hd p = CHR '':'' \<and> list_all is_digit (tl p)))"

definition validUserinfo :: "string \<Rightarrow> bool" where
  "validUserinfo s =
     list_all (\<lambda>c. is_alnum c \<or> c \<in> set ''-._:~!$&()*+,;=%@'' \<or> ord c = 39) s"

text \<open>Index of the first occurrence of the text \<open>%25\<close>, which starts a zone.\<close>

fun cut_zone :: "string \<Rightarrow> string \<times> string" where
  "cut_zone [] = ([], [])"
| "cut_zone (c # cs) =
     (if strings_HasPrefix (c # cs) ''%25'' then ([], c # cs)
      else (case cut_zone cs of (a, z) \<Rightarrow> (c # a, z)))"

definition last_index :: "char \<Rightarrow> string \<Rightarrow> nat option" where
  "last_index c s =
     (if c \<in> set s then Some (length s - 1 - length (takeWhile (\<lambda>x. x \<noteq> c) (rev s))) else None)"

definition parse_ip_literal :: "string \<Rightarrow> string option" where
  "parse_ip_literal host =
     (case last_index (CHR '']'') host of
        None \<Rightarrow> None
      | Some j \<Rightarrow>
          (let colonPort = drop (Suc j) host;
               hostname = take (j - 1) (drop 1 host);
               (h, z) = cut_zone hostname
           in if \<not> validOptionalPort colonPort then None
              else Option.bind (url_unescape colonPort EncodeHost) (\<lambda>cp.
                   Option.bind (url_unescape h EncodeHost) (\<lambda>hp.
                   Option.bind (url_unescape z EncodeZone) (\<lambda>zp.
                   case netip_ParseAddr (hp @ zp) of
                     None \<Rightarrow> None
                   | Some (bs, _) \<Rightarrow>
                       if length bs = 4 then None
                       else Some (''['' @ hp @ zp @ '']'' @ cp))))))"

definition parseHost :: "string \<Rightarrow> string option" where
  "parseHost host =
     (if CHR ''['' \<in> set host then
        (if hd host = CHR ''['' \<and> CHR ''['' \<notin> set (tl host) then parse_ip_literal host else None)
      else
        (let colonPort = dropWhile (\<lambda>c. c \<noteq> CHR '':'') host
         in if validOptionalPort colonPort then url_unescape host EncodeHost else None))"

definition parseUser :: "string \<Rightarrow> userinfo option" where
  "parseUser ui =
     (if \<not> validUserinfo ui then None
      else case strings_Cut ui (CHR '':'') of (n, p, has) \<Rightarrow>
        (if has then
           Option.bind (url_unescape n EncodeUserPassword) (\<lambda>n'.
             map_option (\<lambda>p'. \<lparr>username = n', password = Some p'\<rparr>)
               (url_unescape p EncodeUserPassword))
         else map_option (\<lambda>n'. \<lparr>username = n', password = None\<rparr>)
                (url_unescape ui EncodeUserPassword)))"

definition parseAuthority :: "string \<Rightarrow> (userinfo option \<times> string) option" where
  "parseAuthority auth =
     (case last_index (CHR ''@'') auth of
        None \<Rightarrow> map_option (\<lambda>h. (None, h)) (parseHost auth)
      | Some i \<Rightarrow>
          Option.bind (parseHost (drop (Suc i) auth)) (\<lambda>h.
            map_option (\<lambda>u. (Some u, h)) (parseUser (take i auth))))"

text \<open>\<open>setPath\<close> keeps the raw form only when it is not the canonical escape of the decoded path.\<close>

definition setPath :: "string \<Rightarrow> url \<Rightarrow> url option" where
  "setPath p u =
     map_option
       (\<lambda>path. u\<lparr>Path := path, RawPath := (if p = url_escape path EncodePath then [] else p)\<rparr>)
       (url_unescape p EncodePath)"

definition setFragment :: "string \<Rightarrow> url \<Rightarrow> url option" where
  "setFragment f u =
     map_option
       (\<lambda>frag. u\<lparr>Fragment := frag, RawFragment := (if f = url_escape frag EncodeFragment then [] else f)\<rparr>)
       (url_unescape f EncodeFragment)"

definition has_ctl :: "string \<Rightarrow> bool" where
  "has_ctl s = list_ex (\<lambda>c. ord c < 32 \<or> ord c = 127) s"

text \<open>Query part: a single trailing question mark is \<open>ForceQuery\<close>, otherwise everything after the first one.\<close>

definition split_query :: "string \<Rightarrow> string \<times> bool \<times> string" where
  "split_query r =
     (if r \<noteq> [] \<and> last r = CHR ''?'' \<and> CHR ''?'' \<notin> set (butlast r) then (butlast r, True, [])
      else case strings_Cut r (CHR ''?'') of (a, q, _) \<Rightarrow> (a, False, q))"

definition parse_hier :: "url \<Rightarrow> string \<Rightarrow> url option" where
  "parse_hier u rest =
     (if \<not> strings_HasPrefix rest ''/'' \<and> Scheme u \<noteq> [] then Some (u\<lparr>Opaque := rest\<rparr>)
      else if \<not> strings_HasPrefix rest ''/'' \<and> CHR '':'' \<in> set (takeWhile (\<lambda>c. c \<noteq> CHR ''/'') rest)
      then None
      else if (Scheme u \<noteq> [] \<or> \<not> strings_HasPrefix rest ''///'') \<and> strings_HasPrefix rest ''//'' then
        (let a = drop 2 rest;
             auth = takeWhile (\<lambda>c. c \<noteq> CHR ''/'') a;
             path = dropWhile (\<lambda>c. c \<noteq> CHR ''/'') a
         in case parseAuthority auth of
              None \<Rightarrow> None
            | Some (usr, h) \<Rightarrow> setPath path (u\<lparr>User := usr, Host := h\<rparr>))
      else if Scheme u \<noteq> [] \<and> strings_HasPrefix rest ''/'' then
        setPath rest (u\<lparr>OmitHost := True\<rparr>)
      else setPath rest u)"

definition parse_nofrag :: "string \<Rightarrow> url option" where
  "parse_nofrag raw =
     (if has_ctl raw then None
      else if raw = ''*'' then Some (empty_url\<lparr>Path := ''*''\<rparr>)
      else case getScheme raw of
             None \<Rightarrow> None
           | Some (sch, rest) \<Rightarrow>
               (case split_query rest of (r, fq, q) \<Rightarrow>
                  parse_hier (empty_url\<lparr>Scheme := map lower_char sch, ForceQuery := fq, RawQuery := q\<rparr>) r))"

definition url_Parse :: "string \<Rightarrow> url option" where
  "url_Parse raw =
     (case strings_Cut raw (CHR ''#'') of (u, frag, _) \<Rightarrow>
        case parse_nofrag u of
          None \<Rightarrow> None
        | Some p \<Rightarrow> if frag = [] then Some p else setFragment frag p)"

section \<open>Rendering\<close>

definition validEncoded :: "string \<Rightarrow> url_encoding \<Rightarrow> bool" where
  "validEncoded s mode =
     list_all (\<lambda>c. c \<in> set ''!$&()*+,;=:@[]%'' \<or> ord c = 39 \<or> \<not> shouldEscape c mode) s"

definition EscapedPath :: "url \<Rightarrow> string" where
  "EscapedPath u =
     (if RawPath u \<noteq> [] \<and> validEncoded (RawPath u) EncodePath
         \<and> url_unescape (RawPath u) EncodePath = Some (Path u)
      then RawPath u
      else if Path u = ''*'' then ''*''
      else url_escape (Path u) EncodePath)"

definition EscapedFragment :: "url \<Rightarrow> string" where
  "EscapedFragment u =
     (if RawFragment u \<noteq> [] \<and> validEncoded (RawFragment u) EncodeFragment
         \<and> url_unescape (RawFragment u) EncodeFragment = Some (Fragment u)
      then RawFragment u
      else url_escape (Fragment u) EncodeFragment)"

definition userinfo_String :: "userinfo \<Rightarrow> string" where
  "userinfo_String ui =
     url_escape (username ui) EncodeUserPassword
     @ (case password ui of None \<Rightarrow> [] | Some p \<Rightarrow> '':'' @ url_escape p EncodeUserPassword)"

definition url_authority :: "url \<Rightarrow> string" where
  "url_authority u =
     (if (Scheme u \<noteq> [] \<or> Host u \<noteq> [] \<or> User u \<noteq> None)
         \<and> \<not> (OmitHost u \<and> Host u = [] \<and> User u = None)
      then (if Host u \<noteq> [] \<or> Path u \<noteq> [] \<or> User u \<noteq> None then ''//'' else [])
           @ (case User u of None \<Rightarrow> [] | Some ui \<Rightarrow> userinfo_String ui @ ''@'')
           @ url_escape (Host u) EncodeHost
      else [])"

definition url_String :: "url \<Rightarrow> string" where
  "url_String u =
     (let scheme = (if Scheme u \<noteq> [] then Scheme u @ '':'' else []);
          path = EscapedPath u;
          slash = (if path \<noteq> [] \<and> hd path \<noteq> CHR ''/'' \<and> Host u \<noteq> [] then ''/'' else []);
          front = scheme @ url_authority u @ slash;
          dot = (if front = [] \<and> CHR '':'' \<in> set (takeWhile (\<lambda>c. c \<noteq> CHR ''/'') path) then ''./'' else [])
      in (if Opaque u \<noteq> [] then scheme @ Opaque u else front @ dot @ path)
         @ (if ForceQuery u \<or> RawQuery u \<noteq> [] then ''?'' @ RawQuery u else [])
         @ (if Fragment u \<noteq> [] then ''#'' @ EscapedFragment u else []))"

definition url_Hostname :: "url \<Rightarrow> string" where
  "url_Hostname u =
     (let h = Host u;
          h1 = (case last_index (CHR '':'') h of
                  None \<Rightarrow> h
                | Some i \<Rightarrow> if validOptionalPort (drop i h) then take i h else h)
      in if strings_HasPrefix h1 ''['' \<and> strings_HasSuffix h1 '']'' then butlast (tl h1) else h1)"

section \<open>Queries\<close>

text \<open>\<open>Values.Encode\<close>: keys in increasing order, one \<open>key=value\<close> per value, joined by ampersands.\<close>

definition encode_pair :: "string \<times> string \<Rightarrow> string" where
  "encode_pair kv = url_QueryEscape (fst kv) @ ''='' @ url_QueryEscape (snd kv)"

definition Values_Encode :: "(string \<times> string) list \<Rightarrow> string" where
  "Values_Encode kvs = strings_Join (map encode_pair (sort_key fst kvs)) ''&''"

text \<open>
  \<open>ParseQuery\<close>: empty parts are skipped, a part with a semicolon or a bad escape is dropped (\<open>Query()\<close>
  ignores the error), the others are decoded in order. \<open>Get\<close> reads the first value of a key.
\<close>

definition parse_query_part :: "string \<Rightarrow> (string \<times> string) option" where
  "parse_query_part part =
     (if part = [] \<or> CHR '';'' \<in> set part then None
      else case strings_Cut part (CHR ''='') of (k, v, _) \<Rightarrow>
        Option.bind (url_QueryUnescape k) (\<lambda>k'. map_option (\<lambda>v'. (k', v')) (url_QueryUnescape v)))"

definition url_ParseQuery :: "string \<Rightarrow> (string \<times> string) list" where
  "url_ParseQuery q = List.map_filter parse_query_part (strings_Split q (CHR ''&''))"

definition query_Get :: "(string \<times> string) list \<Rightarrow> string \<Rightarrow> string" where
  "query_Get = map_str"

section \<open>Facts\<close>

subsection \<open>Query escaping is a codec\<close>

lemma escape_allowed_query [simp]: "escape_allowed EncodeQueryComponent x y"
  by (simp add: escape_allowed_def)

lemma shouldEscape_alnum: "is_alnum c \<Longrightarrow> \<not> shouldEscape c mode"
  by (simp add: shouldEscape_def)

text \<open>The bytes a query component keeps as they are.\<close>

lemma not_shouldEscape_query:
  "\<not> shouldEscape c EncodeQueryComponent \<longleftrightarrow> is_alnum c \<or> c \<in> set ''-_.~''"
  by (auto simp: shouldEscape_def url_reserved_def)

lemma query_plain:
  assumes "\<not> shouldEscape c EncodeQueryComponent"
  shows "c \<noteq> CHR ''%''" "c \<noteq> CHR ''+''" "c \<noteq> CHR ''&''" "c \<noteq> CHR ''=''" "c \<noteq> CHR '';''"
    "c \<noteq> CHR ''#''" "c \<noteq> CHR '' ''" "c \<noteq> CHR ''?''"
  using assms by (auto simp: shouldEscape_def url_reserved_def is_alnum_def is_lower_def is_upper_def is_digit_def)

lemma url_unescape_escape_char:
  "url_unescape (escape_char EncodeQueryComponent c @ s) EncodeQueryComponent
   = map_option ((#) c) (url_unescape s EncodeQueryComponent)"
proof (cases "shouldEscape c EncodeQueryComponent")
  case True
  have b: "ord c div 16 < 16" "ord c mod 16 < 16" by (rule nibble_bounds)+
  have j: "chr (16 * (ord c div 16) + ord c mod 16) = c"
    by (simp only: mult_div_mod_eq char_of_char)
  show ?thesis
    using True j
    by (simp add: escape_char_def unhex_upper_hex_char [OF b(1)] unhex_upper_hex_char [OF b(2)])
next
  case False
  then show ?thesis using query_plain [OF False] by (simp add: escape_char_def)
qed

lemma url_QueryUnescape_QueryEscape: "url_QueryUnescape (url_QueryEscape s) = Some s"
proof (induction s)
  case Nil
  then show ?case by (simp add: url_QueryEscape_def url_QueryUnescape_def url_escape_def)
next
  case (Cons c s)
  then show ?case
    by (simp add: url_QueryEscape_def url_QueryUnescape_def url_escape_def url_unescape_escape_char)
qed

interpretation query: codec url_QueryEscape url_QueryUnescape
  by unfold_locales (rule url_QueryUnescape_QueryEscape)

lemma upper_hex_char_alnum: "n < 16 \<Longrightarrow> is_alnum (upper_hex_char n)"
  by (auto simp: is_alnum_def upper_hex_char_def is_lower_def is_upper_def is_digit_def)

text \<open>No separator of a query, and no fragment mark, occurs in an escaped component.\<close>

lemma QueryEscape_no_separator:
  assumes "c \<in> {CHR ''&'', CHR ''='', CHR '';'', CHR ''#'', CHR ''?'', CHR '' ''}"
  shows "c \<notin> set (url_QueryEscape s)"
proof -
  have na: "\<not> is_alnum c"
    using assms by (auto simp: is_alnum_def is_lower_def is_upper_def is_digit_def)
  have hex: "upper_hex_char (ord d div 16) \<noteq> c" "upper_hex_char (ord d mod 16) \<noteq> c" for d
    using upper_hex_char_alnum [OF nibble_bounds(1)] upper_hex_char_alnum [OF nibble_bounds(2)] na
    by blast+
  have "c \<notin> set (escape_char EncodeQueryComponent d)" for d
    using assms hex [of d] query_plain [of d] by (auto simp: escape_char_def)
  then show ?thesis by (auto simp: url_QueryEscape_def url_escape_def)
qed

subsection \<open>Encoded values parse back\<close>

lemma parse_query_part_encode_pair: "parse_query_part (encode_pair kv) = Some kv"
proof -
  obtain k v where kv: "kv = (k, v)" by (cases kv)
  have eq: "CHR ''='' \<notin> set (url_QueryEscape k)" by (rule QueryEscape_no_separator) simp
  have semi: "CHR '';'' \<notin> set (encode_pair kv)"
    using QueryEscape_no_separator [of "CHR '';''"] by (simp add: encode_pair_def kv)
  have "encode_pair kv = url_QueryEscape k @ CHR ''='' # url_QueryEscape v"
    by (simp add: encode_pair_def kv)
  then show ?thesis
    using semi strings_Cut_append [OF eq, of "url_QueryEscape v"]
    by (simp add: parse_query_part_def kv url_QueryUnescape_QueryEscape)
qed

lemma encode_pair_no_amp: "CHR ''&'' \<notin> set (encode_pair kv)"
  using QueryEscape_no_separator [of "CHR ''&''"] by (simp add: encode_pair_def)

lemma strings_Split_Join:
  assumes "ps \<noteq> []" and "\<forall>p \<in> set ps. c \<notin> set p"
  shows "strings_Split (strings_Join ps [c]) c = ps"
  using assms
proof (induction ps)
  case Nil
  then show ?case by simp
next
  case (Cons p ps)
  then show ?case
    by (cases ps) (simp_all add: strings_Split_plain strings_Split_append)
qed

lemma ParseQuery_Values_Encode: "url_ParseQuery (Values_Encode kvs) = sort_key fst kvs"
proof (cases "kvs = []")
  case True
  then show ?thesis by (simp add: url_ParseQuery_def Values_Encode_def parse_query_part_def List.map_filter_def)
next
  case False
  let ?ps = "map encode_pair (sort_key fst kvs)"
  have ne: "?ps \<noteq> []" using False by (metis length_0_conv length_map length_sort)
  have amp: "\<forall>p \<in> set ?ps. CHR ''&'' \<notin> set p" using encode_pair_no_amp by auto
  have "strings_Split (strings_Join ?ps ''&'') (CHR ''&'') = ?ps"
    using strings_Split_Join [OF ne amp] .
  then show ?thesis
    by (simp add: url_ParseQuery_def Values_Encode_def List.map_filter_def parse_query_part_encode_pair
        comp_def)
qed

lemma strings_Join_set: "c \<in> set (strings_Join ps sep) \<Longrightarrow> c \<in> set sep \<or> (\<exists>p \<in> set ps. c \<in> set p)"
  by (induction ps sep rule: strings_Join.induct) auto

lemma Values_Encode_no_hash: "CHR ''#'' \<notin> set (Values_Encode kvs)"
  using QueryEscape_no_separator [of "CHR ''#''"]
  by (auto simp: Values_Encode_def encode_pair_def dest!: strings_Join_set)

subsection \<open>What a query cannot change\<close>

text \<open>The scheme is cut off before the first question mark, whatever follows it.\<close>

lemma getScheme_at_query:
  "getScheme_at raw seen (u @ CHR ''?'' # q)
   = (case getScheme_at raw0 seen u of
        None \<Rightarrow> None
      | Some (s, r) \<Rightarrow> if s = [] then Some ([], raw) else Some (s, r @ CHR ''?'' # q))"
proof (induction u arbitrary: seen)
  case Nil
  then show ?case by (simp add: is_lower_def is_upper_def is_digit_def)
next
  case (Cons c u)
  then show ?case by auto
qed

lemma getScheme_at_empty: "getScheme_at raw seen s = Some ([], r) \<Longrightarrow> r = raw"
  by (induction s arbitrary: seen) (auto split: if_splits)

lemma getScheme_query:
  "getScheme (u @ CHR ''?'' # q)
   = map_option (\<lambda>(s, r). (s, r @ CHR ''?'' # q)) (getScheme u)"
proof -
  have "getScheme (u @ CHR ''?'' # q)
      = (case getScheme u of None \<Rightarrow> None
         | Some (s, r) \<Rightarrow> if s = [] then Some ([], u @ CHR ''?'' # q) else Some (s, r @ CHR ''?'' # q))"
    unfolding getScheme_def by (rule getScheme_at_query)
  then show ?thesis
    using getScheme_at_empty [of u "[]" u]
    by (auto simp: getScheme_def split: option.splits if_splits)
qed

lemma getScheme_at_rest:
  assumes "getScheme_at raw seen s = Some (sch, r)" and "x \<in> set r" "set s \<subseteq> set raw"
  shows "x \<in> set raw"
  using assms by (induction s arbitrary: seen) (auto split: if_splits)

lemma split_query_at:
  assumes "CHR ''?'' \<notin> set r"
  shows "fst (split_query (r @ CHR ''?'' # q)) = r"
proof (cases "q = []")
  case True
  then show ?thesis using assms by (simp add: split_query_def)
next
  case False
  then have "butlast (r @ CHR ''?'' # q) = r @ CHR ''?'' # butlast q" by (simp add: butlast_append)
  then have "CHR ''?'' \<in> set (butlast (r @ CHR ''?'' # q))" by simp
  then show ?thesis using strings_Cut_append [OF assms, of q] by (simp add: split_query_def)
qed

text \<open>The location of a URL: everything the parser reads before the query and the fragment.\<close>

definition url_location :: "url \<Rightarrow> string \<times> string \<times> userinfo option \<times> string \<times> string \<times> string" where
  "url_location u = (Scheme u, Opaque u, User u, Host u, Path u, RawPath u)"

lemma setPath_location:
  "map_option url_location (setPath p u)
   = map_option (\<lambda>path. (Scheme u, Opaque u, User u, Host u, path,
       if p = url_escape path EncodePath then [] else p)) (url_unescape p EncodePath)"
  by (simp add: setPath_def url_location_def option.map_comp comp_def)

lemma parse_hier_location:
  assumes "Scheme u = Scheme u'" "Opaque u = Opaque u'" "User u = User u'" "Host u = Host u'"
    "Path u = Path u'" "RawPath u = RawPath u'"
  shows "map_option url_location (parse_hier u r) = map_option url_location (parse_hier u' r)"
proof -
  have o: "map_option url_location (Some (u\<lparr>Opaque := r\<rparr>)) = map_option url_location (Some (u'\<lparr>Opaque := r\<rparr>))"
    using assms by (simp add: url_location_def)
  show ?thesis
    using assms(1-4) o
    by (simp add: parse_hier_def Let_def setPath_location split: option.split prod.split)
qed

lemma parse_nofrag_query:
  assumes "CHR ''?'' \<notin> set u" and "\<not> has_ctl q" and "\<not> has_ctl q'"
  shows "map_option url_location (parse_nofrag (u @ CHR ''?'' # q))
       = map_option url_location (parse_nofrag (u @ CHR ''?'' # q'))"
proof (cases "has_ctl u \<or> getScheme u = None")
  case True
  have star: "u @ CHR ''?'' # k \<noteq> ''*''" for k by (cases u) auto
  then show ?thesis
    using assms True by (auto simp: parse_nofrag_def has_ctl_def getScheme_query)
next
  case False
  then obtain s r where g: "getScheme u = Some (s, r)" by auto
  have "CHR ''?'' \<notin> set r"
    using g assms(1) getScheme_at_rest [of u "[]" u s r] by (auto simp: getScheme_def)
  then have f: "fst (split_query (r @ CHR ''?'' # k)) = r" for k by (rule split_query_at)
  have c: "\<not> has_ctl (u @ CHR ''?'' # k)" if "\<not> has_ctl k" for k
    using False that by (auto simp: has_ctl_def)
  have star: "u @ CHR ''?'' # k \<noteq> ''*''" for k by (cases u) auto
  have "map_option url_location (parse_nofrag (u @ CHR ''?'' # k))
      = map_option url_location (parse_hier (empty_url\<lparr>Scheme := map lower_char s\<rparr>) r)"
    if "\<not> has_ctl k" for k
    using c [OF that] star [of k] g f [of k]
    by (auto simp: parse_nofrag_def getScheme_query empty_url_def split: prod.splits
        intro!: parse_hier_location)
  then show ?thesis using assms by metis
qed

text \<open>Two texts that differ after the question mark only parse to the same location.\<close>

lemma url_Parse_query_location:
  assumes "CHR ''?'' \<notin> set u" "CHR ''#'' \<notin> set u"
    and "\<not> has_ctl q" "CHR ''#'' \<notin> set q" and "\<not> has_ctl q'" "CHR ''#'' \<notin> set q'"
  shows "map_option url_location (url_Parse (u @ CHR ''?'' # q))
       = map_option url_location (url_Parse (u @ CHR ''?'' # q'))"
proof -
  have nf: "url_Parse (u @ CHR ''?'' # k) = parse_nofrag (u @ CHR ''?'' # k)" if "CHR ''#'' \<notin> set k" for k
  proof -
    have "CHR ''#'' \<notin> set (u @ CHR ''?'' # k)" using assms(2) that by simp
    then have "strings_Cut (u @ CHR ''?'' # k) (CHR ''#'') = (u @ CHR ''?'' # k, [], False)"
      by (rule strings_Cut_none)
    then show ?thesis by (simp add: url_Parse_def split: option.splits)
  qed
  show ?thesis
    by (simp only: nf [OF assms(4)] nf [OF assms(6)] parse_nofrag_query [OF assms(1,3,5)])
qed

subsection \<open>Schemes\<close>

definition scheme_char :: "char \<Rightarrow> bool" where
  "scheme_char c = (is_lower c \<or> is_upper c \<or> is_digit c \<or> c \<in> set ''+-.'')"

definition valid_scheme :: "string \<Rightarrow> bool" where
  "valid_scheme s = (s \<noteq> [] \<and> (is_lower (hd s) \<or> is_upper (hd s)) \<and> list_all scheme_char s)"

lemma getScheme_at_valid:
  assumes "getScheme_at raw seen s = Some (sch, r)" "seen = [] \<or> valid_scheme seen"
  shows "sch = [] \<or> valid_scheme sch"
  using assms
proof (induction s arbitrary: seen)
  case Nil
  then show ?case by simp
next
  case (Cons c s)
  have "valid_scheme (seen @ [c])" if "is_lower c \<or> is_upper c \<or> (seen \<noteq> [] \<and> scheme_char c)"
    using that Cons.prems(2) by (cases seen) (auto simp: valid_scheme_def scheme_char_def)
  with Cons show ?case by (auto simp: scheme_char_def split: if_splits)
qed

lemma getScheme_at_scheme:
  assumes "list_all scheme_char s" "seen \<noteq> [] \<or> (s \<noteq> [] \<and> (is_lower (hd s) \<or> is_upper (hd s)))"
  shows "getScheme_at raw seen (s @ CHR '':'' # r) = Some (seen @ s, r)"
  using assms
proof (induction s arbitrary: seen)
  case Nil
  then show ?case by (auto simp: is_lower_def is_upper_def is_digit_def)
next
  case (Cons c s)
  then show ?case by (auto simp: scheme_char_def)
qed

lemma getScheme_scheme: "valid_scheme s \<Longrightarrow> getScheme (s @ CHR '':'' # r) = Some (s, r)"
  by (simp add: getScheme_def valid_scheme_def getScheme_at_scheme)

lemma lower_char_scheme: "scheme_char c \<Longrightarrow> scheme_char (lower_char c)"
  "is_lower c \<or> is_upper c \<Longrightarrow> is_lower (lower_char c) \<or> is_upper (lower_char c)"
proof -
  have "is_lower (lower_char c)" if "is_upper c"
    using that by (simp add: lower_char_def is_upper_def is_lower_def)
  moreover have "lower_char c = c" if "\<not> is_upper c" using that by (simp add: lower_char_def)
  ultimately show "scheme_char c \<Longrightarrow> scheme_char (lower_char c)"
    "is_lower c \<or> is_upper c \<Longrightarrow> is_lower (lower_char c) \<or> is_upper (lower_char c)"
    by (cases "is_upper c"; simp add: scheme_char_def)+
qed

lemma setPath_Scheme: "setPath p u = Some v \<Longrightarrow> Scheme v = Scheme u"
  by (auto simp: setPath_def)

lemma setFragment_Scheme: "setFragment f u = Some v \<Longrightarrow> Scheme v = Scheme u"
  by (auto simp: setFragment_def)

lemma parse_hier_Scheme: "parse_hier u rest = Some v \<Longrightarrow> Scheme v = Scheme u"
  by (auto simp: parse_hier_def Let_def dest!: setPath_Scheme split: if_splits option.splits prod.splits)

lemma parse_nofrag_Scheme:
  assumes "parse_nofrag raw = Some v" "raw \<noteq> ''*''"
  obtains sch r where "getScheme raw = Some (sch, r)" "Scheme v = map lower_char sch"
  using assms
  by (auto simp: parse_nofrag_def dest!: parse_hier_Scheme split: if_splits option.splits prod.splits)

lemma valid_scheme_lower: "valid_scheme s \<Longrightarrow> valid_scheme (map lower_char s)"
  using lower_char_scheme by (cases s) (auto simp: valid_scheme_def list_all_iff)

lemma url_Parse_valid_scheme:
  assumes "url_Parse raw = Some u"
  shows "Scheme u = [] \<or> valid_scheme (Scheme u)"
proof -
  obtain t f has where c: "strings_Cut raw (CHR ''#'') = (t, f, has)" by (metis prod_cases3)
  obtain p where p: "parse_nofrag t = Some p" "Scheme u = Scheme p"
    using assms c by (auto simp: url_Parse_def dest: setFragment_Scheme split: option.splits if_splits)
  show ?thesis
  proof (cases "t = ''*''")
    case True
    with p show ?thesis by (auto simp: parse_nofrag_def has_ctl_def empty_url_def split: if_splits)
  next
    case False
    obtain sch r where "getScheme t = Some (sch, r)" "Scheme p = map lower_char sch"
      using p(1) False by (rule parse_nofrag_Scheme)
    with p getScheme_at_valid [of t "[]" t sch r] valid_scheme_lower show ?thesis
      by (auto simp: getScheme_def)
  qed
qed

text \<open>A text that starts with a scheme and a colon, if it parses, has that scheme.\<close>

lemma url_Parse_scheme:
  assumes "valid_scheme s" "url_Parse (s @ CHR '':'' # r) = Some u"
  shows "Scheme u = map lower_char s"
proof -
  have "\<not> scheme_char (CHR ''#'')" by code_simp
  then have h: "CHR ''#'' \<notin> set s" using assms(1) by (auto simp: valid_scheme_def list_all_iff)
  obtain t f has where c: "strings_Cut (s @ CHR '':'' # r) (CHR ''#'') = (t, f, has)" by (metis prod_cases3)
  have t: "t = s @ CHR '':'' # takeWhile (\<lambda>x. x \<noteq> CHR ''#'') r"
    using c h by (auto simp: strings_Cut_def takeWhile_append)
  have "t \<noteq> ''*''" using t by (cases s) auto
  obtain p where p: "parse_nofrag t = Some p" "Scheme u = Scheme p"
    using assms(2) c by (auto simp: url_Parse_def dest: setFragment_Scheme split: option.splits if_splits)
  obtain sch x where "getScheme t = Some (sch, x)" "Scheme p = map lower_char sch"
    using p(1) \<open>t \<noteq> ''*''\<close> by (rule parse_nofrag_Scheme)
  with p(2) getScheme_scheme [OF assms(1)] show ?thesis by (simp add: t)
qed

lemma url_String_scheme:
  assumes "Scheme u \<noteq> []"
  shows "\<exists>r. url_String u = Scheme u @ CHR '':'' # r"
  using assms by (cases "Opaque u = []") (simp_all add: url_String_def Let_def)

text \<open>Adding a query to a hierarchical URL that has none appends it.\<close>

lemma url_String_query:
  assumes "RawQuery u = []" "Fragment u = []" "\<not> ForceQuery u" "q \<noteq> []"
  shows "url_String (u\<lparr>RawQuery := q\<rparr>) = url_String u @ ''?'' @ q"
  using assms by (simp add: url_String_def url_authority_def EscapedPath_def Let_def)

end
