(* ===== verification/Go_JSON.thy ===== *)
theory Go_JSON
  imports Go_Base
begin

text \<open>
  The package encoding/json as the gateway uses it. \<open>any\<close> is the Go value behind an \<open>any\<close>: the
  steps and the evidence the SDK hands over are such values, and so are the response bodies. The
  encoder is \<open>json.Marshal\<close> (with HTML escaping) and \<open>Encoder.Encode\<close> (without); the decoder is
  \<open>Decoder.Decode\<close> on a body that may end early, into the request structs of the HTTP layer.

  A float carries the decimal text the encoder prints for it (None for a NaN or an infinity, which
  it refuses): the formatting of floating-point numbers is not modelled.
\<close>

section \<open>Go values\<close>

datatype any =
    ANil
  | ABool bool
  | AInt int
  | AFloat "string option"
  | AStr string
  | ABytes gobytes
  | AList "any list"
  | AMap "(string \<times> any) list"
  | AStruct "(string \<times> any) list"
  | AOpaque

text \<open>
  \<open>AMap\<close> is a map with string keys, \<open>AStruct\<close> a struct with its fields in declaration order, and
  \<open>AOpaque\<close> a value the encoder has no form for (a channel, a function).
\<close>

section \<open>UTF-8\<close>

definition cont_byte :: "char \<Rightarrow> bool" where
  "cont_byte c = (128 \<le> ord c \<and> ord c < 192)"

text \<open>\<open>utf8.DecodeRune\<close> on a text that starts with a byte above 127: the rune and its length, None if invalid.\<close>

definition utf8_decode :: "string \<Rightarrow> (nat \<times> nat) option" where
  "utf8_decode s =
     (case s of
        b0 # b1 # r \<Rightarrow>
          (if 194 \<le> ord b0 \<and> ord b0 \<le> 223 then
             (if cont_byte b1 then Some ((ord b0 - 192) * 64 + (ord b1 - 128), 2) else None)
           else if 224 \<le> ord b0 \<and> ord b0 \<le> 239 then
             (case r of
                b2 # _ \<Rightarrow>
                  (if cont_byte b1 \<and> cont_byte b2
                      \<and> (ord b0 = 224 \<longrightarrow> 160 \<le> ord b1) \<and> (ord b0 = 237 \<longrightarrow> ord b1 < 160)
                   then Some ((ord b0 - 224) * 4096 + (ord b1 - 128) * 64 + (ord b2 - 128), 3)
                   else None)
              | [] \<Rightarrow> None)
           else if 240 \<le> ord b0 \<and> ord b0 \<le> 244 then
             (case r of
                b2 # b3 # _ \<Rightarrow>
                  (if cont_byte b1 \<and> cont_byte b2 \<and> cont_byte b3
                      \<and> (ord b0 = 240 \<longrightarrow> 144 \<le> ord b1) \<and> (ord b0 = 244 \<longrightarrow> ord b1 < 144)
                   then Some ((ord b0 - 240) * 262144 + (ord b1 - 128) * 4096
                              + (ord b2 - 128) * 64 + (ord b3 - 128), 4)
                   else None)
              | _ \<Rightarrow> None)
           else None)
      | _ \<Rightarrow> None)"

definition utf8_encode :: "nat \<Rightarrow> string" where
  "utf8_encode r =
     (if r < 128 then [chr r]
      else if r < 2048 then [chr (192 + r div 64), chr (128 + r mod 64)]
      else if r < 65536 then
        [chr (224 + r div 4096), chr (128 + (r div 64) mod 64), chr (128 + r mod 64)]
      else [chr (240 + r div 262144), chr (128 + (r div 4096) mod 64),
            chr (128 + (r div 64) mod 64), chr (128 + r mod 64)])"

text \<open>U+FFFD, which replaces what is not valid.\<close>

definition rune_error_bytes :: string where
  "rune_error_bytes = [chr 239, chr 191, chr 189]"

section \<open>Encoding\<close>

abbreviation quote :: char where "quote \<equiv> CHR 0x22"
abbreviation backslash :: char where "backslash \<equiv> CHR 0x5C"

definition json_hex4 :: "nat \<Rightarrow> string" where
  "json_hex4 n =
     [backslash, CHR ''u'', hex_char (n div 4096 mod 16), hex_char (n div 256 mod 16),
      hex_char (n div 16 mod 16), hex_char (n mod 16)]"

definition json_ascii :: "bool \<Rightarrow> char \<Rightarrow> string" where
  "json_ascii escapeHTML c =
     (if c = quote \<or> c = backslash then [backslash, c]
      else if ord c = 8 then [backslash, CHR ''b'']
      else if ord c = 12 then [backslash, CHR ''f'']
      else if ord c = 10 then [backslash, CHR ''n'']
      else if ord c = 13 then [backslash, CHR ''r'']
      else if ord c = 9 then [backslash, CHR ''t'']
      else if ord c < 32 \<or> (escapeHTML \<and> c \<in> set ''<>&'') then json_hex4 (ord c)
      else [c])"

function json_string_body :: "bool \<Rightarrow> string \<Rightarrow> string" where
  "json_string_body esc [] = []"
| "json_string_body esc (c # cs) =
     (if ord c < 128 then json_ascii esc c @ json_string_body esc cs
      else case utf8_decode (c # cs) of
             None \<Rightarrow> json_hex4 65533 @ json_string_body esc cs
           | Some (r, n) \<Rightarrow>
               (if r = 8232 \<or> r = 8233 then json_hex4 r else take n (c # cs))
               @ json_string_body esc (drop (n - 1) cs))"
  by pat_completeness auto
termination
  by (relation "measure (length \<circ> snd)") auto

definition json_quote :: "bool \<Rightarrow> string \<Rightarrow> string" where
  "json_quote esc s = [quote] @ json_string_body esc s @ [quote]"

text \<open>The encoder; None is the error on a value without a JSON form. Map keys are sorted.\<close>

fun json_encode :: "bool \<Rightarrow> any \<Rightarrow> string option"
  and json_encode_list :: "bool \<Rightarrow> any list \<Rightarrow> string list option"
  and json_encode_fields :: "bool \<Rightarrow> (string \<times> any) list \<Rightarrow> (string \<times> string) list option" where
  "json_encode esc ANil = Some ''null''"
| "json_encode esc (ABool b) = Some (if b then ''true'' else ''false'')"
| "json_encode esc (AInt i) = Some (show_int i)"
| "json_encode esc (AFloat t) = t"
| "json_encode esc (AStr s) = Some (json_quote esc s)"
| "json_encode esc (ABytes b) =
     Some (case b of None \<Rightarrow> ''null'' | Some s \<Rightarrow> [quote] @ base64_EncodeToString s @ [quote])"
| "json_encode esc (AList vs) =
     map_option (\<lambda>ts. ''['' @ strings_Join ts '','' @ '']'') (json_encode_list esc vs)"
| "json_encode esc (AMap kvs) =
     map_option
       (\<lambda>ts. ''{'' @ strings_Join (map (\<lambda>(k, t). json_quote esc k @ '':'' @ t) (sort_key fst ts)) '','' @ ''}'')
       (json_encode_fields esc kvs)"
| "json_encode esc (AStruct kvs) =
     map_option
       (\<lambda>ts. ''{'' @ strings_Join (map (\<lambda>(k, t). json_quote esc k @ '':'' @ t) ts) '','' @ ''}'')
       (json_encode_fields esc kvs)"
| "json_encode esc AOpaque = None"
| "json_encode_list esc [] = Some []"
| "json_encode_list esc (v # vs) =
     Option.bind (json_encode esc v) (\<lambda>t. map_option ((#) t) (json_encode_list esc vs))"
| "json_encode_fields esc [] = Some []"
| "json_encode_fields esc ((k, v) # kvs) =
     Option.bind (json_encode esc v) (\<lambda>t. map_option ((#) (k, t)) (json_encode_fields esc kvs))"

text \<open>\<open>json.Marshal\<close>, with its error.\<close>

definition json_Marshal :: "any \<Rightarrow> go_error + string" where
  "json_Marshal v =
     (case json_encode True v of
        None \<Rightarrow> Inl (ENew ''json: unsupported type'')
      | Some t \<Rightarrow> Inr t)"

text \<open>
  \<open>Encoder.Encode\<close> with HTML escaping off: the text and a line feed. \<open>writeJSON\<close> ignores the error,
  and then nothing is written.
\<close>

definition json_Encode :: "any \<Rightarrow> string" where
  "json_Encode v = (case json_encode False v of None \<Rightarrow> [] | Some t \<Rightarrow> t @ [chr 10])"

section \<open>Scanning\<close>

text \<open>A parsed value: objects keep the order of their members and their duplicates.\<close>

datatype json =
    JNull
  | JBool bool
  | JNum string
  | JStr string
  | JArr "json list"
  | JObj "(string \<times> json) list"

text \<open>
  A scan ends with a value and the rest of the input, with a syntax error at some byte, or because
  the input ran out first. \<open>PFuel\<close> is the model's own bound; it is never reached
  (\<open>json_value_enough\<close>).
\<close>

datatype 'a scan = POk 'a string | PErr | PMore | PFuel

fun scan_map :: "('a \<Rightarrow> 'b) \<Rightarrow> 'a scan \<Rightarrow> 'b scan" where
  "scan_map f (POk a r) = POk (f a) r"
| "scan_map f PErr = PErr"
| "scan_map f PMore = PMore"
| "scan_map f PFuel = PFuel"

fun scan_bind :: "'a scan \<Rightarrow> ('a \<Rightarrow> string \<Rightarrow> 'b scan) \<Rightarrow> 'b scan" where
  "scan_bind (POk a r) f = f a r"
| "scan_bind PErr f = PErr"
| "scan_bind PMore f = PMore"
| "scan_bind PFuel f = PFuel"

definition is_space :: "char \<Rightarrow> bool" where
  "is_space c = (ord c = 32 \<or> ord c = 9 \<or> ord c = 13 \<or> ord c = 10)"

definition skip_ws :: "string \<Rightarrow> string" where
  "skip_ws s = dropWhile is_space s"

definition json_hexd :: "char \<Rightarrow> bool" where
  "json_hexd c = (unhex c \<noteq> None)"

text \<open>The raw content of a string literal, after its opening quote.\<close>

function scan_string :: "string \<Rightarrow> string scan" where
  "scan_string [] = PMore"
| "scan_string (c # cs) =
     (if c = quote then POk [] cs
      else if ord c < 32 then PErr
      else if c = backslash then
        (case cs of
           [] \<Rightarrow> PMore
         | e # r \<Rightarrow>
             (if e \<in> set ''bfnrt/'' \<or> e = backslash \<or> e = quote
              then scan_map (\<lambda>t. c # e # t) (scan_string r)
              else if e = CHR ''u'' then
                (let hs = takeWhile json_hexd (take 4 r)
                 in if length hs = 4 then scan_map (\<lambda>t. c # e # hs @ t) (scan_string (drop 4 r))
                    else if length hs = length r then PMore else PErr)
              else PErr))
      else scan_map ((#) c) (scan_string cs))"
  by pat_completeness auto
termination
  by (relation "measure length") auto

definition hex4_value :: "string \<Rightarrow> nat" where
  "hex4_value s = foldl (\<lambda>a c. 16 * a + (case unhex c of Some n \<Rightarrow> n | None \<Rightarrow> 0)) 0 (take 4 s)"

definition escape_rune :: "char \<Rightarrow> char" where
  "escape_rune e =
     (if e = CHR ''b'' then chr 8 else if e = CHR ''f'' then chr 12
      else if e = CHR ''n'' then chr 10 else if e = CHR ''r'' then chr 13
      else if e = CHR ''t'' then chr 9 else e)"

definition is_surrogate :: "nat \<Rightarrow> bool" where
  "is_surrogate r = (55296 \<le> r \<and> r < 57344)"

text \<open>\<open>unquote\<close>: escapes, surrogate pairs, and U+FFFD for a lone surrogate or an invalid byte.\<close>

function json_unquote :: "string \<Rightarrow> string" where
  "json_unquote [] = []"
| "json_unquote (c # cs) =
     (if c = backslash then
        (case cs of
           [] \<Rightarrow> []
         | e # r \<Rightarrow>
             (if e = CHR ''u'' then
                (let v = hex4_value r; r1 = drop 4 r
                 in if is_surrogate v then
                      (if v < 56320 \<and> take 2 r1 = [backslash, CHR ''u'']
                          \<and> 56320 \<le> hex4_value (drop 2 r1) \<and> hex4_value (drop 2 r1) < 57344
                       then utf8_encode (65536 + (v - 55296) * 1024 + (hex4_value (drop 2 r1) - 56320))
                            @ json_unquote (drop 6 r1)
                       else rune_error_bytes @ json_unquote r1)
                    else utf8_encode v @ json_unquote r1)
              else escape_rune e # json_unquote r))
      else if ord c < 128 then c # json_unquote cs
      else case utf8_decode (c # cs) of
             None \<Rightarrow> rune_error_bytes @ json_unquote cs
           | Some (r, n) \<Rightarrow> take n (c # cs) @ json_unquote (drop (n - 1) cs))"
  by pat_completeness auto
termination
  by (relation "measure length") auto

text \<open>Digits from here on: at least one, then as many as there are.\<close>

definition scan_digits :: "string \<Rightarrow> string scan" where
  "scan_digits s =
     (case s of
        [] \<Rightarrow> PMore
      | c # _ \<Rightarrow> if is_digit c then POk (takeWhile is_digit s) (dropWhile is_digit s) else PErr)"

definition scan_int :: "string \<Rightarrow> string scan" where
  "scan_int s =
     (case s of
        [] \<Rightarrow> PMore
      | c # r \<Rightarrow> if c = CHR ''0'' then POk ''0'' r else scan_digits s)"

definition scan_frac :: "string \<Rightarrow> string scan" where
  "scan_frac s =
     (case s of
        c # r \<Rightarrow> if c = CHR ''.'' then scan_map ((#) c) (scan_digits r) else POk [] s
      | [] \<Rightarrow> POk [] [])"

definition scan_exp :: "string \<Rightarrow> string scan" where
  "scan_exp s =
     (case s of
        c # r \<Rightarrow>
          (if c = CHR ''e'' \<or> c = CHR ''E'' then
             (case r of
                sg # r1 \<Rightarrow>
                  (if sg = CHR ''+'' \<or> sg = CHR ''-''
                   then scan_map (\<lambda>t. c # sg # t) (scan_digits r1)
                   else scan_map ((#) c) (scan_digits r))
              | [] \<Rightarrow> PMore)
           else POk [] s)
      | [] \<Rightarrow> POk [] [])"

definition scan_number :: "string \<Rightarrow> string scan" where
  "scan_number s =
     (let (sign, s1) = (case s of c # r \<Rightarrow> if c = CHR ''-'' then ([c], r) else ([], s) | [] \<Rightarrow> ([], []))
      in scan_bind (scan_int s1) (\<lambda>i r1.
           scan_bind (scan_frac r1) (\<lambda>f r2.
             scan_map (\<lambda>e. sign @ i @ f @ e) (scan_exp r2))))"

definition scan_literal :: "string \<Rightarrow> json \<Rightarrow> string \<Rightarrow> json scan" where
  "scan_literal lit v s =
     (if take (length lit) s = lit then POk v (drop (length lit) s)
      else if s = take (length s) lit then PMore else PErr)"

definition json_scalar :: "string \<Rightarrow> json scan" where
  "json_scalar s =
     (case s of
        [] \<Rightarrow> PMore
      | c # r \<Rightarrow>
          (if c = quote then scan_map (\<lambda>t. JStr (json_unquote t)) (scan_string r)
           else if c = CHR ''t'' then scan_literal ''true'' (JBool True) s
           else if c = CHR ''f'' then scan_literal ''false'' (JBool False) s
           else if c = CHR ''n'' then scan_literal ''null'' JNull s
           else if is_digit c \<or> c = CHR ''-'' then scan_map JNum (scan_number s)
           else PErr))"

definition maxNestingDepth :: nat where "maxNestingDepth = 10000"

text \<open>After an opening bracket: too deep, empty, or the contents.\<close>

definition json_container :: "nat \<Rightarrow> char \<Rightarrow> json \<Rightarrow> (string \<Rightarrow> json scan) \<Rightarrow> string \<Rightarrow> json scan" where
  "json_container d close none contents r =
     (if maxNestingDepth \<le> d then PErr
      else case skip_ws r of
             [] \<Rightarrow> PMore
           | c # r1 \<Rightarrow> if c = close then POk none r1 else contents (skip_ws r))"

text \<open>After an element: the closing bracket, or a comma and more.\<close>

definition json_separator :: "char \<Rightarrow> 'a \<Rightarrow> (string \<Rightarrow> 'a list scan) \<Rightarrow> string \<Rightarrow> 'a list scan" where
  "json_separator close x more r =
     (case skip_ws r of
        [] \<Rightarrow> PMore
      | c # r1 \<Rightarrow>
          (if c = close then POk [x] r1
           else if c = CHR '','' then scan_map ((#) x) (more r1)
           else PErr))"

text \<open>A member's key and colon.\<close>

definition json_key :: "string \<Rightarrow> string scan" where
  "json_key s =
     (case skip_ws s of
        [] \<Rightarrow> PMore
      | q # r \<Rightarrow>
          (if q \<noteq> quote then PErr
           else scan_bind (scan_string r) (\<lambda>k r1.
             case skip_ws r1 of
               [] \<Rightarrow> PMore
             | c # r2 \<Rightarrow> if c = CHR '':'' then POk (json_unquote k) r2 else PErr)))"

fun json_value :: "nat \<Rightarrow> nat \<Rightarrow> string \<Rightarrow> json scan"
  and json_elems :: "nat \<Rightarrow> nat \<Rightarrow> string \<Rightarrow> json list scan"
  and json_members :: "nat \<Rightarrow> nat \<Rightarrow> string \<Rightarrow> (string \<times> json) list scan" where
  "json_value 0 d s = PFuel"
| "json_value (Suc n) d s =
     (case skip_ws s of
        [] \<Rightarrow> PMore
      | c # r \<Rightarrow>
          (if c = CHR ''{'' then
             json_container d (CHR ''}'') (JObj []) (\<lambda>x. scan_map JObj (json_members n (Suc d) x)) r
           else if c = CHR ''['' then
             json_container d (CHR '']'') (JArr []) (\<lambda>x. scan_map JArr (json_elems n (Suc d) x)) r
           else json_scalar (c # r)))"
| "json_elems 0 d s = PFuel"
| "json_elems (Suc n) d s =
     scan_bind (json_value n d s) (\<lambda>v r. json_separator (CHR '']'') v (\<lambda>x. json_elems n d x) r)"
| "json_members 0 d s = PFuel"
| "json_members (Suc n) d s =
     scan_bind (json_key s) (\<lambda>k r1.
       scan_bind (json_value n d r1) (\<lambda>v r2.
         json_separator (CHR ''}'') (k, v) (\<lambda>x. json_members n d x) r2))"

section \<open>Decoding one value from a body\<close>

text \<open>How a body ends: at its end, at the byte bound of \<open>http.MaxBytesReader\<close>, or with a read error.\<close>

datatype stream_end = EndEOF | EndTooLarge | EndReadError

definition stream_error :: "stream_end \<Rightarrow> go_error" where
  "stream_error e =
     (case e of
        EndEOF \<Rightarrow> ENew ''unexpected EOF''
      | EndTooLarge \<Rightarrow> EMaxBytes
      | EndReadError \<Rightarrow> ENew ''read error'')"

fun is_compound :: "json \<Rightarrow> bool" where
  "is_compound (JArr _) = True"
| "is_compound (JObj _) = True"
| "is_compound _ = False"

text \<open>
  A scalar is only known to be complete at the byte after it or at the end of the input, so one
  that stops at the bound or at a read error is that error.
\<close>

definition json_next :: "string \<Rightarrow> stream_end \<Rightarrow> go_error + json \<times> string" where
  "json_next s e =
     (case json_value (2 * length s + 1) 0 s of
        POk v r \<Rightarrow> if \<not> is_compound v \<and> r = [] \<and> e \<noteq> EndEOF then Inl (stream_error e) else Inr (v, r)
      | PErr \<Rightarrow> Inl (ENew ''invalid character'')
      | PMore \<Rightarrow> Inl (stream_error e)
      | PFuel \<Rightarrow> Inl (ENew ''out of fuel''))"

text \<open>What follows the first value: nothing but white space (None), or an error.\<close>

definition json_trailing :: "string \<Rightarrow> stream_end \<Rightarrow> go_error option" where
  "json_trailing r e =
     (if skip_ws r = [] then (if e = EndEOF then None else Some (stream_error e))
      else case json_next r e of
             Inl err \<Rightarrow> Some err
           | Inr _ \<Rightarrow> Some (ENew ''multiple JSON values''))"

text \<open>
  Decoding into a struct: members in order, each to the field its key names exactly or up to case
  folding, unknown keys ignored, null leaving the field as it is, another type marking the whole
  decode as failed (the boolean) and going on.
\<close>

type_synonym 'r decoder = "json \<Rightarrow> 'r \<Rightarrow> 'r \<times> bool"

fun find_field :: "string \<Rightarrow> (string \<times> 'r decoder) list \<Rightarrow> 'r decoder option" where
  "find_field k [] = None"
| "find_field k ((n, d) # fs) = (if strings_EqualFold k n then Some d else find_field k fs)"

fun decode_members :: "(string \<times> 'r decoder) list \<Rightarrow> (string \<times> json) list \<Rightarrow> 'r \<Rightarrow> 'r \<times> bool" where
  "decode_members fs [] r = (r, False)"
| "decode_members fs ((k, v) # kvs) r =
     (case find_field k fs of
        None \<Rightarrow> decode_members fs kvs r
      | Some d \<Rightarrow>
          (case d v r of (r1, bad) \<Rightarrow>
             case decode_members fs kvs r1 of (r2, bad2) \<Rightarrow> (r2, bad \<or> bad2)))"

definition decode_struct :: "(string \<times> 'r decoder) list \<Rightarrow> 'r decoder" where
  "decode_struct fs v r =
     (case v of
        JNull \<Rightarrow> (r, False)
      | JObj kvs \<Rightarrow> decode_members fs kvs r
      | _ \<Rightarrow> (r, True))"

definition string_field :: "(string \<Rightarrow> 'r \<Rightarrow> 'r) \<Rightarrow> 'r decoder" where
  "string_field setf v r =
     (case v of
        JNull \<Rightarrow> (r, False)
      | JStr s \<Rightarrow> (setf s r, False)
      | _ \<Rightarrow> (r, True))"

section \<open>The scanner always finishes\<close>

lemma length_skip_ws: "length (skip_ws s) \<le> length s"
  by (simp add: skip_ws_def length_dropWhile_le)

lemma scan_map_POk: "scan_map f x = POk a r \<longleftrightarrow> (\<exists>b. x = POk b r \<and> a = f b)"
  by (cases x) auto

lemma scan_map_PFuel [simp]: "scan_map f x = PFuel \<longleftrightarrow> x = PFuel"
  by (cases x) auto

lemma scan_bind_POk: "scan_bind x f = POk a r \<longleftrightarrow> (\<exists>b s. x = POk b s \<and> f b s = POk a r)"
  by (cases x) auto

lemma scan_bind_PFuel: "scan_bind x f = PFuel \<longleftrightarrow> x = PFuel \<or> (\<exists>b s. x = POk b s \<and> f b s = PFuel)"
  by (cases x) auto

text \<open>What a scan leaves over is no longer than what it was given.\<close>

lemma skip_ws_Cons: "skip_ws s = c # r \<Longrightarrow> length r < length s"
  using length_skip_ws [of s] by simp

lemma scan_string_rest: "scan_string s = POk t r \<Longrightarrow> length r < length s"
proof (induction s arbitrary: t r rule: scan_string.induct)
  case 1
  then show ?case by simp
next
  case (2 c cs)
  then show ?case
    by (fastforce simp: scan_map_POk Let_def split: if_splits list.splits)
qed

lemma scan_string_PFuel: "scan_string s \<noteq> PFuel"
  by (induction s rule: scan_string.induct) (auto simp: Let_def split: list.split)

lemma scan_digits_rest: "scan_digits s = POk t r \<Longrightarrow> length r \<le> length s"
  by (auto simp: scan_digits_def length_dropWhile_le split: list.splits if_splits)
     (metis length_dropWhile_le le_SucI)

lemma scan_int_rest: "scan_int s = POk t r \<Longrightarrow> length r \<le> length s"
  by (auto simp: scan_int_def dest: scan_digits_rest split: list.splits if_splits)

lemma scan_frac_rest: "scan_frac s = POk t r \<Longrightarrow> length r \<le> length s"
  by (auto simp: scan_frac_def scan_map_POk dest!: scan_digits_rest split: list.splits if_splits)

lemma scan_exp_rest: "scan_exp s = POk t r \<Longrightarrow> length r \<le> length s"
  by (auto simp: scan_exp_def scan_map_POk dest!: scan_digits_rest split: list.splits if_splits)

lemma scan_number_rest:
  assumes "scan_number s = POk t r"
  shows "length r \<le> length s"
proof -
  obtain sg s1 where s1: "(case s of c # r \<Rightarrow> if c = CHR ''-'' then ([c], r) else ([], s) | [] \<Rightarrow> ([], [])) = (sg, s1)"
    by (cases "case s of c # r \<Rightarrow> if c = CHR ''-'' then ([c], r) else ([], s) | [] \<Rightarrow> ([], [])")
  have "length s1 \<le> length s" using s1 by (auto split: list.splits if_splits)
  with assms s1 show ?thesis
    by (fastforce simp: scan_number_def scan_bind_POk scan_map_POk
        dest!: scan_int_rest scan_frac_rest scan_exp_rest)
qed

lemma scan_digits_PFuel [simp]: "scan_digits s \<noteq> PFuel"
  by (simp add: scan_digits_def split: list.split)

lemma scan_number_PFuel: "scan_number s \<noteq> PFuel"
proof -
  have "scan_int x \<noteq> PFuel" "scan_frac x \<noteq> PFuel" "scan_exp x \<noteq> PFuel" for x
    by (simp_all add: scan_int_def scan_frac_def scan_exp_def split: list.split)
  then show ?thesis by (simp add: scan_number_def scan_bind_PFuel split: prod.split)
qed

lemma scan_literal_rest: "scan_literal l v s = POk w r \<Longrightarrow> length r \<le> length s"
  by (auto simp: scan_literal_def split: if_splits)

lemma scan_literal_PFuel: "scan_literal l v s \<noteq> PFuel"
  by (simp add: scan_literal_def)

lemma json_scalar_rest: "json_scalar s = POk v r \<Longrightarrow> length r \<le> length s"
  by (auto simp: json_scalar_def scan_map_POk split: list.splits if_splits
      dest!: scan_string_rest scan_number_rest scan_literal_rest)

lemma json_scalar_PFuel: "json_scalar s \<noteq> PFuel"
  by (simp add: json_scalar_def scan_string_PFuel scan_number_PFuel scan_literal_PFuel split: list.split)

lemma json_key_rest:
  assumes "json_key s = POk k r"
  shows "length r < length s"
proof -
  obtain q s1 where q: "skip_ws s = q # s1" using assms by (cases "skip_ws s") (auto simp: json_key_def)
  then obtain t r1 where t: "scan_string s1 = POk t r1" and
    c: "(case skip_ws r1 of [] \<Rightarrow> PMore | c # r2 \<Rightarrow> if c = CHR '':'' then POk (json_unquote t) r2 else PErr) = POk k r"
    using assms by (auto simp: json_key_def scan_bind_POk split: if_splits)
  have "length r \<le> length r1"
    using c skip_ws_Cons [of r1] by (auto split: list.splits if_splits)
  then show ?thesis using skip_ws_Cons [OF q] scan_string_rest [OF t] by simp
qed

lemma json_key_PFuel: "json_key s \<noteq> PFuel"
  by (simp add: json_key_def scan_bind_PFuel scan_string_PFuel split: list.split)

lemma json_container_rest:
  assumes "json_container d close e f r = POk v r'"
    and "\<And>x. length x \<le> length r \<Longrightarrow> f x = POk v r' \<Longrightarrow> length r' \<le> length x"
  shows "length r' \<le> length r"
  using assms length_skip_ws [of r]
  by (fastforce simp: json_container_def split: list.splits if_splits)

lemma json_separator_rest:
  assumes "json_separator close x f r = POk v r'"
    and "\<And>y w. f y = POk w r' \<Longrightarrow> length r' \<le> length y"
  shows "length r' \<le> length r"
  using assms skip_ws_Cons [of r]
  by (fastforce simp: json_separator_def scan_map_POk split: list.splits if_splits)

lemma json_scan_rest:
  "(\<forall>d s v r. json_value n d s = POk v r \<longrightarrow> length r \<le> length s)
   \<and> (\<forall>d s vs r. json_elems n d s = POk vs r \<longrightarrow> length r \<le> length s)
   \<and> (\<forall>d s kvs r. json_members n d s = POk kvs r \<longrightarrow> length r \<le> length s)"
proof (induction n)
  case 0
  then show ?case by simp
next
  case (Suc n)
  have 1: "length r \<le> length s" if v: "json_value (Suc n) d s = POk v r" for d s v r
  proof -
    obtain c cs where cs: "skip_ws s = c # cs" using v by (cases "skip_ws s") auto
    have m: "length r \<le> length x" if "scan_map JObj (json_members n (Suc d) x) = POk v r" for x
      using that Suc.IH by (auto simp: scan_map_POk)
    have e: "length r \<le> length x" if "scan_map JArr (json_elems n (Suc d) x) = POk v r" for x
      using that Suc.IH by (auto simp: scan_map_POk)
    consider "json_container d (CHR ''}'') (JObj []) (\<lambda>x. scan_map JObj (json_members n (Suc d) x)) cs = POk v r"
      | "json_container d (CHR '']'') (JArr []) (\<lambda>x. scan_map JArr (json_elems n (Suc d) x)) cs = POk v r"
      | "json_scalar (c # cs) = POk v r"
      using v cs by (auto split: if_splits)
    then have "length r \<le> length (c # cs)"
    proof cases
      case 1
      then have "length r \<le> length cs" by (rule json_container_rest) (rule m)
      then show ?thesis by simp
    next
      case 2
      then have "length r \<le> length cs" by (rule json_container_rest) (rule e)
      then show ?thesis by simp
    next
      case 3
      then show ?thesis by (rule json_scalar_rest)
    qed
    then show ?thesis using cs length_skip_ws [of s] by simp
  qed
  have 2: "length r \<le> length s" if v: "json_elems (Suc n) d s = POk vs r" for d s vs r
  proof -
    obtain w r1 where w: "json_value n d s = POk w r1"
      "json_separator (CHR '']'') w (\<lambda>x. json_elems n d x) r1 = POk vs r"
      using v by (auto simp: scan_bind_POk)
    have "length r \<le> length r1" using w(2) by (rule json_separator_rest) (use Suc.IH in blast)
    moreover have "length r1 \<le> length s" using w(1) Suc.IH by blast
    ultimately show ?thesis by simp
  qed
  have 3: "length r \<le> length s" if v: "json_members (Suc n) d s = POk kvs r" for d s kvs r
  proof -
    obtain k r1 w r2 where w: "json_key s = POk k r1" "json_value n d r1 = POk w r2"
      "json_separator (CHR ''}'') (k, w) (\<lambda>x. json_members n d x) r2 = POk kvs r"
      using v by (auto simp: scan_bind_POk)
    have "length r \<le> length r2" using w(3) by (rule json_separator_rest) (use Suc.IH in blast)
    moreover have "length r2 \<le> length r1" using w(2) Suc.IH by blast
    ultimately show ?thesis using json_key_rest [OF w(1)] by simp
  qed
  show ?case using 1 2 3 by blast
qed

lemmas json_value_rest = json_scan_rest [THEN conjunct1, rule_format]

lemma json_container_PFuel:
  assumes "\<And>x. length x \<le> length r \<Longrightarrow> f x \<noteq> PFuel"
  shows "json_container d close e f r \<noteq> PFuel"
proof -
  have "f (skip_ws r) \<noteq> PFuel" using assms length_skip_ws by blast
  then show ?thesis by (auto simp: json_container_def split: list.split)
qed

lemma json_separator_PFuel:
  assumes "\<And>y. length y < length r \<Longrightarrow> f y \<noteq> PFuel"
  shows "json_separator close x f r \<noteq> PFuel"
  using assms skip_ws_Cons [of r] by (simp add: json_separator_def split: list.split)

text \<open>Twice the length of the input bounds the recursion, so \<open>json_next\<close> never reports the model's bound.\<close>

lemma json_scan_enough:
  "(\<forall>d s. 2 * length s < n \<longrightarrow> json_value n d s \<noteq> PFuel)
   \<and> (\<forall>d s. 2 * length s + 1 < n \<longrightarrow> json_elems n d s \<noteq> PFuel)
   \<and> (\<forall>d s. 2 * length s + 1 < n \<longrightarrow> json_members n d s \<noteq> PFuel)"
proof (induction n)
  case 0
  then show ?case by simp
next
  case (Suc n)
  have 1: "json_value (Suc n) d s \<noteq> PFuel" if le: "2 * length s < Suc n" for d s
  proof (cases "skip_ws s")
    case Nil
    then show ?thesis by simp
  next
    case (Cons c cs)
    then have "length cs < length s" by (rule skip_ws_Cons)
    then have "length x \<le> length cs \<Longrightarrow> 2 * length x + 1 < n" for x :: string using le by linarith
    then show ?thesis
      using Cons Suc.IH json_scalar_PFuel [of "c # cs"]
      by (auto intro!: json_container_PFuel)
  qed
  have 2: "json_elems (Suc n) d s \<noteq> PFuel" if le: "2 * length s + 1 < Suc n" for d s
  proof -
    have "2 * length s < n" using le by simp
    moreover have "json_separator (CHR '']'') w (\<lambda>x. json_elems n d x) r \<noteq> PFuel"
      if "json_value n d s = POk w r" for w r
    proof (rule json_separator_PFuel)
      fix y :: string assume "length y < length r"
      then have "2 * length y + 1 < n" using json_value_rest [OF that] le by linarith
      then show "json_elems n d y \<noteq> PFuel" using Suc.IH by blast
    qed
    ultimately show ?thesis using Suc.IH by (auto simp: scan_bind_PFuel)
  qed
  have 3: "json_members (Suc n) d s \<noteq> PFuel" if le: "2 * length s + 1 < Suc n" for d s
  proof -
    have "json_value n d r1 \<noteq> PFuel" if "json_key s = POk k r1" for k r1
      using Suc.IH json_key_rest [OF that] le by auto
    moreover have "json_separator (CHR ''}'') (k, w) (\<lambda>x. json_members n d x) r2 \<noteq> PFuel"
      if "json_key s = POk k r1" "json_value n d r1 = POk w r2" for k w r1 r2
    proof (rule json_separator_PFuel)
      fix y :: string assume "length y < length r2"
      then have "2 * length y + 1 < n"
        using json_value_rest [OF that(2)] json_key_rest [OF that(1)] le by linarith
      then show "json_members n d y \<noteq> PFuel" using Suc.IH by blast
    qed
    ultimately show ?thesis using json_key_PFuel by (auto simp: scan_bind_PFuel)
  qed
  show ?case using 1 2 3 by blast
qed

lemma json_value_enough: "json_value (2 * length s + 1) 0 s \<noteq> PFuel"
  using json_scan_enough [of "2 * length s + 1"] by simp

end
