(* ===== verification/Go_HTTP.thy ===== *)
theory Go_HTTP
  imports Go_URL Go_JSON
begin

text \<open>
  The parts of net/http the REST layer is built on, after the sources of Go 1.26: requests and
  responses, \<open>MaxBytesReader\<close>, \<open>Error\<close>, \<open>Redirect\<close>, and the routing of \<open>ServeMux\<close> for patterns with
  a method and literal segments. A handler gets the headers set so far, because the middleware and
  the handlers write to the same header map.
\<close>

section \<open>Requests and responses\<close>

type_synonym header = "(string \<times> string) list"

record request =
  rMethod :: string
  rRequestURI :: string
  rURL :: url
  rHeader :: header
  rBody :: string
  rEnd :: stream_end

record response =
  rsCode :: int
  rsHeader :: header
  rsBody :: string

definition Header_Get :: "header \<Rightarrow> string \<Rightarrow> string" where
  "Header_Get h k = map_str h k"

text \<open>\<open>http.MaxBytesReader\<close>: a longer body is cut at the bound and ends in its error.\<close>

definition MaxBytesReader :: "nat \<Rightarrow> string \<Rightarrow> stream_end \<Rightarrow> string \<times> stream_end" where
  "MaxBytesReader n b e = (if length b > n then (take n b, EndTooLarge) else (b, e))"

section \<open>Paths\<close>

text \<open>\<open>path.Clean\<close>; the accumulator is the cleaned path, last segment first.\<close>

definition clean_segment :: "bool \<Rightarrow> string \<Rightarrow> string list \<Rightarrow> string list" where
  "clean_segment rooted s acc =
     (if s = [] \<or> s = ''.'' then acc
      else if s = ''..'' then
        (case acc of
           [] \<Rightarrow> (if rooted then [] else [s])
         | x # xs \<Rightarrow> (if x = ''..'' then s # acc else xs))
      else s # acc)"

definition path_Clean :: "string \<Rightarrow> string" where
  "path_Clean p =
     (let rooted = strings_HasPrefix p ''/'';
          segs = rev (fold (clean_segment rooted) (strings_Split p (CHR ''/'')) [])
      in if rooted then ''/'' @ strings_Join segs ''/''
         else if segs = [] then ''.'' else strings_Join segs ''/'')"

text \<open>\<open>cleanPath\<close>: the canonical path, which keeps a trailing slash.\<close>

definition cleanPath :: "string \<Rightarrow> string" where
  "cleanPath p =
     (if p = [] then ''/''
      else let q = (if hd p = CHR ''/'' then p else ''/'' @ p);
               np = path_Clean q
           in if last q = CHR ''/'' \<and> np \<noteq> ''/'' then np @ ''/'' else np)"

section \<open>Error and Redirect\<close>

abbreviation set_header :: "string \<Rightarrow> string \<Rightarrow> header \<Rightarrow> header" where
  "set_header k v h \<equiv> AList.update k v h"

definition StatusText :: "int \<Rightarrow> string" where
  "StatusText code =
     (if code = 302 then ''Found'' else if code = 307 then ''Temporary Redirect''
      else if code = 400 then ''Bad Request'' else if code = 404 then ''Not Found''
      else if code = 405 then ''Method Not Allowed'' else [])"

definition http_Error :: "header \<Rightarrow> string \<Rightarrow> int \<Rightarrow> response" where
  "http_Error h msg code =
     \<lparr>rsCode = code,
      rsHeader = set_header ''X-Content-Type-Options'' ''nosniff''
                   (set_header ''Content-Type'' ''text/plain; charset=utf-8''
                     (AList.delete ''Content-Length'' h)),
      rsBody = msg @ [chr 10]\<rparr>"

definition html_escape_char :: "char \<Rightarrow> string" where
  "html_escape_char c =
     (if c = CHR ''&'' then ''&amp;'' else if c = CHR ''<'' then ''&lt;'' else if c = CHR ''>'' then ''&gt;''
      else if ord c = 34 then ''&#34;'' else if ord c = 39 then ''&#39;'' else [c])"

definition hex_escape_non_ascii :: "string \<Rightarrow> string" where
  "hex_escape_non_ascii s =
     concat (map (\<lambda>c. if ord c < 128 then [c]
                      else [CHR ''%'', hex_char (ord c div 16), hex_char (ord c mod 16)]) s)"

text \<open>A target without scheme and host is resolved against the request path and cleaned.\<close>

definition redirect_target :: "request \<Rightarrow> string \<Rightarrow> string" where
  "redirect_target r u =
     (case url_Parse u of
        None \<Rightarrow> u
      | Some p \<Rightarrow>
          if Scheme p \<noteq> [] \<or> Host p \<noteq> [] then u
          else
            (let oldpath = (if Path (rURL r) = [] then ''/'' else Path (rURL r));
                 dir = rev (dropWhile (\<lambda>c. c \<noteq> CHR ''/'') (rev oldpath));
                 u1 = (if u = [] \<or> hd u \<noteq> CHR ''/'' then dir @ u else u);
                 base = takeWhile (\<lambda>c. c \<noteq> CHR ''?'') u1;
                 query = dropWhile (\<lambda>c. c \<noteq> CHR ''?'') u1;
                 cleaned = path_Clean base
             in (if strings_HasSuffix base ''/'' \<and> \<not> strings_HasSuffix cleaned ''/'' then cleaned @ ''/''
                 else cleaned) @ query))"

definition http_Redirect :: "header \<Rightarrow> request \<Rightarrow> string \<Rightarrow> int \<Rightarrow> response" where
  "http_Redirect h r u code =
     (let target = redirect_target r u;
          hadCT = (map_of h ''Content-Type'' \<noteq> None);
          h1 = set_header ''Location'' (hex_escape_non_ascii target) h;
          h2 = (if \<not> hadCT \<and> (rMethod r = ''GET'' \<or> rMethod r = ''HEAD'')
                then set_header ''Content-Type'' ''text/html; charset=utf-8'' h1 else h1)
      in \<lparr>rsCode = code, rsHeader = h2,
          rsBody = (if \<not> hadCT \<and> rMethod r = ''GET''
                    then ''<a href='' @ [chr 34] @ concat (map html_escape_char target) @ [chr 34] @ ''>''
                         @ StatusText code @ ''</a>.'' @ [chr 10, chr 10]
                    else [])\<rparr>)"

section \<open>ServeMux\<close>

text \<open>The segments a path is matched by, each unescaped; a trailing slash is a segment of its own.\<close>

definition path_unescape :: "string \<Rightarrow> string" where
  "path_unescape s = (case url_unescape s EncodePathSegment of None \<Rightarrow> s | Some u \<Rightarrow> u)"

function path_segments :: "string \<Rightarrow> string list" where
  "path_segments p =
     (if p = [] then []
      else if p = ''/'' then [''/'']
      else path_unescape (takeWhile (\<lambda>c. c \<noteq> CHR ''/'') (tl p))
           # path_segments (dropWhile (\<lambda>c. c \<noteq> CHR ''/'') (tl p)))"
  by pat_completeness auto
termination
proof (relation "measure length")
  fix p :: string
  assume "p \<noteq> []"
  then have "length (tl p) < length p" by simp
  with length_dropWhile_le [of "\<lambda>c. c \<noteq> CHR ''/''" "tl p"]
  show "(dropWhile (\<lambda>c. c \<noteq> CHR ''/'') (tl p), p) \<in> measure length" by simp
qed simp

declare path_segments.simps [simp del]

type_synonym 'h pattern = "string \<times> string list \<times> 'h"

definition mux_match :: "'h pattern list \<Rightarrow> string \<Rightarrow> string \<Rightarrow> 'h option" where
  "mux_match pats m path =
     (case filter (\<lambda>(pm, segs, _). pm = m \<and> segs = path_segments path) pats of
        (_, _, h) # _ \<Rightarrow> Some h
      | [] \<Rightarrow>
          (if m = ''HEAD'' then
             (case filter (\<lambda>(pm, segs, _). pm = ''GET'' \<and> segs = path_segments path) pats of
                (_, _, h) # _ \<Rightarrow> Some h | [] \<Rightarrow> None)
           else None))"

definition matching_methods :: "'h pattern list \<Rightarrow> string \<Rightarrow> string list" where
  "matching_methods pats path =
     (let ms = map fst (filter (\<lambda>(_, segs, _). segs = path_segments path) pats)
      in sort (remdups (if ''GET'' \<in> set ms then ''HEAD'' # ms else ms)))"

text \<open>
  What the multiplexer does with a request: a handler, a redirect to the canonical path, or an error.
  The patterns have no host and no trailing slash, so the branches for those do not occur.
\<close>

datatype mux_reply =
    RedirectTo string
  | MethodNotAllowed "string list"
  | NotFound
  | BadRequestURI

datatype 'h dispatch = Handler 'h | Reply mux_reply

definition mux_dispatch :: "'h pattern list \<Rightarrow> request \<Rightarrow> 'h dispatch" where
  "mux_dispatch pats r =
     (if rRequestURI r = ''*'' then Reply BadRequestURI
      else
        (let escaped = EscapedPath (rURL r);
             path = (if rMethod r = ''CONNECT'' then escaped else cleanPath escaped)
         in if path \<noteq> escaped
            then Reply (RedirectTo (url_String (empty_url\<lparr>Path := path, RawQuery := RawQuery (rURL r)\<rparr>)))
            else case mux_match pats (rMethod r) path of
                   Some h \<Rightarrow> Handler h
                 | None \<Rightarrow>
                     (let ms = matching_methods pats path
                      in Reply (if ms \<noteq> [] then MethodNotAllowed ms else NotFound))))"

text \<open>The responses of the multiplexer itself.\<close>

fun mux_response :: "header \<Rightarrow> request \<Rightarrow> mux_reply \<Rightarrow> response" where
  "mux_response h r (RedirectTo u) = http_Redirect h r u 307"
| "mux_response h r (MethodNotAllowed ms) =
     http_Error (set_header ''Allow'' (strings_Join ms '', '') h) (StatusText 405) 405"
| "mux_response h r NotFound = http_Error h ''404 page not found'' 404"
| "mux_response h r BadRequestURI = \<lparr>rsCode = 400, rsHeader = set_header ''Connection'' ''close'' h, rsBody = []\<rparr>"

section \<open>Routing follows the decoded path\<close>

text \<open>
  The middleware decides on the decoded path, the multiplexer on the segments of the escaped one. The
  two agree: a request dispatched to a literal pattern has exactly that pattern as its decoded path.
\<close>

lemma unescape_path_segment:
  "url_unescape s EncodePathSegment = url_unescape s EncodePath"
  by (induction s EncodePath rule: url_unescape.induct)
    (auto simp: escape_allowed_def split: list.split option.split prod.split)

lemma map_option_append_Nil: "map_option ((@) []) x = x"
  by (cases x) auto

lemma unhex_slash: "unhex (CHR ''/'') = None"
  by code_simp

lemma append_Cons_fun: "(@) (c # x) = (\<lambda>y. c # x @ y)"
  by (rule ext) simp

lemma unescape_append:
  assumes b: "b = [] \<or> hd b = CHR ''/''"
  shows "url_unescape (a @ b) EncodePath
    = Option.bind (url_unescape a EncodePath) (\<lambda>x. map_option ((@) x) (url_unescape b EncodePath))"
proof (induction a EncodePath rule: url_unescape.induct)
  case 1
  then show ?case by (simp add: map_option_append_Nil)
next
  case (2 c cs)
  show ?case
  proof (cases "c = CHR ''%''")
    case False
    with 2(2) show ?thesis
      by (auto simp: option.map_comp o_def bind_map_option map_option_bind append_Cons_fun split: option.split)
  next
    case True
    consider "cs = []" | h where "cs = [h]" | h l r where "cs = h # l # r"
      by (metis neq_Nil_conv)
    then show ?thesis
    proof cases
      case 1
      with True b show ?thesis
        by (cases b; cases "tl b") (auto simp: unhex_slash split: option.splits list.splits)
    next
      case (2 h)
      with True b show ?thesis
        by (cases b) (auto simp: unhex_slash split: option.splits)
    next
      case (3 h l r)
      with True 2(1) [OF True 3] show ?thesis
        by (auto simp: option.map_comp o_def escape_allowed_def bind_map_option map_option_bind append_Cons_fun split: option.splits)
    qed
  qed
qed

lemma unescape_slash:
  "url_unescape (CHR ''/'' # s) EncodePath = map_option ((#) (CHR ''/'')) (url_unescape s EncodePath)"
  by simp

lemma unescape_escape_char_path:
  "url_unescape (escape_char EncodePath c @ s) EncodePath = map_option ((#) c) (url_unescape s EncodePath)"
proof (cases "shouldEscape c EncodePath")
  case True
  note b = nibble_bounds [of c]
  have "16 * (ord c div 16) + ord c mod 16 = ord c" by simp
  then have "chr (16 * (ord c div 16) + ord c mod 16) = c" by simp
  with True show ?thesis
    by (simp add: escape_char_def unhex_upper_hex_char [OF b(1)] unhex_upper_hex_char [OF b(2)] escape_allowed_def)
next
  case False
  moreover have "shouldEscape (CHR ''%'') EncodePath" by code_simp
  ultimately have "c \<noteq> CHR ''%''" by auto
  with False show ?thesis by (simp add: escape_char_def)
qed

lemma unescape_escape_path: "url_unescape (url_escape s EncodePath) EncodePath = Some s"
  by (induction s) (simp_all add: url_escape_def unescape_escape_char_path)

lemma unescape_EscapedPath:
  "Path u \<noteq> ''*'' \<Longrightarrow> url_unescape (EscapedPath u) EncodePath = Some (Path u)"
  by (auto simp: EscapedPath_def unescape_escape_path)

lemma path_segments_unescape:
  assumes "url_unescape p EncodePath = Some q" "p = [] \<or> hd p = CHR ''/''" "''/'' \<notin> set (path_segments p)"
  shows "q = concat (map (\<lambda>s. CHR ''/'' # s) (path_segments p))"
  using assms
proof (induction p arbitrary: q rule: path_segments.induct)
  case (1 p)
  let ?a = "takeWhile (\<lambda>c. c \<noteq> CHR ''/'') (tl p)" and ?b = "dropWhile (\<lambda>c. c \<noteq> CHR ''/'') (tl p)"
  show ?case
  proof (cases "p = []")
    case True
    with 1(2) show ?thesis by (simp add: path_segments.simps)
  next
    case False
    have ns: "p \<noteq> ''/''" using 1(4) by (auto simp: path_segments.simps)
    have b: "?b = [] \<or> hd ?b = CHR ''/''" using hd_dropWhile [of "\<lambda>c. c \<noteq> CHR ''/''" "tl p"] by auto
    have p: "p = CHR ''/'' # ?a @ ?b" using 1(3) False by (cases p) auto
    have segs: "path_segments p = path_unescape ?a # path_segments ?b"
      using False ns by (subst path_segments.simps) simp
    have "url_unescape (CHR ''/'' # ?a @ ?b) EncodePath = Some q" using 1(2) p by metis
    then have "map_option ((#) (CHR ''/'')) (url_unescape (?a @ ?b) EncodePath) = Some q"
      by (simp only: unescape_slash)
    then obtain x y where x: "url_unescape ?a EncodePath = Some x" and y: "url_unescape ?b EncodePath = Some y"
      and q: "q = CHR ''/'' # x @ y"
      by (auto simp only: unescape_append [OF b] bind_eq_Some_conv map_option_eq_Some)
    have "y = concat (map (\<lambda>s. CHR ''/'' # s) (path_segments ?b))"
      using 1(1) [OF False ns y b] 1(4) segs by simp
    moreover have "path_unescape ?a = x" using x by (simp add: path_unescape_def unescape_path_segment)
    ultimately show ?thesis using q segs by simp
  qed
qed

lemma cleanPath_rooted: "cleanPath p \<noteq> [] \<and> hd (cleanPath p) = CHR ''/''"
proof (cases "p = []")
  case False
  then have "strings_HasPrefix (if hd p = CHR ''/'' then p else ''/'' @ p) ''/''"
    by (cases p) (auto simp: strings_HasPrefix_def)
  with False show ?thesis by (simp add: cleanPath_def path_Clean_def Let_def)
qed (simp add: cleanPath_def)

text \<open>A pattern matched is one of the list, with the segments of the path.\<close>

lemma filter_first:
  assumes "filter P xs = x # ys"
  shows "x \<in> set xs" "P x"
proof -
  have "x \<in> set (filter P xs)" using assms by simp
  then show "x \<in> set xs" "P x" by simp_all
qed

lemma mux_match_Some:
  assumes "mux_match pats m path = Some h"
  obtains pm segs where "(pm, segs, h) \<in> set pats" "segs = path_segments path"
    "pm = m \<or> (m = ''HEAD'' \<and> pm = ''GET'')"
proof -
  let ?f = "\<lambda>k. filter (\<lambda>(pm, segs, _). pm = k \<and> segs = path_segments path) pats"
  show thesis
  proof (cases "?f m")
    case (Cons x xs)
    with assms have "h = snd (snd x)" by (auto simp: mux_match_def split: prod.splits)
    with filter_first [OF Cons] have "(m, path_segments path, h) \<in> set pats" by (cases x) auto
    with that show thesis by blast
  next
    case Nil
    with assms have m: "m = ''HEAD''" by (auto simp: mux_match_def split: if_splits)
    show thesis
    proof (cases "?f ''GET''")
      case (Cons x xs)
      with assms Nil m have "h = snd (snd x)" by (auto simp: mux_match_def split: prod.splits)
      with filter_first [OF Cons] have "(''GET'', path_segments path, h) \<in> set pats" by (cases x) auto
      with that m show thesis by blast
    next
      case Nil
      with assms m \<open>?f m = []\<close> show thesis by (simp add: mux_match_def)
    qed
  qed
qed

lemma mux_dispatch_path:
  assumes d: "mux_dispatch pats r = Handler h"
    and lit: "\<And>pm segs h. (pm, segs, h) \<in> set pats \<Longrightarrow> segs \<noteq> [] \<and> ''/'' \<notin> set segs \<and> pm \<noteq> ''CONNECT''"
  obtains pm segs where "(pm, segs, h) \<in> set pats" "Path (rURL r) = concat (map (\<lambda>s. CHR ''/'' # s) segs)"
    "pm = rMethod r \<or> (rMethod r = ''HEAD'' \<and> pm = ''GET'')"
proof -
  let ?e = "EscapedPath (rURL r)"
  let ?p = "if rMethod r = ''CONNECT'' then ?e else cleanPath ?e"
  from d have p: "?p = ?e" and m: "mux_match pats (rMethod r) ?e = Some h"
    by (auto simp: mux_dispatch_def Let_def split: if_splits option.splits)
  obtain pm segs where e: "(pm, segs, h) \<in> set pats" "segs = path_segments ?e"
    "pm = rMethod r \<or> (rMethod r = ''HEAD'' \<and> pm = ''GET'')"
    using m by (rule mux_match_Some)
  have "rMethod r \<noteq> ''CONNECT''" using e lit [OF e(1)] by auto
  then have root: "?e \<noteq> []" "hd ?e = CHR ''/''" using p cleanPath_rooted [of ?e] by auto
  have "Path (rURL r) \<noteq> ''*''"
  proof
    assume "Path (rURL r) = ''*''"
    then have "?e = ''*'' \<or> (?e = RawPath (rURL r) \<and> url_unescape ?e EncodePath = Some ''*'')"
      by (auto simp: EscapedPath_def)
    with root show False by (cases ?e) auto
  qed
  from path_segments_unescape [OF unescape_EscapedPath [OF this]] root lit [OF e(1)] e(2)
  have "Path (rURL r) = concat (map (\<lambda>s. CHR ''/'' # s) segs)" by auto
  with e that show thesis by blast
qed

section \<open>Redirects to absolute URLs\<close>

text \<open>A URL that was parsed with a scheme is redirected to as it is rendered, wherever the request came from.\<close>

lemma redirect_target_absolute:
  assumes "url_Parse raw = Some u" "Scheme u \<noteq> []" "Scheme v = Scheme u"
  shows "redirect_target r (url_String v) = url_String v"
proof -
  have s: "valid_scheme (Scheme v)" using url_Parse_valid_scheme [OF assms(1)] assms(2,3) by simp
  obtain x where x: "url_String v = Scheme v @ CHR '':'' # x"
    using url_String_scheme [of v] assms(2,3) by auto
  show ?thesis
  proof (cases "url_Parse (url_String v)")
    case None
    then show ?thesis by (simp add: redirect_target_def)
  next
    case (Some p)
    then have "Scheme p = map lower_char (Scheme v)" using url_Parse_scheme [OF s] x by metis
    then have "Scheme p \<noteq> []" using assms(2,3) by simp
    with Some show ?thesis by (simp add: redirect_target_def)
  qed
qed

end
