(* ===== verification/Flow_Engine.thy ===== *)
theory Flow_Engine
  imports Session_Store Go_URL Go_JSON
begin

text \<open>
  The engine of internal/flow/flow.go: it drives the SDK's begin/resume state machine, performs the
  HTTP effects the SDK asks for, and records each transition in the session store.

  The SDK and the effector are interfaces in the code and parameters here: records of functions
  over a world of any type \<open>'w\<close>, which they may read and change (a script, a network, a random
  source). Time is read from the world too. The engine's state is the store, the log and the world.
\<close>

section \<open>Requests and SDK results\<close>

record options =
  ExpectedSignerMatchOn :: string
  ExpectedSignerValue :: string

definition options_Validate :: "options option \<Rightarrow> go_error option" where
  "options_Validate opts =
     (case opts of
        None \<Rightarrow> None
      | Some opt \<Rightarrow>
          if (ExpectedSignerMatchOn opt = []) \<noteq> (ExpectedSignerValue opt = [])
          then Some (ENew ''expectedSigner requires both matchOn and value'') else None)"

type_synonym step_map = "(string \<times> any) list"

record sdk_result =
  rHandle :: gobytes
  rStep :: step_map

record pdf_signer =
  Serial :: string
  CN :: string

record pdf_verification =
  Integrity :: bool
  Profile :: "string option"
  Signer :: "pdf_signer option"
  Reasons :: "string list option"

record 'w sdk =
  sdk_Begin :: "'w \<Rightarrow> gobytes \<Rightarrow> string \<Rightarrow> options option \<Rightarrow> (go_error + sdk_result) \<times> 'w"
  sdk_ResumeRedirect :: "'w \<Rightarrow> gobytes \<Rightarrow> string \<Rightarrow> string \<Rightarrow> (go_error + sdk_result) \<times> 'w"
  sdk_ResumeRedirectError :: "'w \<Rightarrow> gobytes \<Rightarrow> string \<Rightarrow> string \<Rightarrow> (go_error + sdk_result) \<times> 'w"
  sdk_ResumeHTTP :: "'w \<Rightarrow> gobytes \<Rightarrow> int \<Rightarrow> gobytes \<Rightarrow> (go_error + sdk_result) \<times> 'w"
  sdk_VerifyPDF :: "'w \<Rightarrow> gobytes \<Rightarrow> (go_error + pdf_verification) \<times> 'w"

type_synonym 'w effector =
  "'w \<Rightarrow> string \<Rightarrow> string \<Rightarrow> (string \<times> string) list \<Rightarrow> gobytes \<Rightarrow> (go_error + int \<times> gobytes) \<times> 'w"

section \<open>Constants\<close>

definition stepKindPerformHTTP :: string where "stepKindPerformHTTP = ''perform_http''"
definition stepKindRedirect :: string where "stepKindRedirect = ''redirect''"
definition stepKindDone :: string where "stepKindDone = ''done''"
definition stepKindFailed :: string where "stepKindFailed = ''failed''"
definition outcomeDeclined :: string where "outcomeDeclined = ''declined''"
definition reasonUpstreamError :: string where "reasonUpstreamError = ''upstream_error''"
definition reasonResumeError :: string where "reasonResumeError = ''resume_error''"
definition reasonUnknown :: string where "reasonUnknown = ''unknown''"

lemmas step_kind_defs = stepKindPerformHTTP_def stepKindRedirect_def stepKindDone_def stepKindFailed_def

section \<open>Reading a step\<close>

definition mapString :: "step_map \<Rightarrow> string \<Rightarrow> string" where
  "mapString m key = (case map_of m key of Some (AStr s) \<Rightarrow> s | _ \<Rightarrow> [])"

definition stepKind :: "step_map \<Rightarrow> string" where
  "stepKind step = mapString step ''kind''"

definition stepRedirect :: "step_map \<Rightarrow> go_error + string \<times> string" where
  "stepRedirect step =
     (let rawURL = mapString step ''url''; state = mapString step ''state''
      in if rawURL = [] \<or> state = [] then Inl (ENew ''redirect step missing url or state'')
         else Inr (rawURL, state))"

record http_effect =
  effectMethod :: string
  rawURL :: string
  headers :: "(string \<times> string) list"
  body :: gobytes

text \<open>A header is a list of exactly two strings; anything else in the list is skipped.\<close>

fun header_pair :: "any \<Rightarrow> (string \<times> string) option" where
  "header_pair (AList [AStr k, AStr v]) = Some (k, v)"
| "header_pair _ = None"

definition stepHTTP :: "step_map \<Rightarrow> go_error + http_effect" where
  "stepHTTP step =
     (let m = mapString step ''method''; u = mapString step ''url''
      in if m = [] \<or> u = [] then Inl (ENew ''perform_http step missing method or url'')
         else Inr \<lparr>effectMethod = m, rawURL = u,
                   headers = (case map_of step ''headers'' of
                                Some (AList hs) \<Rightarrow> List.map_filter header_pair hs | _ \<Rightarrow> []),
                   body = (case map_of step ''body'' of Some (ABytes b) \<Rightarrow> b | _ \<Rightarrow> None)\<rparr>)"

definition stepEvidence :: "step_map \<Rightarrow> go_error + gobytes" where
  "stepEvidence step =
     (case map_of step ''evidence'' of
        None \<Rightarrow> Inr None
      | Some ev \<Rightarrow>
          (case json_Marshal ev of
             Inl err \<Rightarrow> Inl (EWrap ''serialize evidence'' err)
           | Inr b \<Rightarrow> Inr (Some b)))"

definition step_pdf :: "step_map \<Rightarrow> gobytes" where
  "step_pdf step =
     (case map_of step ''signed'' of
        Some (AMap signed) \<Rightarrow> (case map_of signed ''pdf'' of Some (ABytes p) \<Rightarrow> p | _ \<Rightarrow> None)
      | _ \<Rightarrow> None)"

definition stepDone :: "step_map \<Rightarrow> go_error + gobytes \<times> gobytes" where
  "stepDone step =
     (if blen (step_pdf step) = 0 then Inl (ENew ''done step missing signed pdf'')
      else case stepEvidence step of
             Inl err \<Rightarrow> Inl (EWrap ''serialize evidence'' err)
           | Inr ev \<Rightarrow> Inr (step_pdf step, ev))"

definition mapFailed :: "step_map \<Rightarrow> status \<times> string" where
  "mapFailed step =
     (let outcome = (case map_of step ''evidence'' of Some (AMap ev) \<Rightarrow> mapString ev ''outcome'' | _ \<Rightarrow> [])
      in if outcome = outcomeDeclined then (StatusDeclined, outcomeDeclined)
         else (StatusFailed, if outcome = [] then reasonUnknown else outcome))"

definition redact :: "string \<Rightarrow> string" where
  "redact raw =
     (case url_Parse raw of
        None \<Rightarrow> ''(unparseable)''
      | Some u \<Rightarrow> Scheme u @ ''://'' @ Host u @ Path u)"

section \<open>The engine\<close>

datatype log_level = LInfo | LWarn | LError
datatype log_value = LStr string | LNum int | LBool bool

type_synonym log_entry = "log_level \<times> string \<times> (string \<times> log_value) list"

record 'w engine =
  eSDK :: "'w sdk"
  eUp :: "'w effector"
  eTTL :: time
  eRewrite :: "(string \<Rightarrow> string) option"
  eClock :: "'w \<Rightarrow> time \<times> 'w"

record 'w gstate =
  mem :: memory
  logs :: "log_entry list"
  world :: 'w

definition log_info :: "string \<Rightarrow> (string \<times> log_value) list \<Rightarrow> 'w gstate \<Rightarrow> 'w gstate" where
  "log_info msg attrs st = st\<lparr>logs := logs st @ [(LInfo, msg, attrs)]\<rparr>"

definition log_error :: "string \<Rightarrow> (string \<times> log_value) list \<Rightarrow> 'w gstate \<Rightarrow> 'w gstate" where
  "log_error msg attrs st = st\<lparr>logs := logs st @ [(LError, msg, attrs)]\<rparr>"

definition rewriteRedirect :: "'w engine \<Rightarrow> string \<Rightarrow> string" where
  "rewriteRedirect e u = (case eRewrite e of Some f \<Rightarrow> f u | None \<Rightarrow> u)"

definition fail_session :: "status \<Rightarrow> string \<Rightarrow> gobytes \<Rightarrow> session \<Rightarrow> session" where
  "fail_session status reason evidence s =
     (let s1 = s\<lparr>Status := status, Reason := reason\<rparr>
      in if evidence \<noteq> None then s1\<lparr>Evidence := evidence\<rparr> else s1)"

definition engine_fail :: "addr \<Rightarrow> status \<Rightarrow> string \<Rightarrow> gobytes \<Rightarrow> 'w gstate \<Rightarrow> 'w gstate" where
  "engine_fail a status reason evidence st =
     st\<lparr>mem := Finalize a (Update a (fail_session status reason evidence) (mem st))\<rparr>"

text \<open>What \<open>drive\<close>, \<open>Complete\<close> and \<open>CompleteError\<close> return: status, redirect URL, reason, error.\<close>

type_synonym drive_result = "status \<times> string \<times> string \<times> go_error option"

text \<open>
  One round of the loop in \<open>drive\<close>: a return (left) or the SDK's next step (right). The branch of a
  perform_http step is a definition of its own.
\<close>

definition drive_http ::
  "'w engine \<Rightarrow> addr \<Rightarrow> sdk_result \<Rightarrow> 'w gstate \<Rightarrow> (drive_result + sdk_result) \<times> 'w gstate" where
  "drive_http e a res st =
     (case stepHTTP (rStep res) of
        Inl perr \<Rightarrow>
          (Inl ([], [], [], Some (EWrap ''malformed perform_http step'' perr)),
           engine_fail a StatusFailed reasonResumeError None st)
      | Inr ef \<Rightarrow>
          (let st1 = log_info ''effect.perform_http''
                       [(''method'', LStr (effectMethod ef)), (''url'', LStr (redact (rawURL ef)))] st;
               (r, w1) = eUp e (world st1) (effectMethod ef) (rawURL ef) (headers ef) (body ef);
               st2 = st1\<lparr>world := w1\<rparr>
           in case r of
                Inl doErr \<Rightarrow>
                  (Inl (StatusFailed, [], reasonUpstreamError, None),
                   log_error ''effect.http_error''
                     [(''url'', LStr (redact (rawURL ef))), (''err'', LStr (error_text doErr))]
                     (engine_fail a StatusFailed reasonUpstreamError None st2))
              | Inr (httpStatus, respBody) \<Rightarrow>
                  (let st3 = log_info ''effect.http_result'' [(''status'', LNum httpStatus)] st2;
                       (rr, w2) = sdk_ResumeHTTP (eSDK e) (world st3) (rHandle res) httpStatus respBody;
                       st4 = st3\<lparr>world := w2\<rparr>
                   in case rr of
                        Inl resumeErr \<Rightarrow>
                          (Inl ([], [], [], Some (EWrap ''resume http'' resumeErr)),
                           engine_fail a StatusFailed reasonResumeError None st4)
                      | Inr next \<Rightarrow> (Inr next, st4))))"

definition drive_redirect :: "'w engine \<Rightarrow> addr \<Rightarrow> sdk_result \<Rightarrow> 'w gstate \<Rightarrow> drive_result \<times> 'w gstate" where
  "drive_redirect e a res st =
     (case stepRedirect (rStep res) of
        Inl perr \<Rightarrow>
          (([], [], [], Some (EWrap ''malformed redirect step'' perr)),
           engine_fail a StatusFailed reasonResumeError None st)
      | Inr (u, state) \<Rightarrow>
          (let st1 = st\<lparr>mem := SetState a state (mem st)\<rparr>;
               st2 = st1\<lparr>mem := Update a (\<lambda>s. s\<lparr>Status := StatusAuthorizing\<rparr>) (mem st1)\<rparr>
           in ((StatusAuthorizing, rewriteRedirect e u, [], None),
               log_info ''transition.redirect''
                 [(''correlation_id'', LStr (CorrelationID (heap (mem st2) a)))] st2)))"

definition drive_done :: "addr \<Rightarrow> sdk_result \<Rightarrow> 'w gstate \<Rightarrow> drive_result \<times> 'w gstate" where
  "drive_done a res st =
     (case stepDone (rStep res) of
        Inl perr \<Rightarrow>
          (let st1 = engine_fail a StatusFailed reasonResumeError None st
           in ((StatusFailed, [], reasonResumeError, Some (EWrap ''malformed done step'' perr)),
               log_error ''transition.done_invalid''
                 [(''correlation_id'', LStr (CorrelationID (heap (mem st1) a)))] st1))
      | Inr (pdf, evidence) \<Rightarrow>
          (let st1 = st\<lparr>mem := Update a
                     (\<lambda>s. s\<lparr>Status := StatusCompleted, ResultPDF := pdf, Evidence := evidence\<rparr>) (mem st)\<rparr>;
               st2 = st1\<lparr>mem := Finalize a (mem st1)\<rparr>
           in ((StatusCompleted, [], [], None),
               log_info ''transition.done'' [(''pdf_bytes'', LNum (int (blen pdf)))] st2)))"

definition drive_failed :: "addr \<Rightarrow> sdk_result \<Rightarrow> 'w gstate \<Rightarrow> drive_result \<times> 'w gstate" where
  "drive_failed a res st =
     (case mapFailed (rStep res) of (failStatus, failReason) \<Rightarrow>
        (case stepEvidence (rStep res) of
           Inl evidenceErr \<Rightarrow>
             (let st1 = engine_fail a StatusFailed reasonResumeError None st
              in ((StatusFailed, [], reasonResumeError, Some (EWrap ''malformed failed step'' evidenceErr)),
                  log_error ''transition.failed_invalid''
                    [(''correlation_id'', LStr (CorrelationID (heap (mem st1) a)))] st1))
         | Inr evidence \<Rightarrow>
             ((failStatus, [], failReason, None),
              log_info ''transition.failed'' [(''reason'', LStr failReason)]
                (engine_fail a failStatus failReason evidence st))))"

definition drive_round ::
  "'w engine \<Rightarrow> addr \<Rightarrow> sdk_result \<Rightarrow> 'w gstate \<Rightarrow> (drive_result + sdk_result) \<times> 'w gstate" where
  "drive_round e a res st =
     (let st0 = st\<lparr>mem := Update a (\<lambda>s. s\<lparr>Handle := rHandle res\<rparr>) (mem st)\<rparr>;
          kind = stepKind (rStep res)
      in if kind = stepKindPerformHTTP then drive_http e a res st0
         else if kind = stepKindRedirect then map_prod Inl id (drive_redirect e a res st0)
         else if kind = stepKindDone then map_prod Inl id (drive_done a res st0)
         else if kind = stepKindFailed then map_prod Inl id (drive_failed a res st0)
         else (Inl ([], [], [], Some (ENew (''unexpected step kind '' @ strconv_Quote kind))),
               engine_fail a StatusFailed reasonResumeError None st0))"

text \<open>The loop has no bound of its own: the SDK decides how many effects it asks for. None is a loop that does not end.\<close>

partial_function (option) drive ::
  "'w engine \<Rightarrow> addr \<Rightarrow> sdk_result \<Rightarrow> 'w gstate \<Rightarrow> (drive_result \<times> 'w gstate) option" where
  "drive e a res st =
     (case drive_round e a res st of
        (Inl r, st') \<Rightarrow> Some (r, st')
      | (Inr next, st') \<Rightarrow> drive e a next st')"

text \<open>\<open>consume\<close> maps the store's ErrTerminal to the package's own.\<close>

definition consume :: "'w engine \<Rightarrow> addr \<Rightarrow> 'w gstate \<Rightarrow> (go_error + gobytes) \<times> 'w gstate" where
  "consume e a st =
     (let (now, w) = eClock e (world st);
          (r, m) = ConsumeForResume a now (mem st);
          st1 = st\<lparr>mem := m, world := w\<rparr>
      in case r of
           Inl err \<Rightarrow>
             ((if errors_Is (ESentinel err) SessionErrTerminal then Inl (ESentinel FlowErrTerminal)
               else Inl (ESentinel err)), st1)
         | Inr handle \<Rightarrow> (Inr handle, st1))"

definition Begin ::
  "'w engine \<Rightarrow> string \<Rightarrow> gobytes \<Rightarrow> string \<Rightarrow> string \<Rightarrow> options option \<Rightarrow> 'w gstate
   \<Rightarrow> (go_error + string \<times> time) \<times> 'w gstate" where
  "Begin e corr document conformance clientState opts st =
     (let (r, w) = sdk_Begin (eSDK e) (world st) document conformance opts;
          st1 = st\<lparr>world := w\<rparr>
      in case r of
           Inl err \<Rightarrow> (Inl err, st1)
         | Inr res \<Rightarrow>
             (let kind = stepKind (rStep res)
              in if kind \<noteq> stepKindRedirect
                 then (Inl (ENew (''begin produced unexpected step '' @ strconv_Quote kind)), st1)
                 else case stepRedirect (rStep res) of
                        Inl perr \<Rightarrow> (Inl (EWrap ''begin produced malformed redirect'' perr), st1)
                      | Inr (u, state) \<Rightarrow>
                          (let (t0, w1) = eClock e (world st1);
                               (t1, w2) = eClock e w1;
                               (a, m1) = NewSession corr state clientState conformance (eTTL e) t0 t1 (mem st1);
                               m2 = Update a (\<lambda>s. s\<lparr>Handle := rHandle res, Status := StatusAuthorizing\<rparr>) m1;
                               st2 = st1\<lparr>mem := m2, world := w2\<rparr>
                           in (Inr (rewriteRedirect e u, ExpiresAt (heap m2 a)),
                               log_info ''begin'' [(''correlation_id'', LStr corr)] st2))))"

text \<open>The two completions differ in the SDK entry they call; both are total but for the loop.\<close>

definition complete_with ::
  "('w \<Rightarrow> gobytes \<Rightarrow> (go_error + sdk_result) \<times> 'w) \<Rightarrow> 'w engine \<Rightarrow> addr \<Rightarrow> 'w gstate
   \<Rightarrow> (drive_result \<times> 'w gstate) option" where
  "complete_with resume e a st =
     (case consume e a st of
        (Inl err, st1) \<Rightarrow> Some (([], [], [], Some err), st1)
      | (Inr handle, st1) \<Rightarrow>
          (let (r, w) = resume (world st1) handle;
               st2 = st1\<lparr>world := w\<rparr>
           in case r of
                Inl err \<Rightarrow>
                  Some (([], [], [], Some err), engine_fail a StatusFailed reasonResumeError None st2)
              | Inr res \<Rightarrow> drive e a res st2))"

definition Complete ::
  "'w engine \<Rightarrow> addr \<Rightarrow> string \<Rightarrow> string \<Rightarrow> 'w gstate \<Rightarrow> (drive_result \<times> 'w gstate) option" where
  "Complete e a code state =
     complete_with (\<lambda>w handle. sdk_ResumeRedirect (eSDK e) w handle code state) e a"

definition CompleteError ::
  "'w engine \<Rightarrow> addr \<Rightarrow> string \<Rightarrow> string \<Rightarrow> 'w gstate \<Rightarrow> (drive_result \<times> 'w gstate) option" where
  "CompleteError e a oauthError state =
     complete_with (\<lambda>w handle. sdk_ResumeRedirectError (eSDK e) w handle oauthError state) e a"

end
