(* ===== verification/Flow_Contract.thy ===== *)
theory Flow_Contract
  imports Flow_Engine
begin

text \<open>
  What the engine of \<open>Flow_Engine\<close> guarantees: the loop always lets its session go, sealed or armed
  for the next callback; it touches no other session; it keeps the store's invariant; it ends when
  the SDK asks for finitely many effects; a refused completion performs nothing.
\<close>

section \<open>What one round does to the store\<close>

text \<open>The identity of a session: the fields nothing writes after its creation.\<close>

definition same_identity :: "session \<Rightarrow> session \<Rightarrow> bool" where
  "same_identity s s' =
     (CorrelationID s' = CorrelationID s \<and> ClientState s' = ClientState s
      \<and> Conformance s' = Conformance s \<and> CreatedAt s' = CreatedAt s \<and> ExpiresAt s' = ExpiresAt s)"

lemma same_identity_refl [simp]: "same_identity s s"
  by (simp add: same_identity_def)

lemma same_identity_trans: "same_identity s t \<Longrightarrow> same_identity t u \<Longrightarrow> same_identity s u"
  by (simp add: same_identity_def)

text \<open>\<open>only_touches a\<close>: the index of sessions and every other session are as before.\<close>

definition only_touches :: "addr \<Rightarrow> memory \<Rightarrow> memory \<Rightarrow> bool" where
  "only_touches a m m' \<longleftrightarrow>
     byID m' = byID m \<and> next_addr m' = next_addr m \<and> same_identity (heap m a) (heap m' a)
     \<and> (\<forall>b. b \<noteq> a \<longrightarrow> heap m' b = heap m b)"

lemma only_touches_refl [simp]: "only_touches a m m"
  by (simp add: only_touches_def)

lemma only_touches_trans: "only_touches a m m1 \<Longrightarrow> only_touches a m1 m2 \<Longrightarrow> only_touches a m m2"
  by (auto simp: only_touches_def intro: same_identity_trans)

text \<open>A session the engine has let go of is either sealed or waits for the next callback.\<close>

definition sealed :: "memory \<Rightarrow> addr \<Rightarrow> bool" where
  "sealed m a =
     (Terminal (heap m a) \<and> Handle (heap m a) = None \<and> OAuthState (heap m a) = []
      \<and> \<not> resuming (heap m a))"

definition armed :: "memory \<Rightarrow> addr \<Rightarrow> bool" where
  "armed m a =
     (Status (heap m a) = StatusAuthorizing \<and> OAuthState (heap m a) \<noteq> [] \<and> \<not> resuming (heap m a)
      \<and> map_of (byState m) (OAuthState (heap m a)) = Some (CorrelationID (heap m a)))"

lemma log_simps [simp]:
  "mem (log_info msg attrs st) = mem st" "world (log_info msg attrs st) = world st"
  "mem (log_error msg attrs st) = mem st" "world (log_error msg attrs st) = world st"
  "logs (log_info msg attrs st) = logs st @ [(LInfo, msg, attrs)]"
  "logs (log_error msg attrs st) = logs st @ [(LError, msg, attrs)]"
  by (simp_all add: log_info_def log_error_def)

lemma fail_session_simps [simp]:
  "Status (fail_session s r ev ss) = s" "Reason (fail_session s r ev ss) = r"
  "Evidence (fail_session s r ev ss) = (if ev = None then Evidence ss else ev)"
  "OAuthState (fail_session s r ev ss) = OAuthState ss" "Handle (fail_session s r ev ss) = Handle ss"
  "resuming (fail_session s r ev ss) = resuming ss" "ResultPDF (fail_session s r ev ss) = ResultPDF ss"
  "same_identity ss (fail_session s r ev ss)"
  by (simp_all add: fail_session_def Let_def same_identity_def)

lemma engine_fail_simps [simp]:
  "logs (engine_fail a s r ev st) = logs st" "world (engine_fail a s r ev st) = world st"
  "heap (mem (engine_fail a s r ev st))
   = (heap (mem st))(a := (fail_session s r ev (heap (mem st) a))
        \<lparr>OAuthState := [], Handle := None, resuming := False\<rparr>)"
  "byID (mem (engine_fail a s r ev st)) = byID (mem st)"
  "next_addr (mem (engine_fail a s r ev st)) = next_addr (mem st)"
  "byState (mem (engine_fail a s r ev st)) = byState (delete_state a (mem st))"
  by (simp_all add: engine_fail_def delete_state_Update)

lemma engine_fail_sealed:
  "status_Terminal s \<Longrightarrow> sealed (mem (engine_fail a s r ev st)) a"
  by (simp add: sealed_def Terminal_def)

lemma engine_fail_touches:
  "mem st = m \<Longrightarrow> only_touches a m (mem (engine_fail a s r ev st))"
  by (auto simp: only_touches_def same_identity_def fail_session_def Let_def)

lemma mapFailed_terminal: "mapFailed step = (s, r) \<Longrightarrow> s = StatusDeclined \<or> s = StatusFailed"
  by (auto simp: mapFailed_def Let_def split: if_splits)

text \<open>The five ways out of a round, each with the store it leaves.\<close>

lemma drive_http_stop:
  assumes "drive_http e a res st = (Inl r, st')"
  shows "mem st' = mem (engine_fail a StatusFailed reasonResumeError None st)
    \<or> mem st' = mem (engine_fail a StatusFailed reasonUpstreamError None st)"
  using assms
  by (simp add: drive_http_def Let_def engine_fail_def split: sum.splits prod.splits) auto

lemma drive_http_next:
  assumes "drive_http e a res st = (Inr next, st')"
  shows "mem st' = mem st"
    and "\<exists>w n b. sdk_ResumeHTTP (eSDK e) w (rHandle res) n b = (Inr next, world st')"
proof -
  have "mem st' = mem st \<and> (\<exists>w n b. sdk_ResumeHTTP (eSDK e) w (rHandle res) n b = (Inr next, world st'))"
    using assms by (auto simp: drive_http_def Let_def split: sum.splits prod.splits) blast
  then show "mem st' = mem st"
    "\<exists>w n b. sdk_ResumeHTTP (eSDK e) w (rHandle res) n b = (Inr next, world st')" by simp_all
qed

lemma drive_redirect_armed:
  assumes "drive_redirect e a res st = (r, st')"
  shows "sealed (mem st') a \<or> armed (mem st') a" "only_touches a (mem st) (mem st')"
  using assms
  by (auto simp: drive_redirect_def Let_def armed_def only_touches_def same_identity_def
      byState_SetState fail_session_def stepRedirect_def engine_fail_sealed split: sum.splits if_splits)

lemma drive_done_sealed:
  assumes "drive_done a res st = (r, st')"
  shows "sealed (mem st') a" "only_touches a (mem st) (mem st')"
  using assms
  by (auto simp: drive_done_def Let_def sealed_def Terminal_def only_touches_def same_identity_def
      fail_session_def split: sum.splits)

lemma drive_failed_sealed:
  assumes "drive_failed a res st = (r, st')"
  shows "sealed (mem st') a" "only_touches a (mem st) (mem st')"
proof -
  have trm: "status_Terminal (fst (mapFailed (rStep res)))"
    using mapFailed_terminal [of "rStep res"] by (cases "mapFailed (rStep res)") auto
  show "sealed (mem st') a"
    using assms trm
    by (auto simp: drive_failed_def Let_def engine_fail_sealed split: sum.splits prod.splits)
  show "only_touches a (mem st) (mem st')"
    using assms engine_fail_touches [OF refl]
    by (auto simp: drive_failed_def Let_def split: sum.splits prod.splits)
qed

lemma map_prod_Inl:
  "map_prod Inl id p = (Inl r, s) \<longleftrightarrow> p = (r, s)" "map_prod Inl id p \<noteq> (Inr n, s)"
  by (cases p; simp)+

text \<open>A round that stops lets the session go; a round that goes on has only stored the new handle.\<close>

lemma drive_round_stop:
  assumes "drive_round e a res st = (Inl r, st')"
  shows "sealed (mem st') a \<or> armed (mem st') a" "only_touches a (mem st) (mem st')"
proof -
  let ?st0 = "st\<lparr>mem := Update a (\<lambda>s. s\<lparr>Handle := rHandle res\<rparr>) (mem st)\<rparr>"
  have t0: "only_touches a (mem st) (mem ?st0)" by (simp add: only_touches_def same_identity_def)
  have "(sealed (mem st') a \<or> armed (mem st') a) \<and> only_touches a (mem ?st0) (mem st')"
  proof (cases "stepKind (rStep res) = stepKindPerformHTTP")
    case True
    with assms have "drive_http e a res ?st0 = (Inl r, st')" by (simp add: drive_round_def Let_def)
    from drive_http_stop [OF this] show ?thesis
      using engine_fail_sealed [of StatusFailed a _ None ?st0] engine_fail_touches [of ?st0 _ a StatusFailed _ None]
      by (auto simp: sealed_def)
  next
    case False
    then consider "drive_redirect e a res ?st0 = (r, st')" | "drive_done a res ?st0 = (r, st')"
      | "drive_failed a res ?st0 = (r, st')"
      | "st' = engine_fail a StatusFailed reasonResumeError None ?st0"
      using assms by (auto simp: drive_round_def Let_def map_prod_Inl split: if_splits)
    then show ?thesis
      by cases (auto simp: engine_fail_sealed engine_fail_touches
          dest: drive_redirect_armed drive_done_sealed drive_failed_sealed)
  qed
  with t0 show "sealed (mem st') a \<or> armed (mem st') a" "only_touches a (mem st) (mem st')"
    by (auto intro: only_touches_trans)
qed

lemma drive_round_next:
  assumes "drive_round e a res st = (Inr next, st')"
  shows "mem st' = Update a (\<lambda>s. s\<lparr>Handle := rHandle res\<rparr>) (mem st)"
    and "\<exists>w n b. sdk_ResumeHTTP (eSDK e) w (rHandle res) n b = (Inr next, world st')"
    and "stepKind (rStep res) = stepKindPerformHTTP"
proof -
  have "drive_http e a res (st\<lparr>mem := Update a (\<lambda>s. s\<lparr>Handle := rHandle res\<rparr>) (mem st)\<rparr>) = (Inr next, st')"
    and "stepKind (rStep res) = stepKindPerformHTTP"
    using assms by (auto simp: drive_round_def Let_def map_prod_Inl split: if_splits)
  with drive_http_next [OF this(1)]
  show "mem st' = Update a (\<lambda>s. s\<lparr>Handle := rHandle res\<rparr>) (mem st)"
    "\<exists>w n b. sdk_ResumeHTTP (eSDK e) w (rHandle res) n b = (Inr next, world st')"
    "stepKind (rStep res) = stepKindPerformHTTP"
    by simp_all
qed

text \<open>The loop, by the rounds it made.\<close>

lemma drive_induct [consumes 1, case_names stop step]:
  assumes "drive e a res st = Some (r, st')"
    and stop: "\<And>res st r st'. drive_round e a res st = (Inl r, st') \<Longrightarrow> P res st r st'"
    and step: "\<And>res st next st1 r st'. drive_round e a res st = (Inr next, st1) \<Longrightarrow>
      drive e a next st1 = Some (r, st') \<Longrightarrow> P next st1 r st' \<Longrightarrow> P res st r st'"
  shows "P res st r st'"
proof -
  have "e' = e \<longrightarrow> a' = a \<longrightarrow> P res st (fst y) (snd y) \<and> drive e a res st = Some y"
    if "drive e' a' res st = Some y" for e' a' res st y
    using that
  proof (induction e' a' res st y rule: drive.raw_induct [rotated, consumes 1])
    case (1 drv e' a' res st y)
    obtain x st1 where x: "drive_round e a res st = (x, st1)" by (cases "drive_round e a res st")
    show ?case
    proof (intro impI)
      assume e: "e' = e" "a' = a"
      note unfold = drive.simps [of e a res st]
      show "P res st (fst y) (snd y) \<and> drive e a res st = Some y"
      proof (cases x)
        case (Inl r)
        then have "y = (r, st1)" using 1(2) x e by simp
        then show ?thesis using unfold x Inl stop [of res st r st1] by simp
      next
        case (Inr nxt)
        then have "drv e a nxt st1 = Some y" using 1(2) x e by simp
        then have "P nxt st1 (fst y) (snd y) \<and> drive e a nxt st1 = Some y" using 1(1) by blast
        then show ?thesis using unfold x Inr step [of res st nxt st1 "fst y" "snd y"] by simp
      qed
    qed
  qed
  then show ?thesis using assms(1) by fastforce
qed

section \<open>What a run of the loop leaves behind\<close>

text \<open>
  \<open>reports r s\<close>: what \<open>drive\<close> returned agrees with the session it left. An error means the session
  was failed with \<open>resume_error\<close>; otherwise the status returned is the session's, and a failure's
  reason too.
\<close>

definition reports :: "drive_result \<Rightarrow> session \<Rightarrow> bool" where
  "reports r s =
     (case r of (status, url, reason, err) \<Rightarrow>
        (case err of
           None \<Rightarrow> Status s = status
             \<and> (status = StatusAuthorizing \<longleftrightarrow> \<not> Terminal s)
             \<and> (status \<noteq> StatusAuthorizing \<longrightarrow> url = [])
             \<and> (status = StatusFailed \<or> status = StatusDeclined \<longrightarrow> Reason s = reason)
             \<and> (status = StatusCompleted \<longrightarrow> blen (ResultPDF s) \<noteq> 0)
         | Some _ \<Rightarrow> Status s = StatusFailed \<and> Reason s = reasonResumeError
             \<and> (status = [] \<or> status = StatusFailed) \<and> url = []))"

text \<open>The pending states after letting a session go: its old one is gone, its new one (if any) is there.\<close>

definition state_moved :: "addr \<Rightarrow> memory \<Rightarrow> memory \<Rightarrow> bool" where
  "state_moved a m m' \<longleftrightarrow>
     (\<forall>k. map_of (byState m') k
        = (if k \<noteq> [] \<and> k = OAuthState (heap m' a) then Some (CorrelationID (heap m a))
           else if k \<noteq> [] \<and> k = OAuthState (heap m a) then None
           else map_of (byState m) k))"

lemma reports_failed [simp]:
  "reports (StatusFailed, [], rs, None) (s\<lparr>Status := StatusFailed, Reason := rs\<rparr>)"
  by (simp add: reports_def status_defs Terminal_def status_Terminal_def)

lemma status_neq [simp]:
  "StatusFailed \<noteq> StatusAuthorizing" "StatusAuthorizing \<noteq> StatusFailed"
  "StatusFailed \<noteq> StatusCompleted" "StatusCompleted \<noteq> StatusFailed"
  "StatusDeclined \<noteq> StatusAuthorizing" "StatusAuthorizing \<noteq> StatusDeclined"
  "StatusDeclined \<noteq> StatusCompleted" "StatusCompleted \<noteq> StatusDeclined"
  "StatusDeclined \<noteq> StatusFailed" "StatusFailed \<noteq> StatusDeclined"
  "StatusCompleted \<noteq> StatusAuthorizing" "StatusAuthorizing \<noteq> StatusCompleted"
  "StatusFailed \<noteq> []" "StatusAuthorizing \<noteq> []" "StatusCompleted \<noteq> []" "StatusDeclined \<noteq> []"
  by (simp_all add: status_defs)

lemma engine_fail_moved: "state_moved a (mem st) (mem (engine_fail a s r ev st))"
  by (simp add: state_moved_def engine_fail_def delete_state_Update)

lemma drive_http_reports:
  assumes "drive_http e a res st = (Inl r, st')"
  shows "reports r (heap (mem st') a)" "state_moved a (mem st) (mem st')"
proof -
  have moved: "state_moved a (mem st) (mem (engine_fail a s rs ev st1))"
    if "mem st1 = mem st" for s rs ev and st1 :: "'a gstate"
    using engine_fail_moved [of a st1 s rs ev] that by simp
  show "reports r (heap (mem st') a)"
    using assms
    by (simp add: drive_http_def Let_def split: sum.splits prod.splits) (auto simp: reports_def Terminal_def)
  show "state_moved a (mem st) (mem st')"
    using assms
    by (simp add: drive_http_def Let_def split: sum.splits prod.splits) (auto intro!: moved)
qed

lemma drive_redirect_reports:
  assumes "drive_redirect e a res st = (r, st')"
  shows "reports r (heap (mem st') a)" "state_moved a (mem st) (mem st')"
  using assms
  by (auto simp: drive_redirect_def Let_def reports_def Terminal_def engine_fail_moved
      state_moved_def byState_SetState stepRedirect_def split: sum.splits if_splits)

lemma stepDone_nonempty: "stepDone step = Inr (p, ev) \<Longrightarrow> blen p \<noteq> 0"
  by (auto simp: stepDone_def split: if_splits sum.splits)

lemma drive_done_reports:
  assumes "drive_done a res st = (r, st')"
  shows "reports r (heap (mem st') a)" "state_moved a (mem st) (mem st')"
  using assms stepDone_nonempty [of "rStep res"]
  by (auto simp: drive_done_def Let_def reports_def Terminal_def engine_fail_moved
      state_moved_def delete_state_Update split: sum.splits)

lemma drive_failed_reports:
  assumes "drive_failed a res st = (r, st')"
  shows "reports r (heap (mem st') a)" "state_moved a (mem st) (mem st')"
  using assms mapFailed_terminal [of "rStep res"]
  by (auto simp: drive_failed_def Let_def reports_def Terminal_def engine_fail_moved
      split: sum.splits prod.splits)

lemma drive_round_reports:
  assumes "drive_round e a res st = (Inl r, st')"
  shows "reports r (heap (mem st') a)" "state_moved a (mem st) (mem st')"
proof -
  let ?st0 = "st\<lparr>mem := Update a (\<lambda>s. s\<lparr>Handle := rHandle res\<rparr>) (mem st)\<rparr>"
  have "reports r (heap (mem st') a) \<and> state_moved a (mem ?st0) (mem st')"
  proof (cases "stepKind (rStep res) = stepKindPerformHTTP")
    case True
    with assms have "drive_http e a res ?st0 = (Inl r, st')" by (simp add: drive_round_def Let_def)
    from drive_http_reports [OF this] show ?thesis by simp
  next
    case False
    then consider "drive_redirect e a res ?st0 = (r, st')" | "drive_done a res ?st0 = (r, st')"
      | "drive_failed a res ?st0 = (r, st')"
      | "st' = engine_fail a StatusFailed reasonResumeError None ?st0"
        "r = ([], [], [], Some (ENew (''unexpected step kind '' @ strconv_Quote (stepKind (rStep res)))))"
      using assms by (auto simp: drive_round_def Let_def map_prod_Inl split: if_splits)
    then show ?thesis
    proof cases
      case 4
      then show ?thesis using engine_fail_moved [of a ?st0] by (simp add: reports_def)
    qed (blast dest: drive_redirect_reports drive_done_reports drive_failed_reports)+
  qed
  then show "reports r (heap (mem st') a)" "state_moved a (mem st) (mem st')"
    by (simp_all add: state_moved_def)
qed

text \<open>The facts of the last round hold of the whole loop, because the other rounds only store handles.\<close>

lemma drive_settles:
  assumes "drive e a res st = Some (r, st')"
  shows "sealed (mem st') a \<or> armed (mem st') a" "only_touches a (mem st) (mem st')"
    "reports r (heap (mem st') a)" "state_moved a (mem st) (mem st')"
proof -
  have "(sealed (mem st') a \<or> armed (mem st') a) \<and> only_touches a (mem st) (mem st')
      \<and> reports r (heap (mem st') a) \<and> state_moved a (mem st) (mem st')"
    using assms
  proof (induction rule: drive_induct)
    case (stop res st r st')
    then show ?case using drive_round_stop [OF stop] drive_round_reports [OF stop] by simp
  next
    case (step res st nxt st1 r st')
    note m = drive_round_next(1) [OF step(1)]
    have "only_touches a (mem st) (mem st1)" by (simp add: m only_touches_def same_identity_def)
    moreover have "state_moved a (mem st) (mem st')" using step(3) by (simp add: m state_moved_def)
    ultimately show ?case using step(3) by (auto intro: only_touches_trans)
  qed
  then show "sealed (mem st') a \<or> armed (mem st') a" "only_touches a (mem st) (mem st')"
    "reports r (heap (mem st') a)" "state_moved a (mem st) (mem st')" by simp_all
qed

section \<open>The store's invariant through the loop\<close>

lemma wf_engine_fail: "wf_memory T (mem st) \<Longrightarrow> wf_memory T (mem (engine_fail a s r ev st))"
  by (auto simp: engine_fail_def fail_session_def Let_def intro!: wf_Finalize wf_Update split: if_splits)

lemma wf_drive_http:
  assumes "drive_http e a res st = (x, st')" "wf_memory T (mem st)"
  shows "wf_memory T (mem st')"
proof (cases x)
  case (Inl r)
  with assms(1) have "drive_http e a res st = (Inl r, st')" by simp
  from drive_http_stop [OF this] show ?thesis using wf_engine_fail [OF assms(2)] by metis
next
  case (Inr nxt)
  with assms show ?thesis using drive_http_next(1) [of e a res st nxt st'] by simp
qed

lemma wf_drive_redirect:
  assumes "drive_redirect e a res st = (r, st')" "wf_memory T (mem st)" "indexed (mem st) a"
  shows "wf_memory T (mem st')"
  using assms
  by (auto simp: drive_redirect_def Let_def wf_engine_fail intro!: wf_Update wf_SetState split: sum.splits)

lemma wf_drive_done:
  assumes "drive_done a res st = (r, st')" "wf_memory T (mem st)"
  shows "wf_memory T (mem st')"
  using assms
  by (auto simp: drive_done_def Let_def wf_engine_fail intro!: wf_Finalize wf_Update split: sum.splits)

lemma wf_drive_failed:
  assumes "drive_failed a res st = (r, st')" "wf_memory T (mem st)"
  shows "wf_memory T (mem st')"
  using assms
  by (auto simp: drive_failed_def Let_def wf_engine_fail split: sum.splits prod.splits)

lemma wf_store_handle:
  assumes "wf_memory T m" "indexed m a"
  shows "wf_memory T (Update a (\<lambda>s. s\<lparr>Handle := h\<rparr>) m)" "indexed (Update a (\<lambda>s. s\<lparr>Handle := h\<rparr>) m) a"
  using assms by (auto intro!: wf_Update simp: indexed_def)

lemma wf_drive_round:
  assumes "drive_round e a res st = (x, st')" "wf_memory T (mem st)" "indexed (mem st) a"
  shows "wf_memory T (mem st')"
proof -
  let ?st0 = "st\<lparr>mem := Update a (\<lambda>s. s\<lparr>Handle := rHandle res\<rparr>) (mem st)\<rparr>"
  have wf: "wf_memory T (mem ?st0)" and ix: "indexed (mem ?st0) a"
    using wf_store_handle [OF assms(2,3)] by simp_all
  consider "drive_http e a res ?st0 = (x, st')"
    | r where "drive_redirect e a res ?st0 = (r, st')" | r where "drive_done a res ?st0 = (r, st')"
    | r where "drive_failed a res ?st0 = (r, st')"
    | "st' = engine_fail a StatusFailed reasonResumeError None ?st0"
    using assms(1)
    by (auto simp: drive_round_def Let_def map_prod_def split: if_splits prod.splits)
  then show ?thesis
  proof cases
    case 1 then show ?thesis by (rule wf_drive_http [OF _ wf])
  next
    case 2 then show ?thesis by (rule wf_drive_redirect [OF _ wf ix])
  next
    case 3 then show ?thesis by (rule wf_drive_done [OF _ wf])
  next
    case 4 then show ?thesis by (rule wf_drive_failed [OF _ wf])
  next
    case 5 with wf_engine_fail [OF wf] show ?thesis by simp
  qed
qed

lemma wf_drive:
  assumes "drive e a res st = Some (r, st')" "wf_memory T (mem st)" "indexed (mem st) a"
  shows "wf_memory T (mem st')"
  using assms
proof (induction rule: drive_induct)
  case (stop res st r st')
  then show ?case by (blast intro: wf_drive_round)
next
  case (step res st nxt st1 r st')
  have "indexed (mem st1) a"
    using wf_store_handle(2) [OF step(4,5)] drive_round_next(1) [OF step(1)] by simp
  then show ?case using step wf_drive_round [OF step(1,4,5)] by blast
qed

section \<open>Termination of the loop\<close>

text \<open>
  The code bounds the loop only through the SDK, which emits a handful of effects per leg. The
  documented behaviour is stated as a rank on handles: each resumed effect moves to a handle of
  smaller rank.
\<close>

definition finite_effects :: "'w sdk \<Rightarrow> (gobytes \<Rightarrow> nat) \<Rightarrow> bool" where
  "finite_effects sd rank \<longleftrightarrow>
     (\<forall>w h n b res w'. sdk_ResumeHTTP sd w h n b = (Inr res, w') \<longrightarrow> rank (rHandle res) < rank h)"

lemma drive_terminates_aux:
  assumes fin: "finite_effects (eSDK e) rank"
  shows "\<exists>r st'. drive e a res st = Some (r, st')"
proof (induction "rank (rHandle res)" arbitrary: res st rule: less_induct)
  case less
  obtain x st1 where x: "drive_round e a res st = (x, st1)" by (cases "drive_round e a res st")
  show ?case
  proof (cases x)
    case (Inl r)
    with x have "drive e a res st = Some (r, st1)" by (simp add: drive.simps [of e a res st])
    then show ?thesis by blast
  next
    case (Inr nxt)
    with x have "drive_round e a res st = (Inr nxt, st1)" by simp
    from drive_round_next(2) [OF this] have "rank (rHandle nxt) < rank (rHandle res)"
      using fin unfolding finite_effects_def by blast
    from less [OF this] obtain r st' where "drive e a nxt st1 = Some (r, st')" by blast
    with x Inr have "drive e a res st = Some (r, st')" by (simp add: drive.simps [of e a res st])
    then show ?thesis by blast
  qed
qed

text \<open>The effects a run performed, read off its log.\<close>

definition effects :: "log_entry list \<Rightarrow> nat" where
  "effects ls = length (filter (\<lambda>l. fst (snd l) = ''effect.perform_http'') ls)"

lemma effects_append [simp]: "effects (xs @ ys) = effects xs + effects ys"
  by (simp add: effects_def)

lemma effects_simps [simp]:
  "effects [] = 0"
  "effects (l # ls) = (if fst (snd l) = ''effect.perform_http'' then Suc (effects ls) else effects ls)"
  by (simp_all add: effects_def)

lemma drive_round_effects:
  "drive_round e a res st = (x, st') \<Longrightarrow> effects (logs st') \<le> Suc (effects (logs st))"
  by (auto simp: drive_round_def drive_http_def drive_redirect_def drive_done_def drive_failed_def
      Let_def engine_fail_def split: sum.splits prod.splits if_splits)

lemma drive_effects:
  assumes "drive e a res st = Some (r, st')" and fin: "finite_effects (eSDK e) rank"
  shows "effects (logs st') \<le> effects (logs st) + rank (rHandle res) + 1"
  using assms(1)
proof (induction rule: drive_induct)
  case (stop res st r st')
  then show ?case using drive_round_effects [OF stop] by simp
next
  case (step res st nxt st1 r st')
  have "rank (rHandle nxt) < rank (rHandle res)"
    using drive_round_next(2) [OF step(1)] fin unfolding finite_effects_def by blast
  then show ?case using step(3) drive_round_effects [OF step(1)] by simp
qed

section \<open>The effector as an interface\<close>

text \<open>Two engines whose rounds agree run alike, and so return or diverge together.\<close>

lemma drive_cong_Some:
  assumes "drive e a res st = Some (r, st')" and "\<And>res st. drive_round e a res st = drive_round e' a res st"
  shows "drive e' a res st = Some (r, st')"
  using assms(1)
  by (induction rule: drive_induct) (simp_all add: assms(2) drive.simps [of e' a])

lemma drive_cong:
  assumes "\<And>res st. drive_round e a res st = drive_round e' a res st"
  shows "drive e a res st = drive e' a res st"
proof (cases "drive e a res st")
  case (Some y)
  then show ?thesis using drive_cong_Some [OF _ assms, of res st "fst y" "snd y"] by simp
next
  case None
  show ?thesis
  proof (cases "drive e' a res st")
    case (Some y)
    then have "drive e a res st = Some y"
      using drive_cong_Some [of e' a res st "fst y" "snd y" e] assms by simp
    with None show ?thesis by simp
  qed (simp add: None)
qed

text \<open>
  What the engine relies on in an effector: a response has at most \<open>bound\<close> bytes. Then nothing the
  SDK would do with a longer body matters.
\<close>

locale bounded_effector =
  fixes eff :: "'w effector" and bound :: nat
  assumes bounded: "eff w m u hs b = (Inr (n, r), w') \<Longrightarrow> blen r \<le> bound"
begin

lemma drive_bounded_bodies:
  assumes "eUp e = eff"
    and "\<And>w h n r. blen r \<le> bound \<Longrightarrow> sdk_ResumeHTTP sd w h n r = sdk_ResumeHTTP (eSDK e) w h n r"
  shows "drive (e\<lparr>eSDK := sd\<rparr>) a res st = drive e a res st"
proof (rule drive_cong)
  fix res st
  have "drive_http (e\<lparr>eSDK := sd\<rparr>) a res st = drive_http e a res st" for st
    using assms bounded
    by (auto simp: drive_http_def Let_def split: sum.split prod.split)
  moreover have "drive_redirect (e\<lparr>eSDK := sd\<rparr>) a res st = drive_redirect e a res st" for st
    by (auto simp: drive_redirect_def rewriteRedirect_def Let_def split: sum.split)
  ultimately show "drive_round (e\<lparr>eSDK := sd\<rparr>) a res st = drive_round e a res st"
    by (simp add: drive_round_def Let_def)
qed

end

section \<open>Completing a session\<close>

text \<open>A completion is refused at the claim, or the SDK rejects it, or the loop runs.\<close>

definition claimed :: "'w engine \<Rightarrow> addr \<Rightarrow> 'w gstate \<Rightarrow> 'w gstate" where
  "claimed e a st =
     st\<lparr>mem := clear_state a (Update a (\<lambda>s. s\<lparr>resuming := True\<rparr>) (mem st)),
        world := snd (eClock e (world st))\<rparr>"

definition claimable :: "time \<Rightarrow> session \<Rightarrow> bool" where
  "claimable now s = (\<not> Terminal s \<and> now \<le> ExpiresAt s \<and> \<not> resuming s)"

lemma consume_lost:
  assumes "eClock e (world st) = (now, w)" "\<not> claimable now (heap (mem st) a)"
  shows "consume e a st =
    (Inl (ESentinel (if Terminal (heap (mem st) a) \<or> now > ExpiresAt (heap (mem st) a)
                     then FlowErrTerminal else SessionErrResuming)),
     st\<lparr>mem := expireLocked now a (mem st), world := w\<rparr>)"
  using assms
  by (cases rule: ConsumeForResume_cases [of a now "mem st"])
    (auto simp: consume_def claimable_def expireLocked_def)

lemma consume_won:
  assumes "eClock e (world st) = (now, w)" "claimable now (heap (mem st) a)"
  shows "consume e a st = (Inr (append_nil (Handle (heap (mem st) a))), claimed e a st)"
  using assms
  by (cases rule: ConsumeForResume_cases [of a now "mem st"])
    (auto simp: consume_def claimable_def claimed_def)

lemma complete_with_lost:
  assumes "eClock e (world st) = (now, w)" "\<not> claimable now (heap (mem st) a)"
  shows "complete_with resume e a st = Some
    (([], [], [], Some (ESentinel (if Terminal (heap (mem st) a) \<or> now > ExpiresAt (heap (mem st) a)
                     then FlowErrTerminal else SessionErrResuming))),
     st\<lparr>mem := expireLocked now a (mem st), world := w\<rparr>)"
  by (simp add: complete_with_def consume_lost [OF assms])

lemma complete_with_won:
  assumes "eClock e (world st) = (now, w)" "claimable now (heap (mem st) a)"
  shows "complete_with resume e a st =
    (case resume w (append_nil (Handle (heap (mem st) a))) of
       (Inl err, w1) \<Rightarrow> Some (([], [], [], Some err),
          engine_fail a StatusFailed reasonResumeError None ((claimed e a st)\<lparr>world := w1\<rparr>))
     | (Inr res, w1) \<Rightarrow> drive e a res ((claimed e a st)\<lparr>world := w1\<rparr>))"
  using assms
  by (simp add: complete_with_def consume_won [OF assms] claimed_def Let_def split: sum.split prod.split)

lemma claimed_touches: "only_touches a (mem st) (mem (claimed e a st))"
  by (simp add: claimed_def only_touches_def same_identity_def)

lemma claimed_moved:
  "state_moved a (mem (claimed e a st)) m' \<Longrightarrow> OAuthState (heap (mem (claimed e a st)) a) = []
   \<Longrightarrow> state_moved a (mem st) m'"
  by (auto simp: state_moved_def claimed_def delete_state_Update)

lemma claimed_state [simp]:
  "OAuthState (heap (mem (claimed e a st)) a) = []" "resuming (heap (mem (claimed e a st)) a)"
  by (simp_all add: claimed_def)

lemma wf_claimed:
  assumes wf: "wf_memory T (mem st)" and c: "eClock e (world st) = (now, w)" "T \<le> now"
    and a: "a < next_addr (mem st)" "claimable now (heap (mem st) a)"
  shows "wf_memory now (mem (claimed e a st))" "indexed (mem (claimed e a st)) a"
proof -
  note wf' = wf_mono [OF wf c(2)]
  have ix: "indexed (mem st) a" using wf_live_indexed [OF wf' a(1)] a(2) by (simp add: claimable_def)
  then show "indexed (mem (claimed e a st)) a" by (simp add: indexed_def claimed_def)
  show "wf_memory now (mem (claimed e a st))"
    using wf' ix by (auto simp: claimed_def intro!: wf_clear_state wf_Update)
qed

lemma complete_with_settles:
  assumes run: "complete_with resume e a st = Some (r, st')"
    and won: "eClock e (world st) = (now, w)" "claimable now (heap (mem st) a)"
  shows "sealed (mem st') a \<or> armed (mem st') a" "only_touches a (mem st) (mem st')"
    "reports r (heap (mem st') a)" "state_moved a (mem st) (mem st')"
proof -
  obtain x w1 where x: "resume w (append_nil (Handle (heap (mem st) a))) = (x, w1)"
    by (cases "resume w (append_nil (Handle (heap (mem st) a)))")
  let ?st1 = "(claimed e a st)\<lparr>world := w1\<rparr>"
  have "(sealed (mem st') a \<or> armed (mem st') a) \<and> only_touches a (mem ?st1) (mem st')
      \<and> reports r (heap (mem st') a) \<and> state_moved a (mem ?st1) (mem st')"
  proof (cases x)
    case (Inl err)
    with run x have "r = ([], [], [], Some err)" "st' = engine_fail a StatusFailed reasonResumeError None ?st1"
      by (simp_all add: complete_with_won [OF won])
    then show ?thesis
      using engine_fail_moved [of a ?st1] engine_fail_touches [of ?st1 _ a]
      by (simp add: engine_fail_sealed reports_def)
  next
    case (Inr res)
    with run x have "drive e a res ?st1 = Some (r, st')" by (simp add: complete_with_won [OF won])
    from drive_settles [OF this] show ?thesis by blast
  qed
  then show "sealed (mem st') a \<or> armed (mem st') a" "only_touches a (mem st) (mem st')"
    "reports r (heap (mem st') a)" "state_moved a (mem st) (mem st')"
    using claimed_touches [of a st e] claimed_moved [of a e st "mem st'"]
    by (auto intro: only_touches_trans)
qed

lemma wf_complete_with:
  assumes run: "complete_with resume e a st = Some (r, st')" and wf: "wf_memory T (mem st)"
    and c: "eClock e (world st) = (now, w)" "T \<le> now" and a: "a < next_addr (mem st)"
  shows "wf_memory now (mem st')"
proof (cases "claimable now (heap (mem st) a)")
  case False
  with run show ?thesis
    by (simp add: complete_with_lost [OF c(1)] wf_expireLocked [OF wf c(2)]) (auto intro: wf_expireLocked [OF wf c(2)])
next
  case True
  obtain x w1 where x: "resume w (append_nil (Handle (heap (mem st) a))) = (x, w1)"
    by (cases "resume w (append_nil (Handle (heap (mem st) a)))")
  have "wf_memory now (mem ((claimed e a st)\<lparr>world := w1\<rparr>))"
    "indexed (mem ((claimed e a st)\<lparr>world := w1\<rparr>)) a"
    using wf_claimed [OF wf c a True] by simp_all
  with run x show ?thesis
    by (cases x) (auto simp: complete_with_won [OF c(1) True] intro: wf_engine_fail wf_drive)
qed

lemma complete_with_terminates:
  assumes "finite_effects (eSDK e) rank"
  shows "\<exists>r st'. complete_with resume e a st = Some (r, st')"
proof (cases "eClock e (world st)")
  case (Pair now w)
  show ?thesis
  proof (cases "claimable now (heap (mem st) a)")
    case False
    then show ?thesis by (simp add: complete_with_lost [OF Pair])
  next
    case True
    obtain x w1 where x: "resume w (append_nil (Handle (heap (mem st) a))) = (x, w1)"
      by (cases "resume w (append_nil (Handle (heap (mem st) a)))")
    then show ?thesis
      using drive_terminates_aux [OF assms, of a]
      by (cases x) (auto simp: complete_with_won [OF Pair True])
  qed
qed

section \<open>Beginning a session\<close>

text \<open>What \<open>Begin\<close> stores when the SDK's first step is a well-formed redirect.\<close>

definition begun ::
  "string \<Rightarrow> string \<Rightarrow> string \<Rightarrow> string \<Rightarrow> time \<Rightarrow> time \<Rightarrow> gobytes \<Rightarrow> session" where
  "begun corr state clientState conformance ttl now handle =
     (new_session corr state clientState conformance ttl now)\<lparr>Handle := handle\<rparr>"

definition begin_clock :: "'w engine \<Rightarrow> 'w \<Rightarrow> time \<times> time \<times> 'w" where
  "begin_clock e w = (case eClock e w of (t0, w1) \<Rightarrow> case eClock e w1 of (t1, w2) \<Rightarrow> (t0, t1, w2))"

lemma Begin_ok:
  assumes "sdk_Begin (eSDK e) (world st) doc conf opts = (Inr res, w)"
    and "stepKind (rStep res) = stepKindRedirect" "stepRedirect (rStep res) = Inr (u, state)"
    and "begin_clock e w = (t0, t1, w2)"
  shows "Begin e corr doc conf cs opts st =
    (let m1 = snd (NewSession corr state cs conf (eTTL e) t0 t1 (mem st))
     in (Inr (rewriteRedirect e u, t1 + eTTL e),
         st\<lparr>mem := m1\<lparr>heap := (heap (mem st))(next_addr (mem st) :=
               begun corr state cs conf (eTTL e) t1 (rHandle res))\<rparr>,
            world := w2, logs := logs st @ [(LInfo, ''begin'', [(''correlation_id'', LStr corr)])]\<rparr>))"
  using assms
  by (auto simp: Begin_def begin_clock_def NewSession_unfold Let_def Update_def log_info_def begun_def
      new_session_def split: prod.splits)

lemma Begin_fails:
  assumes "Begin e corr doc conf cs opts st = (Inl err, st')"
  shows "mem st' = mem st" "logs st' = logs st"
  using assms by (auto simp: Begin_def Let_def split: sum.splits prod.splits if_splits)

text \<open>It fails exactly when the SDK fails or does not answer with a well-formed redirect.\<close>

lemma Begin_ok_iff:
  "(\<exists>r st'. Begin e corr doc conf cs opts st = (Inr r, st')) \<longleftrightarrow>
   (\<exists>res u state. fst (sdk_Begin (eSDK e) (world st) doc conf opts) = Inr res
      \<and> stepKind (rStep res) = stepKindRedirect \<and> stepRedirect (rStep res) = Inr (u, state))"
  by (auto simp: Begin_def Let_def split: sum.splits prod.splits if_splits)

lemma Begin_success:
  assumes "Begin e corr doc conf cs opts st = (Inr (url, deadline), st')"
  obtains res u state now where "fst (sdk_Begin (eSDK e) (world st) doc conf opts) = Inr res"
    "stepKind (rStep res) = stepKindRedirect" "stepRedirect (rStep res) = Inr (u, state)" "state \<noteq> []"
    "url = rewriteRedirect e u" "deadline = now + eTTL e"
    "next_addr (mem st') = Suc (next_addr (mem st))"
    "heap (mem st') = (heap (mem st))(next_addr (mem st) := begun corr state cs conf (eTTL e) now (rHandle res))"
    "map_of (byID (mem st')) corr = Some (next_addr (mem st))" "map_of (byState (mem st')) state = Some corr"
proof -
  obtain r w where r: "sdk_Begin (eSDK e) (world st) doc conf opts = (r, w)"
    by (cases "sdk_Begin (eSDK e) (world st) doc conf opts")
  obtain t0 t1 w2 where clk: "begin_clock e w = (t0, t1, w2)" by (cases "begin_clock e w")
  from assms obtain res u state where s: "r = Inr res" "stepKind (rStep res) = stepKindRedirect"
    "stepRedirect (rStep res) = Inr (u, state)"
    using Begin_ok_iff [of e corr doc conf cs opts st] r by fastforce
  have "state \<noteq> []" using s(3) by (auto simp: stepRedirect_def Let_def split: if_splits)
  with Begin_ok [OF r [unfolded s(1)] s(2,3) clk, of corr cs] s r assms that [of res u state t1]
  show thesis by (auto simp: Let_def NewSession_unfold amap.look_put)
qed

lemma wf_begun:
  assumes wf: "wf_memory T m" and le: "T \<le> t0" "t0 \<le> t1" and c: "corr \<noteq> []" "map_of (byID m) corr = None"
  shows "wf_memory t1 ((snd (NewSession corr state cs conf ttl t0 t1 m))\<lparr>heap := (heap m)(next_addr m :=
    begun corr state cs conf ttl t1 h)\<rparr>)" (is "wf_memory t1 ?m")
proof -
  let ?m1 = "snd (NewSession corr state cs conf ttl t0 t1 m)"
  have "wf_memory t1 (Update (next_addr m) (\<lambda>s. s\<lparr>Handle := h\<rparr>) ?m1)"
    using wf_NewSession [OF wf le c, of state cs conf ttl] by (rule wf_Update) auto
  also have "Update (next_addr m) (\<lambda>s. s\<lparr>Handle := h\<rparr>) ?m1 = ?m"
    by (simp add: NewSession_unfold Let_def Update_def begun_def)
  finally show ?thesis .
qed

section \<open>A scripted SDK\<close>

text \<open>
  An engine to apply the theorems to: the world is a clock that ticks on each reading; \<open>begin\<close>
  redirects, a code leads to one effect per byte of the handle and then to the signed PDF, an OAuth
  error leads to a decline.
\<close>

definition demo_redirect :: step_map where
  "demo_redirect = [(''kind'', AStr ''redirect''), (''url'', AStr ''https://idp.test/authorize''),
     (''state'', AStr ''s1'')]"

definition demo_http :: step_map where
  "demo_http = [(''kind'', AStr ''perform_http''), (''method'', AStr ''POST''),
     (''url'', AStr ''https://idp.test/token''),
     (''headers'', AList [AList [AStr ''Accept'', AStr ''application/json'']])]"

definition demo_done :: step_map where
  "demo_done = [(''kind'', AStr ''done''), (''signed'', AMap [(''pdf'', ABytes (Some ''PDF''))])]"

definition demo_declined :: step_map where
  "demo_declined = [(''kind'', AStr ''failed''), (''evidence'', AMap [(''outcome'', AStr ''declined'')])]"

definition demo_sdk :: "int sdk" where
  "demo_sdk =
     \<lparr>sdk_Begin = (\<lambda>w doc conf opts. (Inr \<lparr>rHandle = Some ''ab'', rStep = demo_redirect\<rparr>, w)),
      sdk_ResumeRedirect = (\<lambda>w h code state. (Inr \<lparr>rHandle = h, rStep = demo_http\<rparr>, w)),
      sdk_ResumeRedirectError = (\<lambda>w h err state. (Inr \<lparr>rHandle = h, rStep = demo_declined\<rparr>, w)),
      sdk_ResumeHTTP = (\<lambda>w h n b.
        (case bytes_of h of
           [] \<Rightarrow> Inl (ENew ''no effect pending'')
         | c # cs \<Rightarrow> Inr \<lparr>rHandle = Some cs, rStep = (if cs = [] then demo_done else demo_http)\<rparr>, w)),
      sdk_VerifyPDF = (\<lambda>w d. (Inl (ENew ''unused''), w))\<rparr>"

definition demo_engine :: "int engine" where
  "demo_engine =
     \<lparr>eSDK = demo_sdk, eUp = (\<lambda>w m u hs b. (Inr (200, Some ''ok''), w)), eTTL = 900, eRewrite = None,
      eClock = (\<lambda>w. (w, w + 1))\<rparr>"

text \<open>The same with a network that is down.\<close>

definition demo_offline :: "int engine" where
  "demo_offline = demo_engine\<lparr>eUp := (\<lambda>w m u hs b. (Inl (ENew ''connection refused''), w + 5))\<rparr>"

definition demo_state :: "int gstate" where
  "demo_state = \<lparr>mem = NewMemory, logs = [], world = 0\<rparr>"

text \<open>The state after one \<open>Begin\<close>: session 0, correlation ID c1, pending state s1, deadline 901.\<close>

definition demo_begun :: "int gstate" where
  "demo_begun = snd (Begin demo_engine ''c1'' (Some ''%PDF'') ''B-B'' ''app'' None demo_state)"

lemmas demo_defs = demo_redirect_def demo_http_def demo_done_def demo_declined_def demo_sdk_def
  demo_engine_def demo_offline_def demo_state_def

lemmas step_readers = stepKind_def stepRedirect_def stepHTTP_def mapString_def step_kind_defs Let_def

lemma demo_begun_eq:
  "demo_begun =
    \<lparr>mem = \<lparr>byID = [(''c1'', 0)], byState = [(''s1'', ''c1'')],
        heap = (heap NewMemory)(0 := begun ''c1'' ''s1'' ''app'' ''B-B'' 900 1 (Some ''ab'')), next_addr = 1\<rparr>,
     logs = [(LInfo, ''begin'', [(''correlation_id'', LStr ''c1'')])], world = 2\<rparr>"
  by (simp add: demo_begun_def Begin_def demo_defs step_readers NewSession_unfold NewMemory_def
      evictExpiredLocked_def log_info_def begun_def new_session_def StatusAuthorizing_def Update_def)

lemma demo_wf: "wf_memory 1 (mem demo_begun)"
  by (simp add: demo_begun_eq wf_memory_def id_entry_ok_def state_entry_ok_def dropped_ok_def
      begun_def new_session_def)

lemma demo_claimable: "claimable 2 (heap (mem demo_begun) 0)"
  by (simp add: demo_begun_eq claimable_def begun_def new_session_def Terminal_def)

lemma demo_finite: "finite_effects (eSDK demo_engine) blen"
  by (auto simp: finite_effects_def demo_engine_def demo_sdk_def blen_def split: list.splits)

lemma demo_complete:
  "\<exists>r st'. Complete demo_engine 0 code state demo_begun = Some (r, st')"
  "\<exists>r st'. CompleteError demo_engine 0 oerr state demo_begun = Some (r, st')"
  unfolding Complete_def CompleteError_def by (rule complete_with_terminates [OF demo_finite])+

lemma demo_declines:
  "\<exists>st'. CompleteError demo_engine 0 oerr state demo_begun = Some ((StatusDeclined, [], ''declined'', None), st')
     \<and> OAuthState (heap (mem st') 0) = []"
proof -
  have clk: "eClock demo_engine (world demo_begun) = (2, 3)" by (simp add: demo_engine_def demo_begun_eq)
  have eq: "CompleteError demo_engine 0 oerr state demo_begun
      = drive demo_engine 0 \<lparr>rHandle = append_nil (Handle (heap (mem demo_begun) 0)), rStep = demo_declined\<rparr>
          ((claimed demo_engine 0 demo_begun)\<lparr>world := 3\<rparr>)"
    unfolding CompleteError_def complete_with_won [OF clk demo_claimable]
    by (simp add: demo_engine_def demo_sdk_def)
  obtain b where b: "json_Marshal (AMap [(''outcome'', AStr ''declined'')]) = Inr b" by (simp add: json_Marshal_def)
  have d: "\<exists>st'. drive demo_engine 0 \<lparr>rHandle = h, rStep = demo_declined\<rparr> st
      = Some ((StatusDeclined, [], ''declined'', None), st') \<and> OAuthState (heap (mem st') 0) = []" for h st
    using b by (subst drive.simps) (simp add: drive_round_def drive_failed_def
        mapFailed_def stepEvidence_def demo_declined_def step_readers outcomeDeclined_def)
  show ?thesis unfolding eq by (rule d)
qed

section \<open>Properties\<close>

text \<open>
  C6: a completion that wins the claim lets it go, and one that loses it leaves it alone. If the
  session can be claimed when \<open>Complete\<close> or \<open>CompleteError\<close> tries, then, whatever the SDK and the
  upstream service answer and on whatever branch the call returns, the session is either sealed
  (terminal, no handle, no pending state, unclaimed) or armed (authorizing, unclaimed, and its new
  OAuth state finds it), and what was returned agrees with the session: an error means \<open>failed\<close> with
  \<open>resume_error\<close>, otherwise the status returned is the session's, with its reason if it failed and a
  PDF if it completed. If the session is finished, has run out or is claimed by another call, the call
  returns \<open>ErrTerminal\<close> or \<open>ErrResuming\<close> and does nothing but expire the session.
\<close>

theorem completion_lets_go:
  assumes run: "Complete e a code state st = Some (r, st')
      \<or> CompleteError e a oauthError state st = Some (r, st')"
    and clk: "eClock e (world st) = (now, w)"
  shows "if claimable now (heap (mem st) a)
    then (sealed (mem st') a \<or> armed (mem st') a) \<and> reports r (heap (mem st') a)
    else r = ([], [], [], Some (ESentinel (if Terminal (heap (mem st) a) \<or> now > ExpiresAt (heap (mem st) a)
                                           then FlowErrTerminal else SessionErrResuming)))
      \<and> st' = st\<lparr>mem := expireLocked now a (mem st), world := w\<rparr>"
proof -
  from run obtain resume where c: "complete_with resume e a st = Some (r, st')"
    unfolding Complete_def CompleteError_def by blast
  show ?thesis
  proof (cases "claimable now (heap (mem st) a)")
    case True
    with complete_with_settles [OF c clk True] show ?thesis by simp
  next
    case False
    with c complete_with_lost [OF clk False, of resume] show ?thesis by simp
  qed
qed

theorem completion_lets_go_witness:
  "\<exists>r st'. Complete demo_engine 0 ''code'' ''s1'' demo_begun = Some (r, st')
     \<and> (sealed (mem st') 0 \<or> armed (mem st') 0) \<and> reports r (heap (mem st') 0)"
proof -
  obtain r st' where run: "Complete demo_engine 0 ''code'' ''s1'' demo_begun = Some (r, st')"
    using demo_complete(1) by blast
  have "eClock demo_engine (world demo_begun) = (2, 3)" by (simp add: demo_engine_def demo_begun_eq)
  from completion_lets_go [OF disjI1 [OF run] this] demo_claimable run show ?thesis by auto
qed

text \<open>
  A completion the store refuses performs nothing. When the session is terminal, expired or
  being resumed by somebody else, both entries return at once with \<open>ErrTerminal\<close> or the store's
  \<open>ErrResuming\<close>; no SDK or upstream call is made (the world only ticks), nothing is logged, and the
  store changes at most by the expiry of the session.
\<close>

theorem refused_completion_performs_nothing:
  assumes "eClock e (world st) = (now, w)" "\<not> claimable now (heap (mem st) a)"
  shows "Complete e a code state st = CompleteError e a oauthError state st
    \<and> Complete e a code state st = Some
       (([], [], [], Some (ESentinel (if Terminal (heap (mem st) a) \<or> now > ExpiresAt (heap (mem st) a)
                                      then FlowErrTerminal else SessionErrResuming))),
        st\<lparr>mem := expireLocked now a (mem st), world := w\<rparr>)"
  unfolding Complete_def CompleteError_def by (simp add: complete_with_lost [OF assms])

theorem refused_completion_performs_nothing_witness:
  "fst (the (Complete demo_engine 0 ''code'' ''s1''
      (demo_begun\<lparr>mem := (mem demo_begun)\<lparr>heap := (heap (mem demo_begun))
        (0 := (heap (mem demo_begun) 0)\<lparr>resuming := True\<rparr>)\<rparr>\<rparr>)))
   = ([], [], [], Some (ESentinel SessionErrResuming))"
proof -
  let ?st = "demo_begun\<lparr>mem := (mem demo_begun)\<lparr>heap := (heap (mem demo_begun))
        (0 := (heap (mem demo_begun) 0)\<lparr>resuming := True\<rparr>)\<rparr>\<rparr>"
  have "eClock demo_engine (world ?st) = (2, 3)" "\<not> claimable 2 (heap (mem ?st) 0)"
    by (simp_all add: demo_engine_def demo_begun_eq claimable_def)
  from refused_completion_performs_nothing [OF this] show ?thesis
    by (simp add: demo_begun_eq begun_def new_session_def Terminal_def)
qed

text \<open>
  C12: completing one session leaves every other one alone. Whether the completion is refused, fails
  or succeeds, the index by correlation ID and all other sessions are unchanged, the session keeps
  its identity (correlation ID, client state, deadline, conformance level), and every pending OAuth
  state but the one this session gave up and the one it now waits for still leads where it led.
\<close>

theorem completion_isolated:
  assumes run: "Complete e a code state st = Some (r, st')
      \<or> CompleteError e a oauthError state st = Some (r, st')"
  shows "byID (mem st') = byID (mem st)
    \<and> (\<forall>b. b = a \<or> heap (mem st') b = heap (mem st) b)
    \<and> same_identity (heap (mem st) a) (heap (mem st') a)
    \<and> (\<forall>k. k = OAuthState (heap (mem st) a) \<or> k = OAuthState (heap (mem st') a)
          \<or> map_of (byState (mem st')) k = map_of (byState (mem st)) k)"
proof -
  obtain now w where clk: "eClock e (world st) = (now, w)" by (cases "eClock e (world st)")
  from run obtain resume where cw: "complete_with resume e a st = Some (r, st')"
    unfolding Complete_def CompleteError_def by blast
  show ?thesis
  proof (cases "claimable now (heap (mem st) a)")
    case True
    from complete_with_settles [OF cw clk True] show ?thesis
      by (auto simp: only_touches_def state_moved_def)
  next
    case False
    from cw have "st' = st\<lparr>mem := expireLocked now a (mem st), world := w\<rparr>"
      by (simp add: complete_with_lost [OF clk False])
    then show ?thesis by (auto simp: same_identity_def byState_expireLocked expire_session_def)
  qed
qed

theorem completion_isolated_witness:
  "\<exists>r st'. CompleteError demo_engine 0 ''access_denied'' ''s1'' demo_begun = Some (r, st')
     \<and> byID (mem st') = [(''c1'', 0)] \<and> heap (mem st') 7 = zero_session"
proof -
  obtain r st' where run: "CompleteError demo_engine 0 ''access_denied'' ''s1'' demo_begun = Some (r, st')"
    using demo_complete(2) by blast
  from completion_isolated [OF disjI2 [OF run]]
  have "byID (mem st') = byID (mem demo_begun)"
    and "(7::nat) = 0 \<or> heap (mem st') 7 = heap (mem demo_begun) 7" by blast+
  then have "byID (mem st') = [(''c1'', 0)]" "heap (mem st') 7 = zero_session"
    by (auto simp: demo_begun_eq NewMemory_def)
  with run show ?thesis by blast
qed

text \<open>
  C15: an OAuth state works once. After a completion that claimed its session, the state the session
  was waiting for leads nowhere any more (unless the SDK's next redirect asks for the very same
  state), so repeating the callback finds no session.
\<close>

theorem used_state_is_dead:
  assumes run: "Complete e a code state st = Some (r, st')
      \<or> CompleteError e a oauthError state st = Some (r, st')"
    and won: "eClock e (world st) = (now, w)" "claimable now (heap (mem st) a)"
    and k: "OAuthState (heap (mem st) a) = k" "k \<noteq> []" "OAuthState (heap (mem st') a) \<noteq> k"
  shows "GetByState k later (mem st') = (Inl SessionErrNotFound, mem st')"
proof -
  from run obtain resume where "complete_with resume e a st = Some (r, st')"
    unfolding Complete_def CompleteError_def by blast
  from complete_with_settles(4) [OF this won] k have "map_of (byState (mem st')) k = None"
    by (auto simp: state_moved_def)
  then show ?thesis by (simp add: GetByState_def map_str_def)
qed

theorem used_state_is_dead_witness:
  "\<exists>r st'. CompleteError demo_engine 0 ''access_denied'' ''s1'' demo_begun = Some (r, st')
     \<and> GetByState ''s1'' 5 (mem st') = (Inl SessionErrNotFound, mem st')"
proof -
  obtain st' where run: "CompleteError demo_engine 0 ''access_denied'' ''s1'' demo_begun
      = Some ((StatusDeclined, [], ''declined'', None), st')" and o: "OAuthState (heap (mem st') 0) = []"
    using demo_declines by blast
  have clk: "eClock demo_engine (world demo_begun) = (2, 3)" by (simp add: demo_engine_def demo_begun_eq)
  have k: "OAuthState (heap (mem demo_begun) 0) = ''s1''" by (simp add: demo_begun_eq begun_def new_session_def)
  from used_state_is_dead [OF disjI2 [OF run] clk demo_claimable k] o run show ?thesis by auto
qed

text \<open>
  The engine keeps the store's invariant. From a well-formed store (the indexes agree with the
  sessions, a dropped session is dead), \<open>Complete\<close> and \<open>CompleteError\<close> leave a well-formed store,
  whatever the SDK and the upstream service do.
\<close>

theorem completion_keeps_store:
  assumes run: "Complete e a code state st = Some (r, st')
      \<or> CompleteError e a oauthError state st = Some (r, st')"
    and wf: "wf_memory T (mem st)" and clk: "eClock e (world st) = (now, w)" "T \<le> now"
    and a: "a < next_addr (mem st)"
  shows "wf_memory now (mem st')"
  using run wf_complete_with [OF _ wf clk a] unfolding Complete_def CompleteError_def by blast

theorem completion_keeps_store_witness:
  "\<exists>r st'. Complete demo_engine 0 ''code'' ''s1'' demo_begun = Some (r, st') \<and> wf_memory 2 (mem st')"
proof -
  obtain r st' where run: "Complete demo_engine 0 ''code'' ''s1'' demo_begun = Some (r, st')"
    using demo_complete(1) by blast
  have "eClock demo_engine (world demo_begun) = (2, 3)" "(1::int) \<le> 2" "0 < next_addr (mem demo_begun)"
    by (simp_all add: demo_engine_def demo_begun_eq)
  from completion_keeps_store [OF disjI1 [OF run] demo_wf this] run show ?thesis by blast
qed

text \<open>
  C23: the loop ends. If each resumed effect brings the SDK to a handle of smaller rank, \<open>drive\<close>
  returns from every step, and it performs at most one effect more than the rank of the handle it
  started with; \<open>Complete\<close> and \<open>CompleteError\<close> return as well.
\<close>

theorem drive_returns:
  assumes fin: "finite_effects (eSDK e) rank"
  shows "(\<exists>r st'. drive e a res st = Some (r, st')
           \<and> effects (logs st') \<le> effects (logs st) + rank (rHandle res) + 1)
    \<and> Complete e a code state st \<noteq> None \<and> CompleteError e a oauthError state st \<noteq> None"
proof (intro conjI)
  obtain r st' where "drive e a res st = Some (r, st')" using drive_terminates_aux [OF fin] by blast
  with drive_effects [OF this fin]
  show "\<exists>r st'. drive e a res st = Some (r, st')
      \<and> effects (logs st') \<le> effects (logs st) + rank (rHandle res) + 1" by blast
  show "Complete e a code state st \<noteq> None" "CompleteError e a oauthError state st \<noteq> None"
    using complete_with_terminates [OF fin] unfolding Complete_def CompleteError_def
    by (metis option.distinct(1))+
qed

theorem drive_returns_witness:
  "Complete demo_engine 0 ''code'' ''s1'' demo_begun \<noteq> None"
  using drive_returns [OF demo_finite] by blast

text \<open>
  An upstream failure ends the session. When a well-formed effect fails in transport (an error
  from the effector, whatever it is), \<open>drive\<close> returns \<open>failed\<close> with \<open>upstream_error\<close> and no error,
  the session is sealed with that status and reason, and the SDK is not resumed: the world is the
  one the effector left. The log has the two entries of the effect, with redacted URLs.
\<close>

theorem upstream_failure_fails_session:
  assumes kind: "stepKind (rStep res) = stepKindPerformHTTP" and ef: "stepHTTP (rStep res) = Inr ef"
    and net: "eUp e (world st) (effectMethod ef) (rawURL ef) (headers ef) (body ef) = (Inl err, w)"
  shows "\<exists>st'. drive e a res st = Some ((StatusFailed, [], ''upstream_error'', None), st')
    \<and> sealed (mem st') a \<and> Status (heap (mem st') a) = StatusFailed
    \<and> Reason (heap (mem st') a) = ''upstream_error''
    \<and> world st' = w
    \<and> logs st' = logs st @
       [(LInfo, ''effect.perform_http'', [(''method'', LStr (effectMethod ef)), (''url'', LStr (redact (rawURL ef)))]),
        (LError, ''effect.http_error'', [(''url'', LStr (redact (rawURL ef))), (''err'', LStr (error_text err))])]"
  using net
  by (simp add: drive.simps [of e a res st] drive_round_def drive_http_def kind ef Let_def
      reasonUpstreamError_def sealed_def Terminal_def log_info_def log_error_def engine_fail_def)

theorem upstream_failure_fails_session_witness:
  "\<exists>st'. drive demo_offline 0 \<lparr>rHandle = Some ''h'', rStep = demo_http\<rparr> demo_begun
       = Some ((StatusFailed, [], ''upstream_error'', None), st') \<and> world st' = 7"
proof -
  let ?ef = "\<lparr>effectMethod = ''POST'', rawURL = ''https://idp.test/token'',
      headers = [(''Accept'', ''application/json'')], body = None\<rparr>"
  have "stepKind demo_http = stepKindPerformHTTP" "stepHTTP demo_http = Inr ?ef"
    by (simp_all add: demo_http_def step_readers List.map_filter_def)
  moreover have "eUp demo_offline (world demo_begun) (effectMethod ?ef) (rawURL ?ef) (headers ?ef) (body ?ef)
      = (Inl (ENew ''connection refused''), 7)"
    by (simp add: demo_offline_def demo_engine_def demo_begun_eq)
  ultimately show ?thesis
    using upstream_failure_fails_session [of "\<lparr>rHandle = Some ''h'', rStep = demo_http\<rparr>" ?ef demo_offline
        demo_begun "ENew ''connection refused''" 7 0] by auto
qed

text \<open>
  C26: what a final step makes of the session. On a \<open>done\<close> step the session completes with exactly
  the step's PDF and serialised evidence, unless the PDF is missing or empty or the evidence cannot
  be serialised, which fails it with \<open>resume_error\<close> and an error. In both cases it is sealed.
\<close>

theorem done_step_outcome:
  assumes "stepKind (rStep res) = stepKindDone"
  shows "\<exists>r st'. drive e a res st = Some (r, st') \<and> sealed (mem st') a
    \<and> (case (blen (step_pdf (rStep res)) = 0, stepEvidence (rStep res)) of
         (False, Inr ev) \<Rightarrow>
           r = (StatusCompleted, [], [], None) \<and> Status (heap (mem st') a) = StatusCompleted
           \<and> ResultPDF (heap (mem st') a) = step_pdf (rStep res) \<and> Evidence (heap (mem st') a) = ev
       | _ \<Rightarrow>
           (\<exists>err. r = (StatusFailed, [], ''resume_error'', Some err))
           \<and> Status (heap (mem st') a) = StatusFailed \<and> Reason (heap (mem st') a) = ''resume_error''
           \<and> ResultPDF (heap (mem st') a) = ResultPDF (heap (mem st) a))"
  using assms
  by (simp add: drive.simps [of e a res st] drive_round_def drive_done_def stepDone_def step_kind_defs
      sealed_def Terminal_def Let_def reasonResumeError_def map_prod_def split: sum.split)

theorem done_step_outcome_witness:
  "\<exists>r st'. drive demo_engine 0 \<lparr>rHandle = None, rStep = demo_done\<rparr> demo_begun = Some (r, st')
     \<and> r = (StatusCompleted, [], [], None) \<and> ResultPDF (heap (mem st') 0) = Some ''PDF''"
  using done_step_outcome [of "\<lparr>rHandle = None, rStep = demo_done\<rparr>" demo_engine 0 demo_begun]
  by (simp add: demo_done_def step_readers step_pdf_def stepEvidence_def) blast

text \<open>
  C27: how a failed step is reported and stored. A \<open>failed\<close> step whose evidence carries the outcome
  \<open>declined\<close> declines the session; any other outcome fails it with that outcome as the reason,
  verbatim; without evidence, with evidence that is not an object, or with a missing or empty outcome
  the reason is \<open>unknown\<close>. The session is sealed with exactly the status and the reason returned, and
  the evidence is kept as JSON if the step has any.
\<close>

theorem failed_step_outcome:
  assumes kind: "stepKind (rStep res) = ''failed''"
    and ev: "case map_of (rStep res) ''evidence'' of None \<Rightarrow> b = None | Some v \<Rightarrow> (\<exists>t. json_Marshal v = Inr t \<and> b = Some t)"
    and outcome: "outcome = (case map_of (rStep res) ''evidence'' of Some (AMap m) \<Rightarrow> mapString m ''outcome'' | _ \<Rightarrow> [])"
    and as: "(status, reason) = (if outcome = ''declined'' then (''declined'', ''declined'')
                                 else (''failed'', if outcome = [] then ''unknown'' else outcome))"
  shows "\<exists>st'. drive e a res st = Some ((status, [], reason, None), st')
    \<and> sealed (mem st') a \<and> Status (heap (mem st') a) = status \<and> Reason (heap (mem st') a) = reason
    \<and> Evidence (heap (mem st') a) = (if b = None then Evidence (heap (mem st) a) else b)
    \<and> ResultPDF (heap (mem st') a) = ResultPDF (heap (mem st) a) \<and> world st' = world st"
proof -
  let ?st0 = "st\<lparr>mem := Update a (\<lambda>s. s\<lparr>Handle := rHandle res\<rparr>) (mem st)\<rparr>"
  have e: "stepEvidence (rStep res) = Inr b"
    using ev by (auto simp: stepEvidence_def split: option.splits)
  have f: "mapFailed (rStep res) = (status, reason)"
    using as unfolding outcome
    by (simp add: mapFailed_def outcomeDeclined_def reasonUnknown_def StatusDeclined_def StatusFailed_def Let_def)
  have s: "status = StatusDeclined \<or> status = StatusFailed"
    using as by (auto simp: StatusDeclined_def StatusFailed_def split: if_splits)
  have "drive e a res st = Some ((status, [], reason, None),
      log_info ''transition.failed'' [(''reason'', LStr reason)] (engine_fail a status reason b ?st0))"
    using kind by (simp add: drive.simps [of e a res st] drive_round_def drive_failed_def step_kind_defs e f)
  then show ?thesis
    using s by (auto simp: engine_fail_def sealed_def Terminal_def fail_session_def Let_def)
qed

theorem failed_step_outcome_witness:
  "(\<exists>st'. drive demo_engine 0 \<lparr>rHandle = None, rStep = demo_declined\<rparr> demo_begun
      = Some ((''declined'', [], ''declined'', None), st') \<and> Reason (heap (mem st') 0) = ''declined'')
   \<and> (\<exists>st'. drive demo_engine 0 \<lparr>rHandle = None, rStep = [(''kind'', AStr ''failed'')]\<rparr> demo_begun
      = Some ((''failed'', [], ''unknown'', None), st') \<and> Reason (heap (mem st') 0) = ''unknown'')"
proof -
  obtain b where b: "json_Marshal (AMap [(''outcome'', AStr ''declined'')]) = Inr b"
    by (simp add: json_Marshal_def)
  have k: "stepKind demo_declined = ''failed''"
    and ev: "map_of demo_declined ''evidence'' = Some (AMap [(''outcome'', AStr ''declined'')])"
    by (simp_all add: demo_declined_def step_readers)
  have o: "mapString [(''outcome'', AStr ''declined'')] ''outcome'' = ''declined''" by (simp add: mapString_def)
  let ?r1 = "\<lparr>rHandle = None, rStep = demo_declined\<rparr>" and ?r2 = "\<lparr>rHandle = None, rStep = [(''kind'', AStr ''failed'')]\<rparr>"
  have "stepKind (rStep ?r1) = ''failed''"
    "case map_of (rStep ?r1) ''evidence'' of None \<Rightarrow> Some b = None | Some v \<Rightarrow> (\<exists>t. json_Marshal v = Inr t \<and> Some b = Some t)"
    "''declined'' = (case map_of (rStep ?r1) ''evidence'' of Some (AMap m) \<Rightarrow> mapString m ''outcome'' | _ \<Rightarrow> [])"
    "(''declined'', ''declined'') = (if ''declined'' = ''declined'' then (''declined'', ''declined'')
       else (''failed'', if ''declined'' = [] then ''unknown'' else ''declined''))"
    using k ev o b by simp_all
  from failed_step_outcome [OF this, of demo_engine 0 demo_begun]
  have 1: "\<exists>st'. drive demo_engine 0 ?r1 demo_begun
      = Some ((''declined'', [], ''declined'', None), st') \<and> Reason (heap (mem st') 0) = ''declined''" by blast
  have "stepKind (rStep ?r2) = ''failed''"
    "case map_of (rStep ?r2) ''evidence'' of None \<Rightarrow> None = None | Some v \<Rightarrow> (\<exists>t. json_Marshal v = Inr t \<and> None = Some t)"
    "[] = (case map_of (rStep ?r2) ''evidence'' of Some (AMap m) \<Rightarrow> mapString m ''outcome'' | _ \<Rightarrow> [])"
    "(''failed'', ''unknown'') = (if [] = ''declined'' then (''declined'', ''declined'')
       else (''failed'', if [] = [] then ''unknown'' else []))"
    by (simp_all add: stepKind_def mapString_def)
  from failed_step_outcome [OF this, of demo_engine 0 demo_begun]
  have 2: "\<exists>st'. drive demo_engine 0 ?r2 demo_begun
      = Some ((''failed'', [], ''unknown'', None), st') \<and> Reason (heap (mem st') 0) = ''unknown''" by blast
  from 1 2 show ?thesis ..
qed

text \<open>What the loop does with a step it cannot use.\<close>

lemma drive_round_unusable:
  assumes kind: "kind = mapString (rStep res) ''kind''"
    and unusable: "kind \<notin> {''perform_http'', ''redirect'', ''done'', ''failed''}
    \<or> kind = ''perform_http'' \<and> (mapString (rStep res) ''method'' = [] \<or> mapString (rStep res) ''url'' = [])
    \<or> kind = ''redirect'' \<and> (mapString (rStep res) ''url'' = [] \<or> mapString (rStep res) ''state'' = [])
    \<or> kind = ''done'' \<and> (\<nexists>signed pdf. map_of (rStep res) ''signed'' = Some (AMap signed)
         \<and> map_of signed ''pdf'' = Some (ABytes (Some pdf)) \<and> pdf \<noteq> [])
    \<or> kind \<in> {''done'', ''failed''} \<and> (\<exists>v. map_of (rStep res) ''evidence'' = Some v \<and> isl (json_Marshal v))"
  shows "\<exists>err st'. drive_round e a res st
      = (Inl (if kind \<in> {''done'', ''failed''} then (''failed'', [], ''resume_error'', Some err) else ([], [], [], Some err)), st')
    \<and> mem st' = mem (engine_fail a StatusFailed reasonResumeError None
        (st\<lparr>mem := Update a (\<lambda>s. s\<lparr>Handle := rHandle res\<rparr>) (mem st)\<rparr>)) \<and> world st' = world st"
proof -
  let ?st0 = "st\<lparr>mem := Update a (\<lambda>s. s\<lparr>Handle := rHandle res\<rparr>) (mem st)\<rparr>"
  have k: "stepKind (rStep res) = kind" by (simp add: kind stepKind_def)
  have pdf: "blen (step_pdf (rStep res)) = 0"
    if "\<nexists>signed pdf. map_of (rStep res) ''signed'' = Some (AMap signed)
         \<and> map_of signed ''pdf'' = Some (ABytes (Some pdf)) \<and> pdf \<noteq> []"
    using that by (cases "step_pdf (rStep res)") (auto simp: step_pdf_def split: option.splits any.splits)
  have ev: "\<exists>err. stepEvidence (rStep res) = Inl err"
    if "map_of (rStep res) ''evidence'' = Some v" "isl (json_Marshal v)" for v
    using that by (auto simp: stepEvidence_def isl_def)
  have fin: "\<exists>err. stepDone (rStep res) = Inl err"
    if "blen (step_pdf (rStep res)) = 0 \<or> (\<exists>err. stepEvidence (rStep res) = Inl err)"
    using that by (auto simp: stepDone_def)
  show ?thesis
    using unusable
  proof (elim disjE conjE exE)
    assume "kind \<notin> {''perform_http'', ''redirect'', ''done'', ''failed''}"
    then show ?thesis by (simp add: drive_round_def k step_kind_defs)
  next
    assume "kind = ''perform_http''" "mapString (rStep res) ''method'' = []"
    then show ?thesis by (simp add: drive_round_def k step_kind_defs drive_http_def stepHTTP_def Let_def)
  next
    assume "kind = ''perform_http''" "mapString (rStep res) ''url'' = []"
    then show ?thesis by (simp add: drive_round_def k step_kind_defs drive_http_def stepHTTP_def Let_def)
  next
    assume "kind = ''redirect''" "mapString (rStep res) ''url'' = []"
    then show ?thesis by (simp add: drive_round_def k step_kind_defs drive_redirect_def stepRedirect_def Let_def)
  next
    assume "kind = ''redirect''" "mapString (rStep res) ''state'' = []"
    then show ?thesis by (simp add: drive_round_def k step_kind_defs drive_redirect_def stepRedirect_def Let_def)
  next
    assume d: "kind = ''done''" "\<nexists>signed pdf. map_of (rStep res) ''signed'' = Some (AMap signed)
         \<and> map_of signed ''pdf'' = Some (ABytes (Some pdf)) \<and> pdf \<noteq> []"
    obtain err where "stepDone (rStep res) = Inl err" using fin pdf [OF d(2)] by blast
    with d(1) show ?thesis
      by (simp add: drive_round_def k step_kind_defs drive_done_def StatusFailed_def reasonResumeError_def Let_def)
  next
    fix v assume d: "kind \<in> {''done'', ''failed''}" "map_of (rStep res) ''evidence'' = Some v" "isl (json_Marshal v)"
    obtain err where "stepEvidence (rStep res) = Inl err" using ev [OF d(2,3)] by blast
    moreover from this obtain err2 where "stepDone (rStep res) = Inl err2" using fin by blast
    ultimately show ?thesis
      using d(1) by (auto simp: drive_round_def k step_kind_defs drive_done_def drive_failed_def StatusFailed_def
          reasonResumeError_def Let_def split: prod.split)
  qed
qed

text \<open>
  C25: a step the engine cannot use fails closed. A step is unusable if its kind is unknown, if it is
  a perform_http step without method or URL, a redirect step without URL or state, a done step without
  a signed PDF or with an empty one, or a done or failed step whose evidence has no JSON form. Then
  \<open>drive\<close> returns an error at once and no URL, after failing and sealing the session with
  \<open>resume_error\<close>: no document and no evidence is stored, no effect is performed and the SDK is not
  called. The status returned is \<open>failed\<close> for a done or failed step, empty otherwise.
\<close>

theorem unusable_step_fails_closed:
  assumes kind: "kind = mapString (rStep res) ''kind''"
    and unusable: "kind \<notin> {''perform_http'', ''redirect'', ''done'', ''failed''}
    \<or> kind = ''perform_http'' \<and> (mapString (rStep res) ''method'' = [] \<or> mapString (rStep res) ''url'' = [])
    \<or> kind = ''redirect'' \<and> (mapString (rStep res) ''url'' = [] \<or> mapString (rStep res) ''state'' = [])
    \<or> kind = ''done'' \<and> (\<nexists>signed pdf. map_of (rStep res) ''signed'' = Some (AMap signed)
         \<and> map_of signed ''pdf'' = Some (ABytes (Some pdf)) \<and> pdf \<noteq> [])
    \<or> kind \<in> {''done'', ''failed''} \<and> (\<exists>v. map_of (rStep res) ''evidence'' = Some v \<and> isl (json_Marshal v))"
  shows "\<exists>err st'. drive e a res st
      = Some ((if kind \<in> {''done'', ''failed''} then (''failed'', [], ''resume_error'', Some err) else ([], [], [], Some err)), st')
    \<and> sealed (mem st') a \<and> Status (heap (mem st') a) = ''failed'' \<and> Reason (heap (mem st') a) = ''resume_error''
    \<and> ResultPDF (heap (mem st') a) = ResultPDF (heap (mem st) a)
    \<and> Evidence (heap (mem st') a) = Evidence (heap (mem st) a) \<and> world st' = world st"
proof -
  let ?st1 = "engine_fail a StatusFailed reasonResumeError None (st\<lparr>mem := Update a (\<lambda>s. s\<lparr>Handle := rHandle res\<rparr>) (mem st)\<rparr>)"
  from drive_round_unusable [OF kind unusable, of e a st] obtain err st' where r: "drive_round e a res st
      = (Inl (if kind \<in> {''done'', ''failed''} then (''failed'', [], ''resume_error'', Some err) else ([], [], [], Some err)), st')"
    "mem st' = mem ?st1" "world st' = world st" by blast
  have "drive e a res st
      = Some ((if kind \<in> {''done'', ''failed''} then (''failed'', [], ''resume_error'', Some err) else ([], [], [], Some err)), st')"
    using r(1) by (simp add: drive.simps [of e a res st])
  moreover have "sealed (mem st') a \<and> Status (heap (mem st') a) = ''failed'' \<and> Reason (heap (mem st') a) = ''resume_error''
      \<and> ResultPDF (heap (mem st') a) = ResultPDF (heap (mem st) a)
      \<and> Evidence (heap (mem st') a) = Evidence (heap (mem st) a)"
    unfolding r(2)
    by (simp add: engine_fail_def sealed_def Terminal_def fail_session_def Let_def StatusFailed_def status_Terminal_def
        reasonResumeError_def)
  ultimately show ?thesis using r(3) by blast
qed

theorem unusable_step_fails_closed_witness:
  "\<exists>err st'. drive demo_engine 0 \<lparr>rHandle = None, rStep = [(''kind'', AStr ''done''),
       (''signed'', AMap [(''pdf'', ABytes (Some []))])]\<rparr>
       demo_begun = Some ((''failed'', [], ''resume_error'', Some err), st') \<and> sealed (mem st') 0"
  using unusable_step_fails_closed [OF refl, of "\<lparr>rHandle = None, rStep = [(''kind'', AStr ''done''),
       (''signed'', AMap [(''pdf'', ABytes (Some []))])]\<rparr>" demo_engine 0 demo_begun]
  by (simp add: mapString_def) blast

text \<open>
  What \<open>Begin\<close> promises. It succeeds exactly when the SDK starts with a well-formed redirect;
  then it creates one authorizing session, under a new address, with the request's identifiers, the
  SDK's handle, its OAuth state indexed and a deadline of creation time plus TTL, and returns that
  same deadline and the rewritten URL; older sessions are as they were. Otherwise the store and the
  log are unchanged.
\<close>

theorem Begin_creates_session:
  "case Begin e corr doc conf cs opts st of
     (Inl err, st') \<Rightarrow> mem st' = mem st \<and> logs st' = logs st
       \<and> (case fst (sdk_Begin (eSDK e) (world st) doc conf opts) of
            Inl _ \<Rightarrow> True
          | Inr res \<Rightarrow> stepKind (rStep res) \<noteq> stepKindRedirect \<or> isl (stepRedirect (rStep res)))
   | (Inr (url, deadline), st') \<Rightarrow>
       (\<exists>res u state now. fst (sdk_Begin (eSDK e) (world st) doc conf opts) = Inr res
          \<and> stepKind (rStep res) = stepKindRedirect \<and> stepRedirect (rStep res) = Inr (u, state)
          \<and> url = rewriteRedirect e u \<and> deadline = now + eTTL e
          \<and> next_addr (mem st') = Suc (next_addr (mem st))
          \<and> heap (mem st') = (heap (mem st))(next_addr (mem st) :=
              \<lparr>CorrelationID = corr, OAuthState = state, ClientState = cs, Handle = rHandle res,
               Status = StatusAuthorizing, Reason = [], Conformance = conf, ResultPDF = None,
               Evidence = None, CreatedAt = now, ExpiresAt = deadline, resuming = False\<rparr>)
          \<and> map_of (byID (mem st')) corr = Some (next_addr (mem st))
          \<and> map_of (byState (mem st')) state = Some corr)"
proof (cases "Begin e corr doc conf cs opts st")
  case (Pair x st')
  obtain r w where r: "sdk_Begin (eSDK e) (world st) doc conf opts = (r, w)"
    by (cases "sdk_Begin (eSDK e) (world st) doc conf opts")
  show ?thesis
  proof (cases x)
    case (Inl err)
    with Pair have f: "Begin e corr doc conf cs opts st = (Inl err, st')" by simp
    then have n: "\<nexists>r s. Begin e corr doc conf cs opts st = (Inr r, s)" by simp
    have "case r of Inl _ \<Rightarrow> True
        | Inr res \<Rightarrow> stepKind (rStep res) \<noteq> stepKindRedirect \<or> isl (stepRedirect (rStep res))"
    proof (cases r)
      case (Inr res)
      then show ?thesis
        using n r Begin_ok_iff [of e corr doc conf cs opts st]
        by (cases "stepRedirect (rStep res)") auto
    qed simp
    with Begin_fails [OF f] r Inl Pair show ?thesis by simp
  next
    case (Inr y)
    obtain url deadline where y: "y = (url, deadline)" by (cases y)
    with Inr Pair have "Begin e corr doc conf cs opts st = (Inr (url, deadline), st')" by simp
    then show ?thesis
      by (rule Begin_success) (simp add: Pair Inr y begun_def new_session_def)
  qed
qed

text \<open>
  C13: the handle comes back. After a successful \<open>Begin\<close>, a callback with the redirect's OAuth state
  before the deadline finds the new session, and the claim returns the very handle the SDK gave at
  the start.
\<close>

theorem Begin_then_callback:
  assumes "sdk_Begin (eSDK e) (world st) doc conf opts = (Inr res, w)"
    and "stepKind (rStep res) = stepKindRedirect" "stepRedirect (rStep res) = Inr (u, state)"
    and "Begin e corr doc conf cs opts st = (Inr (url, deadline), st')"
    and "now \<le> deadline" "corr \<noteq> []"
  shows "GetByState state now (mem st') = (Inr (next_addr (mem st)), mem st')
    \<and> fst (ConsumeForResume (next_addr (mem st)) now (mem st')) = Inr (append_nil (rHandle res))"
proof -
  obtain t0 t1 w2 where clk: "begin_clock e w = (t0, t1, w2)" by (cases "begin_clock e w")
  have state: "state \<noteq> []" using assms(3) by (auto simp: stepRedirect_def Let_def split: if_splits)
  note b = Begin_ok [OF assms(1-3) clk, of corr cs, unfolded assms(4) Let_def]
  let ?m = "mem st'" and ?a = "next_addr (mem st)"
  have h: "heap ?m ?a = begun corr state cs conf (eTTL e) t1 (rHandle res)"
    and i: "map_of (byID ?m) corr = Some ?a" "map_of (byState ?m) state = Some corr"
    and d: "deadline = t1 + eTTL e"
    using b state by (auto simp: NewSession_unfold Let_def amap.look_put)
  have live: "\<not> Terminal (heap ?m ?a)" "\<not> now > ExpiresAt (heap ?m ?a)" "\<not> resuming (heap ?m ?a)"
    using assms(5) d by (simp_all add: h begun_def new_session_def Terminal_def)
  have x: "expireLocked now ?a ?m = ?m" using live by (simp add: expireLocked_def)
  show ?thesis
    using i assms(6) live h
    by (simp add: GetByState_def map_str_def x ConsumeForResume_def Let_def begun_def)
qed

theorem Begin_then_callback_witness:
  "GetByState ''s1'' 800 (mem demo_begun) = (Inr 0, mem demo_begun)
   \<and> fst (ConsumeForResume 0 800 (mem demo_begun)) = Inr (Some ''ab'')"
proof -
  have 1: "sdk_Begin (eSDK demo_engine) (world demo_state) (Some ''%PDF'') ''B-B'' None
      = (Inr \<lparr>rHandle = Some ''ab'', rStep = demo_redirect\<rparr>, 0)"
    by (simp add: demo_engine_def demo_sdk_def demo_state_def)
  have 2: "stepKind demo_redirect = stepKindRedirect"
    "stepRedirect demo_redirect = Inr (''https://idp.test/authorize'', ''s1'')"
    by (simp_all add: demo_redirect_def step_readers)
  have 3: "Begin demo_engine ''c1'' (Some ''%PDF'') ''B-B'' ''app'' None demo_state
      = (Inr (''https://idp.test/authorize'', 901), demo_begun)"
    by (simp add: demo_begun_def Begin_def demo_defs step_readers NewSession_unfold rewriteRedirect_def
        new_session_def)
  show ?thesis
    using Begin_then_callback [OF 1 _ _ 3, of "''https://idp.test/authorize''" "''s1''" 800] 2
    by (simp add: demo_state_def NewMemory_def append_nil_def)
qed

text \<open>
  The headers of an effect. A list of well-formed name/value pairs reaches the effector in order
  and unchanged, repetitions included, and an entry that is not a pair of two strings is skipped
  wherever it stands, without disturbing the others.
\<close>

theorem effect_headers:
  assumes "stepHTTP ((''headers'', AList (xs @ ys)) # step) = Inr ef"
    and "header_pair bad = None"
  shows "stepHTTP ((''headers'', AList (xs @ bad # ys)) # step) = Inr ef
    \<and> (\<forall>kvs. xs @ ys \<noteq> map (\<lambda>(k, v). AList [AStr k, AStr v]) kvs \<or> headers ef = kvs)"
proof -
  have "List.map_filter header_pair (map (\<lambda>(k, v). AList [AStr k, AStr v]) kvs) = kvs" for kvs
    by (induction kvs) (auto simp: List.map_filter_def)
  moreover have "headers ef = List.map_filter header_pair (xs @ ys)"
    using assms(1) by (auto simp: stepHTTP_def Let_def split: if_splits)
  ultimately have 1: "\<forall>kvs. xs @ ys \<noteq> map (\<lambda>(k, v). AList [AStr k, AStr v]) kvs \<or> headers ef = kvs"
    by metis
  have "List.map_filter header_pair (xs @ bad # ys) = List.map_filter header_pair (xs @ ys)"
    using assms(2) by (simp add: List.map_filter_def)
  then have "stepHTTP ((''headers'', AList (xs @ bad # ys)) # step) = stepHTTP ((''headers'', AList (xs @ ys)) # step)"
    by (simp add: stepHTTP_def mapString_def Let_def)
  with 1 assms(1) show ?thesis by simp
qed

theorem effect_headers_witness:
  "stepHTTP ((''headers'', AList [AList [AStr ''A'', AStr ''1''], AStr ''junk'', AList [AStr ''A'', AStr ''2'']])
      # [(''method'', AStr ''GET''), (''url'', AStr ''u'')])
   = Inr \<lparr>effectMethod = ''GET'', rawURL = ''u'', headers = [(''A'', ''1''), (''A'', ''2'')], body = None\<rparr>"
proof -
  let ?step = "[(''method'', AStr ''GET''), (''url'', AStr ''u'')]"
  let ?xs = "[AList [AStr ''A'', AStr ''1'']]" and ?ys = "[AList [AStr ''A'', AStr ''2'']]"
  have "stepHTTP ((''headers'', AList (?xs @ ?ys)) # ?step)
      = Inr \<lparr>effectMethod = ''GET'', rawURL = ''u'', headers = [(''A'', ''1''), (''A'', ''2'')], body = None\<rparr>"
    by (simp add: stepHTTP_def mapString_def List.map_filter_def)
  from effect_headers [OF this, of "AStr ''junk''"] show ?thesis by simp
qed

text \<open>
  A redacted URL does not depend on the query. For a URL text before its first question mark and
  any two queries, the redacted forms are the same text, so no byte of the query reaches the log
  through \<open>redact\<close>.
\<close>

theorem redact_hides_query:
  assumes "CHR ''?'' \<notin> set u" "CHR ''#'' \<notin> set u"
    and "\<not> has_ctl q" "CHR ''#'' \<notin> set q" and "\<not> has_ctl q'" "CHR ''#'' \<notin> set q'"
  shows "redact (u @ CHR ''?'' # q) = redact (u @ CHR ''?'' # q')"
  using url_Parse_query_location [OF assms]
  by (auto simp: redact_def url_location_def split: option.splits)

theorem redact_hides_query_witness:
  "redact ''https://api.test/token?code=SECRET'' = redact ''https://api.test/token?code=''"
  using redact_hides_query [of "''https://api.test/token''" "''code=SECRET''" "''code=''"]
  by (simp add: has_ctl_def)

end
