(* ===== verification/Go_Time.thy ===== *)
theory Go_Time
  imports Go_Base
begin

text \<open>
  The package time as the gateway uses it: \<open>ParseDuration\<close>, with its uint64 accumulators and its
  float64 fractions, and the RFC 3339 form of a UTC time. A time is a count of nanoseconds since the
  Unix epoch, a duration a count of nanoseconds.
\<close>

section \<open>Binary floating point\<close>

text \<open>
  The positive float64 values that occur are rationals, here pairs of a numerator and a denominator.
  \<open>f64_round\<close> rounds to 53 significant bits, ties to even. Overflow and subnormals are left out:
  they only occur for fractions whose contribution is truncated to 0 either way.
\<close>

function bit_count :: "int \<Rightarrow> nat" where
  "bit_count n = (if n \<le> 0 then 0 else Suc (bit_count (n div 2)))"
  by pat_completeness auto
termination by (relation "measure nat") auto

declare bit_count.simps [simp del]

definition round_even :: "int \<Rightarrow> int \<Rightarrow> int" where
  "round_even p q =
     (let m = p div q; r = p mod q
      in if q < 2 * r \<or> (q = 2 * r \<and> odd m) then m + 1 else m)"

definition f64_round :: "int \<times> int \<Rightarrow> int \<times> int" where
  "f64_round x =
     (case x of (p, q) \<Rightarrow>
        if p = 0 then (0, 1)
        else
          (let up = bit_count p - (bit_count q + 53);
               dn = (bit_count q + 53) - bit_count p;
               P = p * 2 ^ dn; Q = q * 2 ^ up
           in if Q * 2 ^ 53 \<le> P
              then (round_even P (2 * Q) * 2 ^ (up + 1), 2 ^ dn)
              else (round_even P Q * 2 ^ up, 2 ^ dn)))"

definition f64_of_int :: "int \<Rightarrow> int \<times> int" where
  "f64_of_int n = f64_round (n, 1)"

definition f64_mult :: "int \<times> int \<Rightarrow> int \<times> int \<Rightarrow> int \<times> int" where
  "f64_mult x y = f64_round (fst x * fst y, snd x * snd y)"

definition f64_div :: "int \<times> int \<Rightarrow> int \<times> int \<Rightarrow> int \<times> int" where
  "f64_div x y = f64_round (fst x * snd y, snd x * fst y)"

definition f64_trunc :: "int \<times> int \<Rightarrow> int" where
  "f64_trunc x = fst x div snd x"

section \<open>ParseDuration\<close>

definition digit_value :: "char \<Rightarrow> int" where
  "digit_value c = int (ord c) - 48"

text \<open>\<open>leadingInt\<close>: the value of the leading digits and the rest; None above \<open>2^63\<close>.\<close>

fun leadingInt :: "int \<Rightarrow> string \<Rightarrow> (int \<times> string) option" where
  "leadingInt x [] = Some (x, [])"
| "leadingInt x (c # cs) =
     (if \<not> is_digit c then Some (x, c # cs)
      else if x > 2 ^ 63 div 10 then None
      else if x * 10 + digit_value c > 2 ^ 63 then None
      else leadingInt (x * 10 + digit_value c) cs)"

text \<open>\<open>leadingFraction\<close>: digits after the point; those that no longer fit are skipped.\<close>

fun leadingFraction :: "bool \<Rightarrow> int \<Rightarrow> int \<times> int \<Rightarrow> string \<Rightarrow> int \<times> (int \<times> int) \<times> string" where
  "leadingFraction ovf x scale [] = (x, scale, [])"
| "leadingFraction ovf x scale (c # cs) =
     (if \<not> is_digit c then (x, scale, c # cs)
      else if ovf \<or> x > (2 ^ 63 - 1) div 10 \<or> x * 10 + digit_value c > 2 ^ 63
      then leadingFraction True x scale cs
      else leadingFraction False (x * 10 + digit_value c) (f64_mult scale (10, 1)) cs)"

definition unitMap :: "string \<Rightarrow> int option" where
  "unitMap u =
     (if u = ''ns'' then Some 1
      else if u = ''us'' \<or> u = [chr 194, chr 181, CHR ''s''] \<or> u = [chr 206, chr 188, CHR ''s''] then Some 1000
      else if u = ''ms'' then Some 1000000
      else if u = ''s'' then Some 1000000000
      else if u = ''m'' then Some 60000000000
      else if u = ''h'' then Some 3600000000000
      else None)"

definition time_quote_char :: "char \<Rightarrow> string" where
  "time_quote_char c =
     (if ord c \<ge> 128 \<or> ord c < 32
      then [chr 92] @ ''x'' @ [hex_char (ord c div 16), hex_char (ord c mod 16)]
      else if ord c = 34 \<or> ord c = 92 then [chr 92, c] else [c])"

definition time_quote :: "string \<Rightarrow> string" where
  "time_quote s = [chr 34] @ concat (map time_quote_char s) @ [chr 34]"

definition is_unit_char :: "char \<Rightarrow> bool" where
  "is_unit_char c = (c \<noteq> CHR ''.'' \<and> \<not> is_digit c)"

definition invalid_duration :: "string \<Rightarrow> go_error" where
  "invalid_duration orig = ENew (''time: invalid duration '' @ time_quote orig)"

text \<open>
  One term: digits, an optional fraction, a unit. The result is the term in nanoseconds, at most
  \<open>2^63\<close>, and the rest of the text.
\<close>

definition duration_term :: "string \<Rightarrow> string \<Rightarrow> go_error + int \<times> string" where
  "duration_term orig s =
     (if s = [] \<or> \<not> (hd s = CHR ''.'' \<or> is_digit (hd s)) then Inl (invalid_duration orig)
      else case leadingInt 0 s of
             None \<Rightarrow> Inl (invalid_duration orig)
           | Some (v, s1) \<Rightarrow>
               (let pre = (length s \<noteq> length s1);
                    dot = (s1 \<noteq> [] \<and> hd s1 = CHR ''.'');
                    (f, scale, s2) = (if dot then leadingFraction False 0 (1, 1) (tl s1) else (0, (1, 1), s1));
                    post = (dot \<and> length (tl s1) \<noteq> length s2);
                    u = takeWhile is_unit_char s2;
                    s3 = dropWhile is_unit_char s2
                in if \<not> pre \<and> \<not> post then Inl (invalid_duration orig)
                   else if u = [] then Inl (ENew (''time: missing unit in duration '' @ time_quote orig))
                   else case unitMap u of
                          None \<Rightarrow> Inl (ENew (''time: unknown unit '' @ time_quote u @ '' in duration '' @ time_quote orig))
                        | Some unit \<Rightarrow>
                            if v > 2 ^ 63 div unit then Inl (invalid_duration orig)
                            else (let w = v * unit
                                        + (if f > 0 then f64_trunc (f64_mult (f64_of_int f)
                                             (f64_div (f64_of_int unit) scale)) else 0)
                                  in if f > 0 \<and> w > 2 ^ 63 then Inl (invalid_duration orig)
                                     else Inr (w, s3))))"

lemma length_leadingInt: "leadingInt x s = Some (v, r) \<Longrightarrow> length r \<le> length s"
  by (induction x s rule: leadingInt.induct) (auto split: if_splits)

lemma length_leadingFraction: "leadingFraction b x sc s = (f, sc', r) \<Longrightarrow> length r \<le> length s"
  by (induction b x sc s rule: leadingFraction.induct) (auto split: if_splits)

lemma duration_term_shorter:
  assumes "duration_term orig s = Inr (v, r)"
  shows "length r < length s"
proof -
  obtain w s1 where 1: "leadingInt 0 s = Some (w, s1)"
    using assms by (auto simp: duration_term_def split: if_splits option.splits)
  obtain f sc s2 where 2: "(if s1 \<noteq> [] \<and> hd s1 = CHR ''.'' then leadingFraction False 0 (1, 1) (tl s1)
      else (0, (1, 1), s1)) = (f, sc, s2)" by (metis prod_cases3)
  have "takeWhile is_unit_char s2 \<noteq> []" "r = dropWhile is_unit_char s2"
    using assms 1 2 by (auto simp: duration_term_def Let_def split: if_splits option.splits)
  then have "length r < length s2"
    by (metis append_Nil length_append less_add_same_cancel2 length_greater_0_conv takeWhile_dropWhile_id)
  also have "length s2 \<le> length s1"
    using 2 length_leadingFraction [of False 0 "(1, 1)" "tl s1"] by (fastforce split: if_splits)
  also have "length s1 \<le> length s" using length_leadingInt [OF 1] .
  finally show ?thesis .
qed

text \<open>The sum of the terms, in a uint64 that wraps before the bound is tested.\<close>

function duration_terms :: "string \<Rightarrow> int \<Rightarrow> string \<Rightarrow> go_error + int" where
  "duration_terms orig d s =
     (if s = [] then Inr d
      else case duration_term orig s of
             Inl err \<Rightarrow> Inl err
           | Inr (v, r) \<Rightarrow>
               (let d' = (d + v) mod 2 ^ 64
                in if d' > 2 ^ 63 then Inl (invalid_duration orig) else duration_terms orig d' r))"
  by pat_completeness auto
termination
  by (relation "measure (\<lambda>(orig, d, s). length s)") (auto simp: duration_term_shorter)

declare duration_terms.simps [simp del]

definition time_ParseDuration :: "string \<Rightarrow> go_error + int" where
  "time_ParseDuration orig =
     (let neg = (orig \<noteq> [] \<and> hd orig = CHR ''-'');
          s = (if orig \<noteq> [] \<and> (hd orig = CHR ''-'' \<or> hd orig = CHR ''+'') then tl orig else orig)
      in if s = ''0'' then Inr 0
         else if s = [] then Inl (invalid_duration orig)
         else case duration_terms orig 0 s of
                Inl err \<Rightarrow> Inl err
              | Inr d \<Rightarrow>
                  if neg then Inr (- d)
                  else if d > 2 ^ 63 - 1 then Inl (invalid_duration orig)
                  else Inr d)"

section \<open>Facts about durations\<close>

lemma duration_terms_bound:
  "duration_terms orig d s = Inr n \<Longrightarrow> 0 \<le> d \<Longrightarrow> d \<le> 2 ^ 63 \<Longrightarrow> 0 \<le> n \<and> n \<le> 2 ^ 63"
proof (induction orig d s rule: duration_terms.induct)
  case (1 orig d s)
  from 1(2) show ?case
    by (subst (asm) duration_terms.simps)
      (use 1 in \<open>auto simp: Let_def not_less split: if_splits sum.splits prod.splits\<close>)
qed

lemma ParseDuration_range:
  assumes "time_ParseDuration s = Inr d"
  shows "- (2 ^ 63) \<le> d" "d \<le> 2 ^ 63 - 1"
  using assms duration_terms_bound [of s 0]
  by (fastforce simp: time_ParseDuration_def Let_def split: if_splits sum.splits)+

text \<open>A plain decimal number followed by a unit.\<close>

lemma digit_char: "m < 10 \<Longrightarrow> is_digit (chr (48 + m)) \<and> digit_value (chr (48 + m)) = int m"
  by (simp add: is_digit_def digit_value_def)

lemma show_nat_digits: "list_all is_digit (show_nat n)"
proof (induction n rule: show_nat.induct)
  case (1 n)
  then show ?case by (subst show_nat.simps) (simp add: digit_char)
qed

lemma show_nat_nonempty [simp]: "show_nat n \<noteq> []"
  by (subst show_nat.simps) simp

lemma leadingInt_append:
  "list_all is_digit ds \<Longrightarrow>
   leadingInt x (ds @ r) = (case leadingInt x ds of None \<Rightarrow> None | Some (v, _) \<Rightarrow> leadingInt v r)"
  by (induction ds arbitrary: x) auto

lemma leadingInt_show_nat:
  "leadingInt 0 (show_nat n) = (if int n \<le> 2 ^ 63 then Some (int n, []) else None)"
proof (induction n rule: show_nat.induct)
  case (1 n)
  show ?case
  proof (cases "n < 10")
    case True
    then show ?thesis by (subst show_nat.simps) (simp add: digit_char)
  next
    case False
    have d: "digit_value (chr (48 + n mod 10)) = int (n mod 10)" "is_digit (chr (48 + n mod 10))"
      by (simp_all add: digit_char)
    have n: "int (n div 10) * 10 + int (n mod 10) = int n" by presburger
    have "leadingInt 0 (show_nat n)
        = (case leadingInt 0 (show_nat (n div 10)) of None \<Rightarrow> None
           | Some (v, _) \<Rightarrow> leadingInt v [chr (48 + n mod 10)])"
      using False by (subst show_nat.simps) (simp add: leadingInt_append [OF show_nat_digits])
    also have "\<dots> = (if int n \<le> 2 ^ 63 then Some (int n, []) else None)"
      using 1 [OF False] d n by auto
    finally show ?thesis .
  qed
qed

lemma unitMap_pos: "unitMap u = Some k \<Longrightarrow> 0 < k"
  by (auto simp: unitMap_def split: if_splits)

lemma unitMap_chars:
  "unitMap u = Some k \<Longrightarrow> u \<noteq> [] \<and> list_all is_unit_char u"
proof -
  assume "unitMap u = Some k"
  then have "u \<in> set [''ns'', ''us'', [chr 194, chr 181, CHR ''s''], [chr 206, chr 188, CHR ''s''], ''ms'', ''s'', ''m'', ''h'']"
    by (auto simp: unitMap_def split: if_splits)
  moreover have "list_all (\<lambda>u. u \<noteq> [] \<and> list_all is_unit_char u)
      [''ns'', ''us'', [chr 194, chr 181, CHR ''s''], [chr 206, chr 188, CHR ''s''], ''ms'', ''s'', ''m'', ''h'']"
    by code_simp
  ultimately show ?thesis unfolding list_all_iff by blast
qed

lemma le_div_iff: "0 < k \<Longrightarrow> a \<le> b div k \<longleftrightarrow> a * k \<le> b" for a b k :: int
proof
  assume k: "0 < k" and "a \<le> b div k"
  then have "a * k \<le> b div k * k" by (simp add: mult_right_mono)
  also have "\<dots> \<le> b" using k by (simp add: minus_mod_eq_div_mult [symmetric])
  finally show "a * k \<le> b" .
next
  assume k: "0 < k" and "a * k \<le> b"
  then have "a * k div k \<le> b div k" by (intro zdiv_mono1)
  with k show "a \<le> b div k" by simp
qed

lemma ParseDuration_unit:
  assumes "unitMap u = Some k"
  shows "time_ParseDuration (show_nat n @ u)
    = (if int n * k \<le> 2 ^ 63 - 1 then Inr (int n * k) else Inl (invalid_duration (show_nat n @ u)))"
proof -
  let ?s = "show_nat n @ u"
  obtain c cs where c: "show_nat n = c # cs" "is_digit c"
    using show_nat_digits [of n] by (cases "show_nat n") auto
  have sgn: "c \<noteq> CHR ''-''" "c \<noteq> CHR ''+''" using c(2) by (auto simp: is_digit_def)
  have u: "u \<noteq> []" "takeWhile is_unit_char u = u" "dropWhile is_unit_char u = []" "\<not> is_digit (hd u)"
      "hd u \<noteq> CHR ''.''"
    using unitMap_chars [OF assms] by (cases u; auto simp: list_all_iff is_unit_char_def)+
  have hd: "is_digit (hd ?s)" "hd ?s \<noteq> CHR ''-''" "hd ?s \<noteq> CHR ''+''" using c sgn by simp_all
  have lead: "leadingInt 0 ?s = (if int n \<le> 2 ^ 63 then Some (int n, u) else None)"
    using u by (cases u) (auto simp: leadingInt_append [OF show_nat_digits] leadingInt_show_nat)
  have big: "int n \<le> 2 ^ 63 div k \<longleftrightarrow> int n * k \<le> 2 ^ 63"
    using unitMap_pos [OF assms] by (rule le_div_iff)
  have "int n \<le> int n * k" using unitMap_pos [OF assms] by (simp add: mult_le_cancel_left1)
  then have trm: "duration_term ?s ?s
      = (if int n * k \<le> 2 ^ 63 then Inr (int n * k, []) else Inl (invalid_duration ?s))"
    using u(1,4,5) assms big hd(1)
    by (auto simp: duration_term_def lead Let_def u(2,3))
  have "?s \<noteq> ''0''" using c u(1) by (cases cs) auto
  then show ?thesis
    using hd trm unitMap_pos [OF assms]
    by (simp add: time_ParseDuration_def Let_def duration_terms.simps [of _ _ "show_nat n @ u"]
        duration_terms.simps [of _ _ "[]"])
qed

section \<open>Dates\<close>

text \<open>The proleptic Gregorian date of a day number, 0 being 1970-01-01; years start in March.\<close>

definition civil_date :: "int \<Rightarrow> int \<times> int \<times> int" where
  "civil_date days =
     (let z = days + 719468;
          era = z div 146097;
          doe = z mod 146097;
          yoe = (doe - doe div 1460 + doe div 36524 - doe div 146096) div 365;
          doy = doe - (365 * yoe + yoe div 4 - yoe div 100);
          mp = (5 * doy + 2) div 153;
          day = doy - (153 * mp + 2) div 5 + 1;
          month = (if mp < 10 then mp + 3 else mp - 9)
      in (yoe + era * 400 + (if month \<le> 2 then 1 else 0), month, day))"

definition pad_int :: "nat \<Rightarrow> int \<Rightarrow> string" where
  "pad_int w i = (if i < 0 then ''-'' @ pad_nat w (nat (- i)) else pad_nat w (nat i))"

text \<open>\<open>t.UTC().Format(time.RFC3339)\<close>: whole seconds, the zone written Z.\<close>

definition format_RFC3339 :: "time \<Rightarrow> string" where
  "format_RFC3339 t =
     (let sec = t div 1000000000;
          sod = sec mod 86400
      in case civil_date (sec div 86400) of (y, mo, d) \<Rightarrow>
           pad_int 4 y @ ''-'' @ pad_int 2 mo @ ''-'' @ pad_int 2 d @ ''T''
           @ pad_int 2 (sod div 3600) @ '':'' @ pad_int 2 (sod mod 3600 div 60) @ '':'' @ pad_int 2 (sod mod 60)
           @ ''Z'')"

end
