(* ===== verification/Config_Profile.thy ===== *)
theory Config_Profile
  imports Go_URL Go_Time
begin

text \<open>
  The environment contract of internal/config/config.go: \<open>Load\<close> reads the TRUST_GATEWAY_* variables
  and either fails with the first error it meets or returns a complete profile. The environment is a
  parameter: a function from names to values, the empty text for an unset variable, as \<open>os.Getenv\<close>.
\<close>

section \<open>Constants\<close>

definition ModeFixtures :: string where "ModeFixtures = ''fixtures''"
definition ModeLive :: string where "ModeLive = ''live''"
definition ConformanceBB :: string where "ConformanceBB = ''B-B''"
definition ConformanceBT :: string where "ConformanceBT = ''B-T''"
definition OAuthCallbackPath :: string where "OAuthCallbackPath = ''/oauth/cleverbase/callback''"

lemmas mode_defs = ModeFixtures_def ModeLive_def ConformanceBB_def ConformanceBT_def

abbreviation gateway_env :: "string \<Rightarrow> string" where
  "gateway_env n \<equiv> ''TRUST_GATEWAY_'' @ n"

definition envAPIKey :: string where "envAPIKey = gateway_env ''API_KEY''"
definition envAuthDisabled :: string where "envAuthDisabled = gateway_env ''AUTH_DISABLED''"
definition envBaseURL :: string where "envBaseURL = gateway_env ''BASE_URL''"
definition envClientID :: string where "envClientID = gateway_env ''CLIENT_ID''"
definition envClientSecret :: string where "envClientSecret = gateway_env ''CLIENT_SECRET''"
definition envCSCAPI :: string where "envCSCAPI = gateway_env ''CSC_API''"
definition envDefaultConformance :: string where "envDefaultConformance = gateway_env ''DEFAULT_CONFORMANCE''"
definition envEnvironment :: string where "envEnvironment = gateway_env ''ENV''"
definition envListen :: string where "envListen = gateway_env ''LISTEN''"
definition envMode :: string where "envMode = gateway_env ''MODE''"
definition envPublicBaseURL :: string where "envPublicBaseURL = gateway_env ''PUBLIC_BASE_URL''"
definition envRedirectURI :: string where "envRedirectURI = gateway_env ''REDIRECT_URI''"
definition envReturnURL :: string where "envReturnURL = gateway_env ''RETURN_URL''"
definition envSessionTTL :: string where "envSessionTTL = gateway_env ''SESSION_TTL''"
definition envTSAAuth :: string where "envTSAAuth = gateway_env ''TSA_AUTH''"
definition envTSAPolicy :: string where "envTSAPolicy = gateway_env ''TSA_POLICY''"
definition envTSAURL :: string where "envTSAURL = gateway_env ''TSA_URL''"
definition envSDKUpstreamBaseURL :: string where "envSDKUpstreamBaseURL = gateway_env ''UPSTREAM_BASE_URL''"

lemmas env_name_defs = envAPIKey_def envAuthDisabled_def envBaseURL_def envClientID_def
  envClientSecret_def envCSCAPI_def envDefaultConformance_def envEnvironment_def envListen_def
  envMode_def envPublicBaseURL_def envRedirectURI_def envReturnURL_def envSessionTTL_def
  envTSAAuth_def envTSAPolicy_def envTSAURL_def envSDKUpstreamBaseURL_def

definition fixturesClientID :: string where "fixturesClientID = ''trust-gateway-fixtures''"
definition fixturesSecret :: string where "fixturesSecret = ''fixtures''"
definition fixturesRedirectURI :: string where "fixturesRedirectURI = ''http://localhost:8080/return''"

section \<open>The profile\<close>

record profile =
  pMode :: string
  pEnvironment :: string
  pCSCAPI :: string
  pClientID :: string
  pClientSecret :: string
  pRedirectURI :: string
  pReturnURL :: "url option"
  pTSAURL :: string
  pTSAAuth :: string
  pTSAPolicy :: string
  pUpstreamBaseURL :: string
  pPublicUpstreamBaseURL :: string
  pSDKUpstreamBaseURL :: string
  pAPIKey :: string
  pAuthEnabled :: bool
  pDefaultConformance :: string
  pSessionTTL :: time
  pListen :: string

type_synonym environment = "string \<Rightarrow> string"

definition env :: "environment \<Rightarrow> string \<Rightarrow> string \<Rightarrow> string" where
  "env getenv key fallback = (if getenv key \<noteq> [] then getenv key else fallback)"

text \<open>The texts of the errors: \<open>invalid NAME "value" ...\<close> and the like.\<close>

definition invalid_value :: "string \<Rightarrow> string \<Rightarrow> string \<Rightarrow> go_error" where
  "invalid_value name value why = ENew (''invalid '' @ name @ '' '' @ strconv_Quote value @ why)"

section \<open>Validation\<close>

definition validateStaticFields :: "profile \<Rightarrow> go_error + unit" where
  "validateStaticFields p =
     (if pDefaultConformance p \<noteq> ConformanceBB \<and> pDefaultConformance p \<noteq> ConformanceBT
      then Inl (invalid_value envDefaultConformance (pDefaultConformance p) '' (B-B|B-T)'')
      else if pEnvironment p \<noteq> ''acceptance'' \<and> pEnvironment p \<noteq> ''production''
      then Inl (invalid_value envEnvironment (pEnvironment p) '' (acceptance|production)'')
      else if pCSCAPI p \<noteq> ''v1_rsa'' \<and> pCSCAPI p \<noteq> ''v2_ecdsa''
      then Inl (invalid_value envCSCAPI (pCSCAPI p) '' (v1_rsa|v2_ecdsa)'')
      else Inr ())"

definition parseSessionTTL :: "string \<Rightarrow> go_error + time" where
  "parseSessionTTL value =
     (case time_ParseDuration value of
        Inl err \<Rightarrow> Inl (EWrap (''invalid '' @ envSessionTTL @ '' '' @ strconv_Quote value) err)
      | Inr ttl \<Rightarrow>
          if ttl \<le> 0 then Inl (invalid_value envSessionTTL value '': must be positive'') else Inr ttl)"

definition resolveAuth :: "environment \<Rightarrow> profile \<Rightarrow> go_error + profile" where
  "resolveAuth getenv p =
     (let authDisabled = strings_EqualFold (getenv envAuthDisabled) ''true''
      in if authDisabled \<and> pAPIKey p \<noteq> []
         then Inl (ENew (envAPIKey @ '' and '' @ envAuthDisabled @ '' cannot both be set''))
         else if pAPIKey p \<noteq> [] then Inr (p\<lparr>pAuthEnabled := True\<rparr>)
         else if authDisabled then Inr (p\<lparr>pAuthEnabled := False\<rparr>)
         else Inl (ENew (''API auth is on by default: set '' @ envAPIKey @ '', or explicitly set ''
                     @ envAuthDisabled @ ''=true for network-isolated runs'')))"

definition or_default :: "string \<Rightarrow> string \<Rightarrow> string" where
  "or_default v d = (if v = [] then d else v)"

definition applyFixturesDefaults :: "profile \<Rightarrow> go_error + profile" where
  "applyFixturesDefaults p =
     (if pUpstreamBaseURL p = [] then Inl (ENew (''fixtures mode requires '' @ envBaseURL))
      else Inr (p\<lparr>pClientID := or_default (pClientID p) fixturesClientID,
                  pClientSecret := or_default (pClientSecret p) fixturesSecret,
                  pRedirectURI := or_default (pRedirectURI p) fixturesRedirectURI,
                  pTSAURL := or_default (pTSAURL p)
                    (strings_TrimRight (pUpstreamBaseURL p) (CHR ''/'') @ ''/tsr''),
                  pPublicUpstreamBaseURL := or_default (pPublicUpstreamBaseURL p) (pUpstreamBaseURL p)\<rparr>))"

definition live_values :: "environment \<Rightarrow> profile \<Rightarrow> (string \<times> string) list" where
  "live_values getenv p =
     [(envClientID, pClientID p), (envClientSecret, pClientSecret p), (envRedirectURI, pRedirectURI p),
      (envReturnURL, getenv envReturnURL), (envTSAURL, pTSAURL p)]"

definition validateLive :: "environment \<Rightarrow> profile \<Rightarrow> go_error + unit" where
  "validateLive getenv p =
     (let missing = map fst (filter (\<lambda>item. snd item = []) (live_values getenv p))
      in if missing \<noteq> [] then Inl (ENew (''live mode requires: '' @ strings_Join missing '', ''))
         else Inr ())"

definition parseAbsoluteURL :: "string \<Rightarrow> string \<Rightarrow> go_error + url option" where
  "parseAbsoluteURL name value =
     (if value = [] then Inr None
      else case url_Parse value of
             None \<Rightarrow> Inl (EWrap (''invalid '' @ name @ '' '' @ strconv_Quote value)
                          (EWrap (''parse '' @ strconv_Quote value) (ENew ''invalid'')))
           | Some u \<Rightarrow>
               if Scheme u = [] \<or> Host u = []
               then Inl (invalid_value name value '': must be an absolute URL with a scheme and host'')
               else Inr (Some u))"

definition validateProductionURLPolicy :: "url option \<Rightarrow> profile \<Rightarrow> go_error + unit" where
  "validateProductionURLPolicy publicBaseURL p =
     (if pEnvironment p \<noteq> ''production'' then Inr ()
      else if pSDKUpstreamBaseURL p \<noteq> []
      then Inl (ENew (envSDKUpstreamBaseURL @ '' is not allowed when '' @ envEnvironment @ ''=production''))
      else case publicBaseURL of
             None \<Rightarrow> Inr ()
           | Some u \<Rightarrow>
               if Scheme u \<noteq> ''https''
               then Inl (ENew (envPublicBaseURL @ '' must use https when '' @ envEnvironment @ ''=production''))
               else Inr ())"

text \<open>\<open>validateURLs\<close> returns the redirect URL and the profile with its return URL.\<close>

definition validateURLs :: "environment \<Rightarrow> profile \<Rightarrow> go_error + url option \<times> profile" where
  "validateURLs getenv p =
     bind_result (parseAbsoluteURL envBaseURL (pUpstreamBaseURL p)) (\<lambda>_.
     bind_result (parseAbsoluteURL envPublicBaseURL (pPublicUpstreamBaseURL p)) (\<lambda>publicBaseURL.
     bind_result (parseAbsoluteURL envTSAURL (pTSAURL p)) (\<lambda>_.
     bind_result (validateProductionURLPolicy publicBaseURL p) (\<lambda>_.
     bind_result (parseAbsoluteURL envRedirectURI (pRedirectURI p)) (\<lambda>redirectURL.
     bind_result (parseAbsoluteURL envReturnURL (getenv envReturnURL)) (\<lambda>returnURL.
     Inr (redirectURL, p\<lparr>pReturnURL := returnURL\<rparr>)))))))"

definition isLoopbackHost :: "string \<Rightarrow> bool" where
  "isLoopbackHost host =
     (strings_EqualFold host ''localhost''
      \<or> (case net_ParseIP host of None \<Rightarrow> False | Some ip \<Rightarrow> IsLoopback ip))"

definition validateBrowserURL :: "string \<Rightarrow> url \<Rightarrow> bool \<Rightarrow> go_error + unit" where
  "validateBrowserURL name u requireHTTPS =
     (if Scheme u \<noteq> ''http'' \<and> Scheme u \<noteq> ''https''
      then Inl (invalid_value name (url_String u) '': scheme must be http or https'')
      else if requireHTTPS \<and> Scheme u \<noteq> ''https'' \<and> \<not> isLoopbackHost (url_Hostname u)
      then Inl (invalid_value name (url_String u) '': live mode requires https'')
      else if RawQuery u \<noteq> []
      then Inl (invalid_value name (url_String u) '': URL must not contain a query'')
      else if Fragment u \<noteq> []
      then Inl (invalid_value name (url_String u) '': URL must not contain a fragment'')
      else Inr ())"

text \<open>A nil redirect URL in live mode would be dereferenced; \<open>validateLive\<close> has excluded it by then.\<close>

definition nil_dereference :: go_error where
  "nil_dereference = ENew ''panic: nil pointer dereference''"

definition validateBrowserFlow :: "url option \<Rightarrow> profile \<Rightarrow> go_error + unit" where
  "validateBrowserFlow redirectURL p =
     bind_result
       (guard_result
          (\<not> (redirectURL \<noteq> None \<and> Path (the redirectURL) = OAuthCallbackPath \<and> pReturnURL p = None))
          (ENew (envReturnURL @ '' is required when '' @ envRedirectURI @ '' uses '' @ OAuthCallbackPath)))
       (\<lambda>_.
     bind_result
       (case pReturnURL p of
          None \<Rightarrow> Inr ()
        | Some u \<Rightarrow> validateBrowserURL envReturnURL u (pMode p = ModeLive))
       (\<lambda>_.
     if pMode p \<noteq> ModeLive then Inr ()
     else case redirectURL of
            None \<Rightarrow> Inl nil_dereference
          | Some u \<Rightarrow>
              bind_result (validateBrowserURL envRedirectURI u True) (\<lambda>_.
                guard_result (Path u = OAuthCallbackPath)
                  (invalid_value envRedirectURI (pRedirectURI p) ('': path must be '' @ OAuthCallbackPath)))))"

section \<open>Load\<close>

definition initial_profile :: "environment \<Rightarrow> profile" where
  "initial_profile getenv =
     \<lparr>pMode = env getenv envMode ModeFixtures,
      pEnvironment = env getenv envEnvironment ''acceptance'',
      pCSCAPI = env getenv envCSCAPI ''v1_rsa'',
      pClientID = getenv envClientID,
      pClientSecret = getenv envClientSecret,
      pRedirectURI = getenv envRedirectURI,
      pReturnURL = None,
      pTSAURL = getenv envTSAURL,
      pTSAAuth = getenv envTSAAuth,
      pTSAPolicy = getenv envTSAPolicy,
      pUpstreamBaseURL = getenv envBaseURL,
      pPublicUpstreamBaseURL = getenv envPublicBaseURL,
      pSDKUpstreamBaseURL = getenv envSDKUpstreamBaseURL,
      pAPIKey = getenv envAPIKey,
      pAuthEnabled = False,
      pDefaultConformance = env getenv envDefaultConformance ConformanceBB,
      pSessionTTL = 0,
      pListen = env getenv envListen '':8080''\<rparr>"

definition apply_mode :: "environment \<Rightarrow> profile \<Rightarrow> go_error + profile" where
  "apply_mode getenv p =
     (if pMode p = ModeFixtures then applyFixturesDefaults p
      else if pMode p = ModeLive then bind_result (validateLive getenv p) (\<lambda>_. Inr p)
      else Inl (invalid_value envMode (pMode p) '' (fixtures|live)''))"

definition Load :: "environment \<Rightarrow> go_error + profile" where
  "Load getenv =
     bind_result (parseSessionTTL (env getenv envSessionTTL ''15m'')) (\<lambda>ttl.
     bind_result (resolveAuth getenv ((initial_profile getenv)\<lparr>pSessionTTL := ttl\<rparr>)) (\<lambda>p1.
     bind_result (validateStaticFields p1) (\<lambda>_.
     bind_result (apply_mode getenv p1) (\<lambda>p2.
     bind_result (validateURLs getenv p2) (\<lambda>(redirectURL, p3).
     bind_result (validateBrowserFlow redirectURL p3) (\<lambda>_.
     Inr p3))))))"

section \<open>What each stage establishes\<close>

lemma parseSessionTTL_ok:
  "parseSessionTTL v = Inr ttl \<Longrightarrow> 0 < ttl \<and> ttl \<le> 2 ^ 63 - 1"
  using ParseDuration_range [of v ttl] by (auto simp: parseSessionTTL_def split: sum.splits if_splits)

lemma resolveAuth_ok:
  assumes "resolveAuth getenv p = Inr q"
  shows "q = p\<lparr>pAuthEnabled := (pAPIKey p \<noteq> [])\<rparr>"
    "pAPIKey p = [] \<Longrightarrow> strings_EqualFold (getenv envAuthDisabled) ''true''"
  using assms by (auto simp: resolveAuth_def Let_def split: if_splits)

lemma validateStaticFields_ok:
  "validateStaticFields p = Inr u \<longleftrightarrow>
     pDefaultConformance p \<in> {ConformanceBB, ConformanceBT}
     \<and> pEnvironment p \<in> {''acceptance'', ''production''} \<and> pCSCAPI p \<in> {''v1_rsa'', ''v2_ecdsa''}"
  by (auto simp: validateStaticFields_def)

lemma or_default_nonempty [simp]: "or_default v d = [] \<longleftrightarrow> v = [] \<and> d = []"
  by (simp add: or_default_def)

lemma apply_mode_ok:
  assumes "apply_mode getenv p = Inr q"
  shows "pMode p = ModeFixtures \<or> pMode p = ModeLive"
    "pMode p = ModeLive \<Longrightarrow> q = p \<and> (\<forall>(n, v) \<in> set (live_values getenv p). v \<noteq> [])"
    "pMode p = ModeFixtures \<Longrightarrow> pUpstreamBaseURL q \<noteq> [] \<and> pPublicUpstreamBaseURL q \<noteq> []
       \<and> pClientID q \<noteq> [] \<and> pClientSecret q \<noteq> [] \<and> pRedirectURI q \<noteq> [] \<and> pTSAURL q \<noteq> []"
    "pMode q = pMode p" "pEnvironment q = pEnvironment p" "pCSCAPI q = pCSCAPI p"
    "pAPIKey q = pAPIKey p" "pAuthEnabled q = pAuthEnabled p" "pSessionTTL q = pSessionTTL p"
    "pDefaultConformance q = pDefaultConformance p" "pSDKUpstreamBaseURL q = pSDKUpstreamBaseURL p"
  using assms
  by (auto simp: apply_mode_def applyFixturesDefaults_def bind_result_Inr_iff validateLive_def Let_def
      mode_defs filter_empty_conv fixturesClientID_def fixturesSecret_def fixturesRedirectURI_def
      split: if_splits)

lemma parseAbsoluteURL_ok:
  "parseAbsoluteURL n v = Inr r \<Longrightarrow>
    (case r of None \<Rightarrow> v = [] | Some u \<Rightarrow> v \<noteq> [] \<and> url_Parse v = Some u \<and> Scheme u \<noteq> [] \<and> Host u \<noteq> [])"
  by (cases r) (auto simp: parseAbsoluteURL_def split: if_splits option.splits)

lemma validateURLs_ok:
  assumes "validateURLs getenv p = Inr (redirectURL, q)"
  obtains pub ret where "parseAbsoluteURL envPublicBaseURL (pPublicUpstreamBaseURL p) = Inr pub"
    "validateProductionURLPolicy pub p = Inr ()"
    "parseAbsoluteURL envRedirectURI (pRedirectURI p) = Inr redirectURL"
    "parseAbsoluteURL envReturnURL (getenv envReturnURL) = Inr ret" "q = p\<lparr>pReturnURL := ret\<rparr>"
  using assms by (auto simp: validateURLs_def bind_result_Inr_iff)

text \<open>What \<open>validateBrowserURL\<close> accepts.\<close>

definition browser_url :: "bool \<Rightarrow> url \<Rightarrow> bool" where
  "browser_url requireHTTPS u =
     ((Scheme u = ''https'' \<or> Scheme u = ''http'' \<and> (requireHTTPS \<longrightarrow> isLoopbackHost (url_Hostname u)))
      \<and> RawQuery u = [] \<and> Fragment u = [])"

lemma validateBrowserURL_ok: "validateBrowserURL n u b = Inr x \<longleftrightarrow> browser_url b u"
  by (auto simp: validateBrowserURL_def browser_url_def)

lemma validateBrowserFlow_ok:
  assumes "validateBrowserFlow redirectURL p = Inr x"
  shows "pReturnURL p = Some u \<Longrightarrow> browser_url (pMode p = ModeLive) u"
    "redirectURL = Some r \<Longrightarrow> Path r = OAuthCallbackPath \<Longrightarrow> pReturnURL p \<noteq> None"
    "pMode p = ModeLive \<Longrightarrow> \<exists>r. redirectURL = Some r \<and> browser_url True r \<and> Path r = OAuthCallbackPath"
  using assms
  by (auto simp: validateBrowserFlow_def bind_result_Inr_iff validateBrowserURL_ok
      split: if_splits option.splits)

text \<open>The stages of a successful \<open>Load\<close>.\<close>

lemma Load_stages:
  assumes "Load getenv = Inr p"
  obtains ttl p1 p2 redirectURL where
    "parseSessionTTL (env getenv envSessionTTL ''15m'') = Inr ttl"
    "resolveAuth getenv ((initial_profile getenv)\<lparr>pSessionTTL := ttl\<rparr>) = Inr p1"
    "validateStaticFields p1 = Inr ()" "apply_mode getenv p1 = Inr p2"
    "validateURLs getenv p2 = Inr (redirectURL, p)" "validateBrowserFlow redirectURL p = Inr ()"
  using assms by (auto simp: Load_def bind_result_Inr_iff split: prod.splits)

text \<open>Authentication follows the API key, and only the opt-out leaves the key empty.\<close>

lemma Load_auth:
  assumes "Load getenv = Inr p"
  shows "pAPIKey p = getenv envAPIKey" "pAuthEnabled p = (pAPIKey p \<noteq> [])"
    "pAPIKey p = [] \<Longrightarrow> strings_EqualFold (getenv envAuthDisabled) ''true''"
proof -
  have "pAPIKey p = getenv envAPIKey \<and> pAuthEnabled p = (pAPIKey p \<noteq> [])
      \<and> (pAPIKey p = [] \<longrightarrow> strings_EqualFold (getenv envAuthDisabled) ''true'')"
    using assms
  proof (rule Load_stages)
    fix ttl p1 p2 redirectURL
    assume auth: "resolveAuth getenv ((initial_profile getenv)\<lparr>pSessionTTL := ttl\<rparr>) = Inr p1"
      and mode: "apply_mode getenv p1 = Inr p2" and urls: "validateURLs getenv p2 = Inr (redirectURL, p)"
    obtain ret where "p = p2\<lparr>pReturnURL := ret\<rparr>" using urls by (rule validateURLs_ok)
    then show ?thesis
      using resolveAuth_ok [OF auth] apply_mode_ok [OF mode] by (auto simp: initial_profile_def)
  qed
  then show "pAPIKey p = getenv envAPIKey" "pAuthEnabled p = (pAPIKey p \<noteq> [])"
    "pAPIKey p = [] \<Longrightarrow> strings_EqualFold (getenv envAuthDisabled) ''true''" by blast+
qed

section \<open>A live environment\<close>

text \<open>A complete production configuration whose operator opted out of authentication.\<close>

definition demo_live :: environment where
  "demo_live = map_str
     [(''TRUST_GATEWAY_MODE'', ''live''), (''TRUST_GATEWAY_ENV'', ''production''),
      (''TRUST_GATEWAY_CLIENT_ID'', ''id''), (''TRUST_GATEWAY_CLIENT_SECRET'', ''secret''),
      (''TRUST_GATEWAY_REDIRECT_URI'', ''https://gw.test/oauth/cleverbase/callback''),
      (''TRUST_GATEWAY_RETURN_URL'', ''https://app.test/done''),
      (''TRUST_GATEWAY_TSA_URL'', ''https://tsa.test''),
      (''TRUST_GATEWAY_AUTH_DISABLED'', ''True'')]"

lemma demo_live_checks:
  "case Load demo_live of Inl _ \<Rightarrow> False
   | Inr p \<Rightarrow> pMode p = ''live'' \<and> pEnvironment p = ''production'' \<and> pAPIKey p = [] \<and> \<not> pAuthEnabled p"
  by code_simp

lemma demo_live_loads:
  obtains p where "Load demo_live = Inr p" "pMode p = ''live''" "pEnvironment p = ''production''"
    "pAPIKey p = []" "\<not> pAuthEnabled p"
  using demo_live_checks by (cases "Load demo_live") auto

section \<open>Properties\<close>

text \<open>
  C30: every profile \<open>Load\<close> returns is within the documented values: a known mode, environment,
  CSC API and conformance level, a positive session TTL that fits an int64, and authentication on
  exactly when there is an API key; it is off only if the operator asked for it.
\<close>

theorem Load_profile_valid:
  assumes "Load getenv = Inr p"
  shows "pMode p \<in> {''fixtures'', ''live''} \<and> pEnvironment p \<in> {''acceptance'', ''production''}
    \<and> pCSCAPI p \<in> {''v1_rsa'', ''v2_ecdsa''} \<and> pDefaultConformance p \<in> {''B-B'', ''B-T''}
    \<and> 0 < pSessionTTL p \<and> pSessionTTL p \<le> 2 ^ 63 - 1
    \<and> pAPIKey p = getenv envAPIKey \<and> pAuthEnabled p = (pAPIKey p \<noteq> [])
    \<and> (pAuthEnabled p \<or> strings_EqualFold (getenv envAuthDisabled) ''true'')"
  using assms
proof (rule Load_stages)
  fix ttl p1 p2 redirectURL
  assume ttl: "parseSessionTTL (env getenv envSessionTTL ''15m'') = Inr ttl"
    and auth: "resolveAuth getenv ((initial_profile getenv)\<lparr>pSessionTTL := ttl\<rparr>) = Inr p1"
    and st: "validateStaticFields p1 = Inr ()" and mode: "apply_mode getenv p1 = Inr p2"
    and urls: "validateURLs getenv p2 = Inr (redirectURL, p)"
  obtain ret where p: "p = p2\<lparr>pReturnURL := ret\<rparr>" using urls by (rule validateURLs_ok)
  show ?thesis
    using parseSessionTTL_ok [OF ttl] resolveAuth_ok [OF auth] st apply_mode_ok [OF mode] p
    by (auto simp: validateStaticFields_ok mode_defs initial_profile_def)
qed

theorem Load_profile_valid_witness:
  "\<exists>p. Load demo_live = Inr p \<and> 0 < pSessionTTL p \<and> pDefaultConformance p \<in> {''B-B'', ''B-T''}"
proof -
  obtain p where "Load demo_live = Inr p" by (rule demo_live_loads)
  with Load_profile_valid [OF this] show ?thesis by blast
qed

text \<open>
  C31: a live profile is complete and its browser flow is safe. In live mode the client ID, the
  secret and the TSA URL are set; the redirect URI is an absolute URL whose path is the callback
  route; it and the return URL are https (or http on a loopback host) without query and fragment.
\<close>

theorem Load_live_profile:
  assumes "Load getenv = Inr p" and live: "pMode p = ''live''"
  shows "pClientID p \<noteq> [] \<and> pClientSecret p \<noteq> [] \<and> pTSAURL p \<noteq> []
    \<and> (\<exists>r. url_Parse (pRedirectURI p) = Some r \<and> Host r \<noteq> [] \<and> browser_url True r
          \<and> Path r = ''/oauth/cleverbase/callback'')
    \<and> (\<exists>u. pReturnURL p = Some u \<and> url_Parse (getenv envReturnURL) = Some u \<and> Host u \<noteq> []
          \<and> browser_url True u)"
  using assms(1)
proof (rule Load_stages)
  fix ttl p1 p2 redirectURL
  assume mode: "apply_mode getenv p1 = Inr p2"
    and urls: "validateURLs getenv p2 = Inr (redirectURL, p)" and flow: "validateBrowserFlow redirectURL p = Inr ()"
  obtain ret where red: "parseAbsoluteURL envRedirectURI (pRedirectURI p2) = Inr redirectURL"
    and ret: "parseAbsoluteURL envReturnURL (getenv envReturnURL) = Inr ret"
    and p: "p = p2\<lparr>pReturnURL := ret\<rparr>" using urls by (rule validateURLs_ok)
  have m: "pMode p1 = ModeLive" using live p apply_mode_ok(4) [OF mode] by (simp add: mode_defs)
  have vals: "p2 = p1" "getenv envReturnURL \<noteq> []" "pRedirectURI p1 \<noteq> []" "pClientID p1 \<noteq> []"
    "pClientSecret p1 \<noteq> []" "pTSAURL p1 \<noteq> []"
    using apply_mode_ok(2) [OF mode m] by (auto simp: live_values_def)
  obtain u where u: "ret = Some u" using parseAbsoluteURL_ok [OF ret] vals(2) by (cases ret) auto
  have "browser_url True u"
    using validateBrowserFlow_ok(1) [OF flow, of u] p u m vals(1) by simp
  moreover obtain r where "redirectURL = Some r" "browser_url True r" "Path r = OAuthCallbackPath"
    using validateBrowserFlow_ok(3) [OF flow] p m vals(1) by auto
  ultimately show ?thesis
    using parseAbsoluteURL_ok [OF ret] parseAbsoluteURL_ok [OF red] u p vals
    by (simp add: OAuthCallbackPath_def)
qed

theorem Load_live_profile_witness:
  "\<exists>p u. Load demo_live = Inr p \<and> pReturnURL p = Some u \<and> browser_url True u \<and> pTSAURL p \<noteq> []"
proof -
  obtain p where p: "Load demo_live = Inr p" "pMode p = ''live''" by (rule demo_live_loads)
  with Load_live_profile [OF p] show ?thesis by blast
qed

text \<open>
  C32: production refuses endpoint overrides. A profile for the production environment has no SDK
  endpoint override, and a public base URL, when it is set, is an https URL.
\<close>

theorem Load_production_policy:
  assumes "Load getenv = Inr p" and prod: "pEnvironment p = ''production''"
  shows "pSDKUpstreamBaseURL p = []
    \<and> (pPublicUpstreamBaseURL p = []
       \<or> (\<exists>u. url_Parse (pPublicUpstreamBaseURL p) = Some u \<and> Scheme u = ''https'' \<and> Host u \<noteq> []))"
  using assms(1)
proof (rule Load_stages)
  fix ttl p1 p2 redirectURL
  assume urls: "validateURLs getenv p2 = Inr (redirectURL, p)"
  obtain pub ret where pub: "parseAbsoluteURL envPublicBaseURL (pPublicUpstreamBaseURL p2) = Inr pub"
    and pol: "validateProductionURLPolicy pub p2 = Inr ()"
    and p: "p = p2\<lparr>pReturnURL := ret\<rparr>" using urls by (rule validateURLs_ok)
  show ?thesis
    using parseAbsoluteURL_ok [OF pub] pol p prod
    by (auto simp: validateProductionURLPolicy_def split: option.splits if_splits)
qed

theorem Load_production_policy_witness:
  "\<exists>p. Load demo_live = Inr p \<and> pSDKUpstreamBaseURL p = []"
proof -
  obtain p where p: "Load demo_live = Inr p" "pEnvironment p = ''production''" by (rule demo_live_loads)
  with Load_production_policy [OF p] show ?thesis by blast
qed

text \<open>
  C33: authentication is on by default. With neither an API key nor the explicit opt-out, \<open>Load\<close>
  fails; with both it fails too.
\<close>

theorem Load_auth_by_default:
  assumes "(getenv envAPIKey = []) = (\<not> strings_EqualFold (getenv envAuthDisabled) ''true'')"
  shows "\<exists>err. Load getenv = Inl err"
proof (rule ccontr)
  assume "\<nexists>err. Load getenv = Inl err"
  then obtain p where "Load getenv = Inr p" by (cases "Load getenv") auto
  then show False
  proof (rule Load_stages)
    fix ttl p1
    assume "resolveAuth getenv ((initial_profile getenv)\<lparr>pSessionTTL := ttl\<rparr>) = Inr p1"
    then show False
      using assms by (auto simp: resolveAuth_def initial_profile_def Let_def split: if_splits)
  qed
qed

theorem Load_auth_by_default_witness:
  "\<exists>err. Load (\<lambda>_. []) = Inl err"
  by (rule Load_auth_by_default) simp

text \<open>
  A live production gateway may run without an API key. \<open>Load\<close> accepts an environment in live
  mode with no API key, provided the opt-out is set, and returns a profile with authentication off.
\<close>

theorem Load_live_without_key:
  "\<exists>p. Load demo_live = Inr p \<and> pMode p = ''live'' \<and> pEnvironment p = ''production''
     \<and> pAPIKey p = [] \<and> \<not> pAuthEnabled p"
  by (rule demo_live_loads) blast

text \<open>
  C34: a session TTL written as a number and a unit means what it says. For every unit of the table
  and every number, \<open>parseSessionTTL\<close> returns the number times the unit in nanoseconds, and fails
  exactly when that is zero or does not fit an int64.
\<close>

theorem parseSessionTTL_units:
  assumes "unitMap u = Some k"
  shows "(if 0 < n \<and> int n * k \<le> 2 ^ 63 - 1 then parseSessionTTL (show_nat n @ u) = Inr (int n * k)
          else \<exists>err. parseSessionTTL (show_nat n @ u) = Inl err)"
  using ParseDuration_unit [OF assms, of n] unitMap_pos [OF assms]
  by (auto simp: parseSessionTTL_def mult_le_0_iff)

theorem parseSessionTTL_units_witness:
  "parseSessionTTL (show_nat 15 @ ''m'') = Inr 900000000000"
  using parseSessionTTL_units [of "''m''" 60000000000 15] by (simp add: unitMap_def)

end
