(* ===== verification/Http_Api.thy ===== *)
theory Http_Api
  imports Go_HTTP Flow_Contract Config_Profile
begin

text \<open>
  The REST service of internal/httpapi (service.go and auth.go): the middleware, the routes, and one
  definition per handler. A handler takes the headers set so far, the request and the state, and
  gives the response and the new state; None is a handler that does not return, because the engine's
  loop does not. The service's store and its engine's store are one, as cmd/server wires them.
\<close>

section \<open>The service\<close>

definition errCodeAlreadyProcessing :: string where "errCodeAlreadyProcessing = ''already_processing''"
definition maxPDFBytes :: nat where "maxPDFBytes = 20 * 1024 * 1024"
definition maxPDFJSONBodyBytes :: nat where "maxPDFJSONBodyBytes = maxPDFBytes * 4 div 3 + 65536"
definition maxCompleteBodyBytes :: nat where "maxCompleteBodyBytes = 65536"
definition maxClientStateBytes :: nat where "maxClientStateBytes = 1024"

record 'w service =
  svEngine :: "'w engine"
  svProfile :: profile
  svSample :: gobytes
  svHasLog :: bool
  svRand :: "nat \<Rightarrow> 'w \<Rightarrow> (go_error + string) \<times> 'w"

text \<open>The logger, or the one that discards when none was wired.\<close>

definition svc_log :: "'w service \<Rightarrow> log_level \<Rightarrow> string \<Rightarrow> (string \<times> log_value) list \<Rightarrow> 'w gstate \<Rightarrow> 'w gstate" where
  "svc_log s lvl msg attrs st = (if svHasLog s then st\<lparr>logs := logs st @ [(lvl, msg, attrs)]\<rparr> else st)"

definition writeJSON :: "header \<Rightarrow> int \<Rightarrow> any \<Rightarrow> response" where
  "writeJSON h code v =
     \<lparr>rsCode = code, rsHeader = set_header ''Content-Type'' ''application/json'' h, rsBody = json_Encode v\<rparr>"

definition writeErr :: "header \<Rightarrow> int \<Rightarrow> string \<Rightarrow> string \<Rightarrow> response" where
  "writeErr h code errCode msg = writeJSON h code (AMap [(''error'', AStr errCode), (''message'', AStr msg)])"

definition newCorrelationID :: "'w service \<Rightarrow> 'w \<Rightarrow> (go_error + string) \<times> 'w" where
  "newCorrelationID s w =
     (case svRand s 16 w of
        (Inl err, w1) \<Rightarrow> (Inl (EWrap ''generate correlation id'' err), w1)
      | (Inr b, w1) \<Rightarrow> (Inr (hex_EncodeToString b), w1))"

section \<open>Request bodies\<close>

record expected_signer_input =
  esMatchOn :: string
  esValue :: string

record start_request =
  srDocument :: string
  srConformanceLevel :: string
  srExpectedSigner :: "expected_signer_input option"
  srClientState :: string

record verify_request =
  vrDocument :: string

record complete_request =
  cqCode :: string
  cqError :: string
  cqState :: string

definition signer_decoder :: "expected_signer_input decoder" where
  "signer_decoder = decode_struct
     [(''matchOn'', string_field (\<lambda>v r. r\<lparr>esMatchOn := v\<rparr>)),
      (''value'', string_field (\<lambda>v r. r\<lparr>esValue := v\<rparr>))]"

text \<open>A pointer field: null makes it nil, anything else decodes into the struct it has or a new one.\<close>

definition signer_field :: "start_request decoder" where
  "signer_field v r =
     (if v = JNull then (r\<lparr>srExpectedSigner := None\<rparr>, False)
      else
        (let old = (case srExpectedSigner r of Some x \<Rightarrow> x | None \<Rightarrow> \<lparr>esMatchOn = [], esValue = []\<rparr>)
         in case signer_decoder v old of (x, bad) \<Rightarrow> (r\<lparr>srExpectedSigner := Some x\<rparr>, bad)))"

definition start_decoder :: "start_request decoder" where
  "start_decoder = decode_struct
     [(''document'', string_field (\<lambda>v r. r\<lparr>srDocument := v\<rparr>)),
      (''conformanceLevel'', string_field (\<lambda>v r. r\<lparr>srConformanceLevel := v\<rparr>)),
      (''expectedSigner'', signer_field),
      (''clientState'', string_field (\<lambda>v r. r\<lparr>srClientState := v\<rparr>))]"

definition verify_decoder :: "verify_request decoder" where
  "verify_decoder = decode_struct [(''document'', string_field (\<lambda>v r. r\<lparr>vrDocument := v\<rparr>))]"

definition complete_decoder :: "complete_request decoder" where
  "complete_decoder = decode_struct
     [(''code'', string_field (\<lambda>v r. r\<lparr>cqCode := v\<rparr>)),
      (''error'', string_field (\<lambda>v r. r\<lparr>cqError := v\<rparr>)),
      (''state'', string_field (\<lambda>v r. r\<lparr>cqState := v\<rparr>))]"

text \<open>One JSON value and nothing after it.\<close>

definition decodeSingleJSON :: "'r decoder \<Rightarrow> 'r \<Rightarrow> string \<times> stream_end \<Rightarrow> go_error + 'r" where
  "decodeSingleJSON dec target input =
     (case json_next (fst input) (snd input) of
        Inl err \<Rightarrow> Inl err
      | Inr (v, rest) \<Rightarrow>
          (case dec v target of (r, bad) \<Rightarrow>
             if bad then Inl (ENew ''json: cannot unmarshal'')
             else case json_trailing rest (snd input) of
                    Some err \<Rightarrow> Inl err
                  | None \<Rightarrow> Inr r))"

section \<open>Starting a session\<close>

definition conformance_of :: "'w service \<Rightarrow> start_request \<Rightarrow> string" where
  "conformance_of s req =
     (if srConformanceLevel req = [] then pDefaultConformance (svProfile s) else srConformanceLevel req)"

text \<open>
  The checks before any entropy is drawn or the engine is called: the status, code and message of
  the refusal, or the options and the document to sign.
\<close>

definition start_checks ::
  "'w service \<Rightarrow> start_request \<Rightarrow> int \<times> string \<times> string + options option \<times> gobytes" where
  "start_checks s req =
     (if length (srClientState req) > maxClientStateBytes
      then Inl (400, ''bad_request'', ''clientState exceeds the size limit'')
      else if pReturnURL (svProfile s) \<noteq> None \<and> srClientState req = []
      then Inl (400, ''bad_request'', ''clientState is required'')
      else
        (let opts = map_option (\<lambda>x. \<lparr>ExpectedSignerMatchOn = esMatchOn x, ExpectedSignerValue = esValue x\<rparr>)
               (srExpectedSigner req)
         in case options_Validate opts of
              Some err \<Rightarrow> Inl (400, ''bad_request'', error_text err)
            | None \<Rightarrow>
                (let decoded = (if srDocument req = [] then Inr (svSample s)
                       else case base64_DecodeString (srDocument req) of
                              None \<Rightarrow> Inl (400, ''bad_request'', ''document is not valid base64'')
                            | Some b \<Rightarrow>
                                if length b > maxPDFBytes
                                then Inl (413, ''payload_too_large'', ''document exceeds the size limit'')
                                else Inr (Some b))
                 in case decoded of
                      Inl refusal \<Rightarrow> Inl refusal
                    | Inr doc \<Rightarrow>
                        if blen doc = 0 then Inl (400, ''bad_request'', ''no document and no bundled sample'')
                        else Inr (opts, doc))))"

definition handleStart :: "'w service \<Rightarrow> header \<Rightarrow> request \<Rightarrow> 'w gstate \<Rightarrow> response \<times> 'w gstate" where
  "handleStart s h r st =
     (case decodeSingleJSON start_decoder
             \<lparr>srDocument = [], srConformanceLevel = [], srExpectedSigner = None, srClientState = []\<rparr>
             (MaxBytesReader maxPDFJSONBodyBytes (rBody r) (rEnd r)) of
        Inl err \<Rightarrow>
          (if errors_As_MaxBytes err
           then (writeErr h 413 ''payload_too_large'' ''request body too large'', st)
           else (writeErr h 400 ''bad_request'' ''invalid JSON body'', st))
      | Inr req \<Rightarrow>
          (case start_checks s req of
             Inl (code, errCode, msg) \<Rightarrow> (writeErr h code errCode msg, st)
           | Inr (opts, doc) \<Rightarrow>
               (case newCorrelationID s (world st) of
                  (Inl err, w) \<Rightarrow>
                    (writeErr h 500 ''internal_error'' ''internal server error'',
                     svc_log s LError ''correlation id generation failed'' [(''err'', LStr (error_text err))]
                       (st\<lparr>world := w\<rparr>))
                | (Inr corr, w) \<Rightarrow>
                    (case Begin (svEngine s) corr doc (conformance_of s req) (srClientState req) opts (st\<lparr>world := w\<rparr>) of
                       (Inl err, st1) \<Rightarrow>
                         (writeErr h 500 ''begin_failed'' ''could not start signing session'',
                          svc_log s LError ''begin failed''
                            [(''correlation_id'', LStr corr), (''err'', LStr (error_text err))] st1)
                     | (Inr (redirectURL, expiresAt), st1) \<Rightarrow>
                         (writeJSON h 200 (AMap [(''redirectUrl'', AStr redirectURL), (''correlationId'', AStr corr),
                            (''expiresAt'', AStr (format_RFC3339 expiresAt))]), st1)))))"

section \<open>Verifying a document\<close>

text \<open>The JSON form of a verdict: nil pointers are null, the fields in their order.\<close>

definition verification_json :: "pdf_verification \<Rightarrow> any" where
  "verification_json v = AStruct
     [(''integrity'', ABool (Integrity v)),
      (''profile'', (case Profile v of None \<Rightarrow> ANil | Some p \<Rightarrow> AStr p)),
      (''signer'', (case Signer v of None \<Rightarrow> ANil
                    | Some sg \<Rightarrow> AStruct [(''serial'', AStr (Serial sg)), (''cn'', AStr (CN sg))])),
      (''reasons'', (case Reasons v of None \<Rightarrow> ANil | Some rs \<Rightarrow> AList (map AStr rs)))]"

definition handleVerify :: "'w service \<Rightarrow> header \<Rightarrow> request \<Rightarrow> 'w gstate \<Rightarrow> response \<times> 'w gstate" where
  "handleVerify s h r st =
     (case decodeSingleJSON verify_decoder \<lparr>vrDocument = []\<rparr>
             (MaxBytesReader maxPDFJSONBodyBytes (rBody r) (rEnd r)) of
        Inl err \<Rightarrow>
          (if errors_As_MaxBytes err
           then (writeErr h 413 ''payload_too_large'' ''request body too large'', st)
           else (writeErr h 400 ''bad_request'' ''invalid JSON body'', st))
      | Inr req \<Rightarrow>
          (if vrDocument req = [] then (writeErr h 400 ''bad_request'' ''document is required'', st)
           else case base64_DecodeString (vrDocument req) of
                  None \<Rightarrow> (writeErr h 400 ''bad_request'' ''document is not valid base64'', st)
                | Some document \<Rightarrow>
                    if length document > maxPDFBytes
                    then (writeErr h 413 ''payload_too_large'' ''document exceeds the size limit'', st)
                    else case sdk_VerifyPDF (eSDK (svEngine s)) (world st) (Some document) of
                           (Inl err, w) \<Rightarrow>
                             (writeErr h 500 ''verify_failed'' ''could not verify document'',
                              svc_log s LError ''verify failed'' [(''err'', LStr (error_text err))] (st\<lparr>world := w\<rparr>))
                         | (Inr v, w) \<Rightarrow> (writeJSON h 200 (verification_json v), st\<lparr>world := w\<rparr>)))"

section \<open>Completing a session\<close>

record complete_result =
  crStatus :: status
  crRedirectURL :: string
  crReason :: string
  crCorrelationID :: string
  crClientState :: string

definition no_result :: complete_result where
  "no_result = \<lparr>crStatus = [], crRedirectURL = [], crReason = [], crCorrelationID = [], crClientState = []\<rparr>"

text \<open>The store's lookups under the service's clock.\<close>

definition svc_GetByState :: "'w service \<Rightarrow> string \<Rightarrow> 'w gstate \<Rightarrow> (sentinel + addr) \<times> 'w gstate" where
  "svc_GetByState s state st =
     (let (now, w) = eClock (svEngine s) (world st); (r, m) = GetByState state now (mem st)
      in (r, st\<lparr>mem := m, world := w\<rparr>))"

definition svc_ViewByID :: "'w service \<Rightarrow> string \<Rightarrow> 'w gstate \<Rightarrow> (sentinel + view) \<times> 'w gstate" where
  "svc_ViewByID s corr st =
     (let (now, w) = eClock (svEngine s) (world st); (r, m) = ViewByID corr now (mem st)
      in (r, st\<lparr>mem := m, world := w\<rparr>))"

text \<open>The part of \<open>complete\<close> after the engine has returned: the fresh view fills what is empty.\<close>

definition finish_complete ::
  "'w service \<Rightarrow> addr \<Rightarrow> drive_result \<Rightarrow> 'w gstate \<Rightarrow> (complete_result \<times> go_error option) \<times> 'w gstate" where
  "finish_complete s a res st =
     (case res of (status, redirectURL, reason, completeErr) \<Rightarrow>
        (case svc_ViewByID s (CorrelationID (heap (mem st) a)) st of
           (Inl err, st1) \<Rightarrow>
             ((no_result, (case completeErr of
                             Some e \<Rightarrow> Some e
                           | None \<Rightarrow> Some (EWrap ''view completed session'' (ESentinel err)))), st1)
         | (Inr v, st1) \<Rightarrow>
             ((\<lparr>crStatus = (if status = [] then vStatus v else status), crRedirectURL = redirectURL,
                crReason = (if reason = [] then vReason v else reason),
                crCorrelationID = vCorrelationID v, crClientState = vClientState v\<rparr>, completeErr), st1)))"

text \<open>The completion of a session the lookup has found; other requests may run in between.\<close>

definition complete_session ::
  "'w service \<Rightarrow> complete_request \<Rightarrow> addr \<Rightarrow> 'w gstate \<Rightarrow> ((complete_result \<times> go_error option) \<times> 'w gstate) option" where
  "complete_session s req a st =
     map_option (\<lambda>(res, st1). finish_complete s a res st1)
       (if cqError req \<noteq> [] then CompleteError (svEngine s) a (cqError req) (cqState req) st
        else Complete (svEngine s) a (cqCode req) (cqState req) st)"

definition complete ::
  "'w service \<Rightarrow> complete_request \<Rightarrow> 'w gstate \<Rightarrow> ((complete_result \<times> go_error option) \<times> 'w gstate) option" where
  "complete s req st =
     (if cqState req = [] \<or> (cqCode req = [] \<and> cqError req = [])
      then Some ((no_result, Some (ESentinel ErrInvalidComplete)), st)
      else
        (case svc_GetByState s (cqState req) st of
           (Inl _, st1) \<Rightarrow> Some ((no_result, Some (ESentinel ErrUnknownState)), st1)
         | (Inr a, st1) \<Rightarrow> complete_session s req a st1))"

definition returnsToApplication :: "complete_result \<Rightarrow> go_error option \<Rightarrow> bool" where
  "returnsToApplication result err =
     (err = None \<or> (status_Terminal (crStatus result) \<and> crCorrelationID result \<noteq> []))"

definition classifyCompleteError :: "go_error \<Rightarrow> int \<times> string \<times> string \<times> bool" where
  "classifyCompleteError err =
     (if errors_Is err FlowErrTerminal \<or> errors_Is err SessionErrResuming
      then (409, errCodeAlreadyProcessing, ''session is already being completed'', True)
      else (500, ''resume_failed'', ''could not complete signing session'', False))"

definition logCompleteError :: "'w service \<Rightarrow> go_error \<Rightarrow> string \<Rightarrow> bool \<Rightarrow> 'w gstate \<Rightarrow> 'w gstate" where
  "logCompleteError s err corr conflict st =
     (if conflict
      then svc_log s LInfo ''duplicate or in-flight complete rejected'' [(''correlation_id'', LStr corr)] st
      else svc_log s LError ''resume failed'' [(''correlation_id'', LStr corr), (''err'', LStr (error_text err))] st)"

definition writeCompleteError ::
  "'w service \<Rightarrow> header \<Rightarrow> go_error \<Rightarrow> string \<Rightarrow> 'w gstate \<Rightarrow> response \<times> 'w gstate" where
  "writeCompleteError s h err corr st =
     (if errors_Is err ErrInvalidComplete then (writeErr h 400 ''bad_request'' ''missing state, code, or error'', st)
      else if errors_Is err ErrUnknownState then (writeErr h 400 ''unknown_state'' ''no pending session for that state'', st)
      else case classifyCompleteError err of (code, errCode, msg, conflict) \<Rightarrow>
             (writeErr h code errCode msg, logCompleteError s err corr conflict st))"

text \<open>The body of a status answer: the reason only for a failure that has one.\<close>

definition status_body :: "status \<Rightarrow> (string \<times> any) list \<Rightarrow> string \<Rightarrow> any" where
  "status_body status extra reason =
     AMap ((''status'', AStr status) # extra
           @ (if status = StatusFailed \<and> reason \<noteq> [] then [(''reason'', AStr reason)] else []))"

definition complete_response ::
  "'w service \<Rightarrow> header \<Rightarrow> complete_result \<times> go_error option \<Rightarrow> 'w gstate \<Rightarrow> response \<times> 'w gstate" where
  "complete_response s h res st =
     (case res of (result, err) \<Rightarrow>
        (case err of
           Some e \<Rightarrow> writeCompleteError s h e (crCorrelationID result) st
         | None \<Rightarrow>
             (writeJSON h 200 (status_body (crStatus result)
                (if crRedirectURL result \<noteq> [] then [(''redirectUrl'', AStr (crRedirectURL result))] else [])
                (crReason result)), st)))"

definition handleComplete :: "'w service \<Rightarrow> header \<Rightarrow> request \<Rightarrow> 'w gstate \<Rightarrow> (response \<times> 'w gstate) option" where
  "handleComplete s h r st =
     (case decodeSingleJSON complete_decoder \<lparr>cqCode = [], cqError = [], cqState = []\<rparr>
             (MaxBytesReader maxCompleteBodyBytes (rBody r) (rEnd r)) of
        Inl err \<Rightarrow>
          Some (if errors_As_MaxBytes err
                then (writeErr h 413 ''payload_too_large'' ''request body too large'', st)
                else (writeErr h 400 ''bad_request'' ''invalid body or missing state'', st))
      | Inr req \<Rightarrow>
          map_option (\<lambda>(res, st1). complete_response s h res st1) (complete s req st))"

definition applicationReturnURL :: "url \<Rightarrow> complete_result \<Rightarrow> string" where
  "applicationReturnURL ret result =
     url_String (ret\<lparr>RawQuery := Values_Encode [(''clientState'', crClientState result),
                                             (''correlationId'', crCorrelationID result)]\<rparr>)"

text \<open>
  A nil return URL would be dereferenced by the callback; the server then drops the connection
  without a response. The route exists only when there is one.
\<close>

definition aborted :: response where
  "aborted = \<lparr>rsCode = 0, rsHeader = [], rsBody = []\<rparr>"

definition callback_response ::
  "'w service \<Rightarrow> header \<Rightarrow> request \<Rightarrow> complete_result \<times> go_error option \<Rightarrow> 'w gstate \<Rightarrow> response \<times> 'w gstate" where
  "callback_response s h r res st =
     (case res of (result, err) \<Rightarrow>
        if \<not> returnsToApplication result err
        then writeCompleteError s h (the err) (crCorrelationID result) st
        else
          (let st1 = (case err of
                        None \<Rightarrow> st
                      | Some e \<Rightarrow>
                          (case classifyCompleteError e of (_, _, _, conflict) \<Rightarrow>
                             logCompleteError s e (crCorrelationID result) conflict st))
           in if crRedirectURL result \<noteq> [] then (http_Redirect h r (crRedirectURL result) 302, st1)
              else case pReturnURL (svProfile s) of
                     None \<Rightarrow> (aborted, st1)
                   | Some ret \<Rightarrow> (http_Redirect h r (applicationReturnURL ret result) 302, st1)))"

definition handleOAuthCallback :: "'w service \<Rightarrow> header \<Rightarrow> request \<Rightarrow> 'w gstate \<Rightarrow> (response \<times> 'w gstate) option" where
  "handleOAuthCallback s h r st =
     (if rMethod r = ''HEAD''
      then Some (writeErr (set_header ''Allow'' ''GET'' h) 405 ''method_not_allowed'' ''HEAD is not supported'', st)
      else
        (let query = url_ParseQuery (RawQuery (rURL r))
         in map_option (\<lambda>(res, st1). callback_response s h r res st1)
              (complete s \<lparr>cqCode = query_Get query ''code'', cqError = query_Get query ''error'',
                           cqState = query_Get query ''state''\<rparr> st)))"

section \<open>Reading a session\<close>

definition correlation_query :: "request \<Rightarrow> string" where
  "correlation_query r = query_Get (url_ParseQuery (RawQuery (rURL r))) ''correlationId''"

definition handleStatus :: "'w service \<Rightarrow> header \<Rightarrow> request \<Rightarrow> 'w gstate \<Rightarrow> response \<times> 'w gstate" where
  "handleStatus s h r st =
     (case svc_ViewByID s (correlation_query r) st of
        (Inl _, st1) \<Rightarrow> (writeErr h 404 ''not_found'' ''unknown correlation id'', st1)
      | (Inr v, st1) \<Rightarrow> (writeJSON h 200 (status_body (vStatus v) [] (vReason v)), st1))"

definition handleResult :: "'w service \<Rightarrow> header \<Rightarrow> request \<Rightarrow> 'w gstate \<Rightarrow> response \<times> 'w gstate" where
  "handleResult s h r st =
     (case svc_ViewByID s (correlation_query r) st of
        (Inl _, st1) \<Rightarrow> (writeErr h 404 ''not_found'' ''unknown correlation id'', st1)
      | (Inr v, st1) \<Rightarrow>
          (if vStatus v \<noteq> StatusCompleted
           then (writeErr h 409 ''not_completed'' ''session is not completed'', st1)
           else
             (let h1 = (if blen (vEvidence v) > 0
                        then set_header ''X-Signature-Evidence'' (base64_EncodeToString (bytes_of (vEvidence v))) h
                        else h)
              in (\<lparr>rsCode = 200, rsHeader = set_header ''Content-Type'' ''application/pdf'' h1,
                   rsBody = bytes_of (vResultPDF v)\<rparr>, st1))))"

definition handleHealth :: "header \<Rightarrow> response" where
  "handleHealth h = writeJSON h 200 (AMap [(''status'', AStr ''ok'')])"

section \<open>Routes and the middleware\<close>

datatype route = RCallback | RStart | RComplete | RStatus | RResult | RVerify | RHealth

definition routes :: "profile \<Rightarrow> route pattern list" where
  "routes p =
     (if pReturnURL p \<noteq> None then [(''GET'', [''oauth'', ''cleverbase'', ''callback''], RCallback)] else [])
     @ [(''POST'', [''v1'', ''sign'', ''start''], RStart),
        (''POST'', [''v1'', ''sign'', ''complete''], RComplete),
        (''GET'', [''v1'', ''sign'', ''status''], RStatus),
        (''GET'', [''v1'', ''sign'', ''result''], RResult),
        (''POST'', [''v1'', ''verify''], RVerify),
        (''GET'', [''healthz''], RHealth),
        (''GET'', [''readyz''], RHealth)]"

fun run_route ::
  "'w service \<Rightarrow> route \<Rightarrow> header \<Rightarrow> request \<Rightarrow> 'w gstate \<Rightarrow> (response \<times> 'w gstate) option" where
  "run_route s RCallback h r st = handleOAuthCallback s h r st"
| "run_route s RStart h r st = Some (handleStart s h r st)"
| "run_route s RComplete h r st = handleComplete s h r st"
| "run_route s RStatus h r st = Some (handleStatus s h r st)"
| "run_route s RResult h r st = Some (handleResult s h r st)"
| "run_route s RVerify h r st = Some (handleVerify s h r st)"
| "run_route s RHealth h r st = Some (handleHealth h, st)"

definition serve_mux :: "'w service \<Rightarrow> header \<Rightarrow> request \<Rightarrow> 'w gstate \<Rightarrow> (response \<times> 'w gstate) option" where
  "serve_mux s h r st =
     (case mux_dispatch (routes (svProfile s)) r of
        Handler rt \<Rightarrow> run_route s rt h r st
      | Reply x \<Rightarrow> Some (mux_response h r x, st))"

text \<open>The constant-time comparison of the code is an equality of byte strings.\<close>

definition key_ok :: "profile \<Rightarrow> request \<Rightarrow> bool" where
  "key_ok p r =
     (let auth = Header_Get (rHeader r) ''Authorization'';
          token = strings_TrimPrefix auth ''Bearer ''
      in \<not> (pAPIKey p = [] \<or> \<not> strings_HasPrefix auth ''Bearer '' \<or> token \<noteq> pAPIKey p))"

definition open_request :: "profile \<Rightarrow> request \<Rightarrow> bool" where
  "open_request p r =
     (let path = Path (rURL r);
          callbackMethod = (rMethod r = ''GET'' \<or> rMethod r = ''HEAD'')
      in \<not> pAuthEnabled p \<or> path = ''/healthz'' \<or> path = ''/readyz''
         \<or> (callbackMethod \<and> path = OAuthCallbackPath))"

definition base_header :: "request \<Rightarrow> header" where
  "base_header r =
     (if strings_HasPrefix (Path (rURL r)) ''/v1/'' \<or> Path (rURL r) = OAuthCallbackPath
      then [(''Cache-Control'', ''no-store'')] else [])"

definition authMiddleware :: "'w service \<Rightarrow> request \<Rightarrow> 'w gstate \<Rightarrow> (response \<times> 'w gstate) option" where
  "authMiddleware s r st =
     (if open_request (svProfile s) r then serve_mux s (base_header r) r st
      else if \<not> key_ok (svProfile s) r
      then Some (writeErr (base_header r) 401 ''unauthorized'' ''missing or invalid API key'', st)
      else serve_mux s (base_header r) r st)"

text \<open>\<open>Service.Handler\<close>: what serves one request.\<close>

definition ServeHTTP :: "'w service \<Rightarrow> request \<Rightarrow> 'w gstate \<Rightarrow> (response \<times> 'w gstate) option" where
  "ServeHTTP = authMiddleware"

end
