(* ===== verification/Http_Contract.thy ===== *)
theory Http_Contract
  imports Http_Api
begin

text \<open>
  What the REST layer of \<open>Http_Api\<close> guarantees: the API key stands in front of every private route,
  whatever the form of the path; sensitive responses are not cached; refused requests change nothing;
  the browser goes back to the application with two opaque references and nothing else.
\<close>

section \<open>Which route a request reaches\<close>

fun route_paths :: "route \<Rightarrow> string list" where
  "route_paths RCallback = [''/oauth/cleverbase/callback'']"
| "route_paths RStart = [''/v1/sign/start'']"
| "route_paths RComplete = [''/v1/sign/complete'']"
| "route_paths RStatus = [''/v1/sign/status'']"
| "route_paths RResult = [''/v1/sign/result'']"
| "route_paths RVerify = [''/v1/verify'']"
| "route_paths RHealth = [''/healthz'', ''/readyz'']"

fun route_methods :: "route \<Rightarrow> string list" where
  "route_methods RStart = [''POST'']"
| "route_methods RComplete = [''POST'']"
| "route_methods RVerify = [''POST'']"
| "route_methods _ = [''GET'', ''HEAD'']"

lemma routes_literal:
  "(pm, segs, h) \<in> set (routes p) \<Longrightarrow> segs \<noteq> [] \<and> ''/'' \<notin> set segs \<and> pm \<noteq> ''CONNECT''"
  by (auto simp: routes_def split: if_splits)

lemma dispatch_route:
  assumes "mux_dispatch (routes p) r = Handler rt"
  shows "Path (rURL r) \<in> set (route_paths rt)" "rMethod r \<in> set (route_methods rt)"
    "rt = RCallback \<Longrightarrow> pReturnURL p \<noteq> None"
proof -
  obtain pm segs where "(pm, segs, rt) \<in> set (routes p)" "Path (rURL r) = concat (map (\<lambda>s. CHR ''/'' # s) segs)"
    "pm = rMethod r \<or> (rMethod r = ''HEAD'' \<and> pm = ''GET'')"
    using assms routes_literal by (rule mux_dispatch_path)
  then show "Path (rURL r) \<in> set (route_paths rt)" "rMethod r \<in> set (route_methods rt)"
    "rt = RCallback \<Longrightarrow> pReturnURL p \<noteq> None"
    by (auto simp: routes_def split: if_splits)
qed

lemma serve_mux_cases:
  obtains (handler) rt where "mux_dispatch (routes (svProfile s)) r = Handler rt"
      "serve_mux s h r st = run_route s rt h r st"
  | (reply) x where "serve_mux s h r st = Some (mux_response h r x, st)"
  by (cases "mux_dispatch (routes (svProfile s)) r") (auto simp: serve_mux_def)

section \<open>Headers survive\<close>

lemma set_header_other [simp]: "k \<noteq> k' \<Longrightarrow> map_of (AList.update k v h) k' = map_of h k'"
  by (simp add: amap.look_put)

lemma writeJSON_header [simp]: "map_of (rsHeader (writeJSON h c v)) ''Cache-Control'' = map_of h ''Cache-Control''"
  by (simp add: writeJSON_def)

lemma writeErr_header [simp]: "map_of (rsHeader (writeErr h c e m)) ''Cache-Control'' = map_of h ''Cache-Control''"
  by (simp add: writeErr_def)

lemma http_Redirect_header [simp]:
  "map_of (rsHeader (http_Redirect h r u c)) ''Cache-Control'' = map_of h ''Cache-Control''"
  by (simp add: http_Redirect_def Let_def)

lemma http_Error_header [simp]:
  "map_of (rsHeader (http_Error h m c)) ''Cache-Control'' = map_of h ''Cache-Control''"
  by (simp add: http_Error_def amap.look_del)

lemma mux_response_header [simp]:
  "map_of (rsHeader (mux_response h r x)) ''Cache-Control'' = map_of h ''Cache-Control''"
  by (cases x) simp_all

lemma handleStart_header: "map_of (rsHeader (fst (handleStart s h r st))) ''Cache-Control'' = map_of h ''Cache-Control''"
  by (simp add: handleStart_def split: sum.split prod.split)

lemma handleVerify_header: "map_of (rsHeader (fst (handleVerify s h r st))) ''Cache-Control'' = map_of h ''Cache-Control''"
  by (simp add: handleVerify_def split: sum.split prod.split option.split)

lemma handleStatus_header: "map_of (rsHeader (fst (handleStatus s h r st))) ''Cache-Control'' = map_of h ''Cache-Control''"
  by (simp add: handleStatus_def split: sum.split prod.split)

lemma handleResult_header: "map_of (rsHeader (fst (handleResult s h r st))) ''Cache-Control'' = map_of h ''Cache-Control''"
  by (simp add: handleResult_def Let_def split: sum.split prod.split)

lemma writeCompleteError_header:
  "map_of (rsHeader (fst (writeCompleteError s h e c st))) ''Cache-Control'' = map_of h ''Cache-Control''"
  by (simp add: writeCompleteError_def split: prod.split)

lemma handleComplete_header:
  assumes "handleComplete s h r st = Some (resp, st')"
  shows "map_of (rsHeader resp) ''Cache-Control'' = map_of h ''Cache-Control''"
proof -
  have "map_of (rsHeader resp) ''Cache-Control'' = map_of h ''Cache-Control''"
    if "writeCompleteError s h e c st1 = (resp, st')" for e c st1
    using writeCompleteError_header [of s h e c st1] that by simp
  then show ?thesis
    using assms by (auto simp: handleComplete_def complete_response_def split: sum.splits option.splits if_splits)
qed

lemma callback_header:
  assumes "callback_response s h r res st = (resp, st')" "pReturnURL (svProfile s) \<noteq> None"
  shows "map_of (rsHeader resp) ''Cache-Control'' = map_of h ''Cache-Control''"
proof -
  have "map_of (rsHeader resp) ''Cache-Control'' = map_of h ''Cache-Control''"
    if "writeCompleteError s h e c st1 = (resp, st')" for e c st1
    using writeCompleteError_header [of s h e c st1] that by simp
  then show ?thesis
    using assms by (auto simp: callback_response_def Let_def split: prod.splits option.splits if_splits)
qed

lemma handleOAuthCallback_header:
  assumes "handleOAuthCallback s h r st = Some (resp, st')" "pReturnURL (svProfile s) \<noteq> None"
  shows "map_of (rsHeader resp) ''Cache-Control'' = map_of h ''Cache-Control''"
proof (cases "rMethod r = ''HEAD''")
  case True
  with assms(1) have "resp = writeErr (set_header ''Allow'' ''GET'' h) 405 ''method_not_allowed'' ''HEAD is not supported''"
    by (simp add: handleOAuthCallback_def)
  then show ?thesis by simp
next
  case False
  with assms(1) obtain res st1 where "callback_response s h r res st1 = (resp, st')"
    by (auto simp: handleOAuthCallback_def Let_def)
  then show ?thesis using assms(2) by (rule callback_header)
qed

lemma run_route_header:
  assumes "run_route s rt h r st = Some (resp, st')" "rt = RCallback \<Longrightarrow> pReturnURL (svProfile s) \<noteq> None"
  shows "map_of (rsHeader resp) ''Cache-Control'' = map_of h ''Cache-Control''"
  using assms handleStart_header [of s h r st] handleVerify_header [of s h r st]
    handleStatus_header [of s h r st] handleResult_header [of s h r st]
    handleComplete_header [of s h r st resp st'] handleOAuthCallback_header [of s h r st resp st']
  by (cases rt) (auto simp: handleHealth_def)

lemma serve_mux_header:
  assumes "serve_mux s h r st = Some (resp, st')"
  shows "map_of (rsHeader resp) ''Cache-Control'' = map_of h ''Cache-Control''"
proof (cases rule: serve_mux_cases [of s r h st])
  case (handler rt)
  with assms dispatch_route(3) [of "svProfile s" r rt] show ?thesis
    using run_route_header [of s rt h r st resp st'] by simp
next
  case (reply x)
  with assms show ?thesis by auto
qed

section \<open>A service to apply the theorems to\<close>

definition demo_return :: url where
  "demo_return = empty_url\<lparr>Scheme := ''https'', Host := ''app.test'', Path := ''/done''\<rparr>"

definition demo_profile :: profile where
  "demo_profile =
     \<lparr>pMode = ''live'', pEnvironment = ''acceptance'', pCSCAPI = ''v1_rsa'', pClientID = ''id'',
      pClientSecret = ''secret'', pRedirectURI = ''https://gw.test/oauth/cleverbase/callback'',
      pReturnURL = Some demo_return, pTSAURL = ''https://tsa.test'', pTSAAuth = [], pTSAPolicy = [],
      pUpstreamBaseURL = [], pPublicUpstreamBaseURL = [], pSDKUpstreamBaseURL = [],
      pAPIKey = ''key'', pAuthEnabled = True, pDefaultConformance = ''B-B'', pSessionTTL = 900,
      pListen = '':8080''\<rparr>"

definition demo_service :: "int service" where
  "demo_service =
     \<lparr>svEngine = demo_engine, svProfile = demo_profile, svSample = Some ''%PDF'', svHasLog = True,
      svRand = (\<lambda>n w. (Inr (replicate n (chr 17)), w))\<rparr>"

definition demo_request :: "string \<Rightarrow> string \<Rightarrow> string \<Rightarrow> header \<Rightarrow> string \<Rightarrow> request" where
  "demo_request m path query hdr content =
     \<lparr>rMethod = m, rRequestURI = path, rURL = empty_url\<lparr>Path := path, RawQuery := query\<rparr>, rHeader = hdr,
      rBody = content, rEnd = EndEOF\<rparr>"

lemmas demo_service_defs = demo_return_def demo_profile_def demo_service_def demo_request_def

section \<open>Properties of the gate\<close>

text \<open>
  C16: the API key stands in front of every private operation. With authentication on and no valid
  key, a request either gets exactly the 401 answer and changes nothing, or its path is a health
  path and nothing changes, or it is a GET or HEAD of the callback path; and then the store can only
  change through the callback handler. This holds for every form of the URL, because a request is
  routed to a handler only when its decoded path is that handler's path.
\<close>

theorem api_key_gate:
  assumes auth: "pAuthEnabled (svProfile s)" "\<not> key_ok (svProfile s) r"
    and run: "ServeHTTP s r st = Some (resp, st')"
  shows "(if Path (rURL r) = ''/healthz'' \<or> Path (rURL r) = ''/readyz'' then st' = st
          else if Path (rURL r) = ''/oauth/cleverbase/callback'' \<and> (rMethod r = ''GET'' \<or> rMethod r = ''HEAD'')
          then st' = st \<or> handleOAuthCallback s (base_header r) r st = Some (resp, st')
          else resp = writeErr (base_header r) 401 ''unauthorized'' ''missing or invalid API key'' \<and> st' = st)"
proof -
  have route: "Path (rURL r) \<in> {''/healthz'', ''/readyz''} \<Longrightarrow> rt = RHealth"
    "Path (rURL r) = ''/oauth/cleverbase/callback'' \<Longrightarrow> rt = RCallback"
    if "mux_dispatch (routes (svProfile s)) r = Handler rt" for rt
    using dispatch_route(1) [OF that] by (cases rt; auto)+
  have open_run: "st' = st \<or> (\<exists>rt. mux_dispatch (routes (svProfile s)) r = Handler rt
      \<and> run_route s rt (base_header r) r st = Some (resp, st'))"
    if "serve_mux s (base_header r) r st = Some (resp, st')"
    using that by (cases rule: serve_mux_cases [of s r "base_header r" st]) auto
  show ?thesis
    using run auth open_run route
    by (auto simp: ServeHTTP_def authMiddleware_def open_request_def OAuthCallbackPath_def Let_def split: if_splits)
qed

theorem api_key_gate_witness:
  "\<exists>resp. ServeHTTP demo_service (demo_request ''POST'' ''/v1/sign/start'' [] [] ''{}'') demo_begun = Some (resp, demo_begun)
     \<and> rsCode resp = 401"
proof -
  let ?r = "demo_request ''POST'' ''/v1/sign/start'' [] [] ''{}''"
  have 1: "pAuthEnabled (svProfile demo_service)" "\<not> key_ok (svProfile demo_service) ?r"
    by (simp_all add: demo_service_defs key_ok_def Header_Get_def map_str_def strings_HasPrefix_def)
  have 2: "\<not> open_request (svProfile demo_service) ?r"
    by (simp add: open_request_def demo_service_defs OAuthCallbackPath_def Let_def)
  have 3: "ServeHTTP demo_service ?r demo_begun = Some
      (writeErr (base_header ?r) 401 ''unauthorized'' ''missing or invalid API key'', demo_begun)"
    using 1 2 by (simp add: ServeHTTP_def authMiddleware_def)
  from api_key_gate [OF 1 3] 3 show ?thesis by (simp add: writeErr_def writeJSON_def)
qed

text \<open>
  What counts as a valid key. The gate accepts exactly the header \<open>Bearer\<close> followed by the
  configured key, and never anything when the configured key is empty.
\<close>

lemma key_ok_iff:
  "key_ok p r \<longleftrightarrow> pAPIKey p \<noteq> [] \<and> Header_Get (rHeader r) ''Authorization'' = ''Bearer '' @ pAPIKey p"
proof -
  have "strings_TrimPrefix (''Bearer '' @ k) ''Bearer '' = k" for k
    by (rule strings_TrimPrefix_append)
  then show ?thesis by (auto simp: key_ok_def Let_def strings_HasPrefix_iff)
qed

text \<open>
  C37: sensitive responses are never cached. Every response to a request whose path is under /v1/ or
  is the callback path carries \<open>Cache-Control: no-store\<close>: refusals, routing errors, redirects and
  results alike.
\<close>

theorem sensitive_no_store:
  assumes "strings_HasPrefix (Path (rURL r)) ''/v1/'' \<or> Path (rURL r) = ''/oauth/cleverbase/callback''"
    and "ServeHTTP s r st = Some (resp, st')"
  shows "map_of (rsHeader resp) ''Cache-Control'' = Some ''no-store''"
proof -
  have "map_of (base_header r) ''Cache-Control'' = Some ''no-store''"
    using assms(1) by (auto simp: base_header_def OAuthCallbackPath_def)
  then show ?thesis
    using assms(2) serve_mux_header [of s "base_header r" r st resp st']
    by (auto simp: ServeHTTP_def authMiddleware_def split: if_splits)
qed

theorem sensitive_no_store_witness:
  "\<exists>resp. ServeHTTP demo_service (demo_request ''GET'' ''/v1/nowhere'' [] [(''Authorization'', ''Bearer key'')] []) demo_begun
      = Some (resp, demo_begun) \<and> map_of (rsHeader resp) ''Cache-Control'' = Some ''no-store''"
proof -
  let ?r = "demo_request ''GET'' ''/v1/nowhere'' [] [(''Authorization'', ''Bearer key'')] []"
  have "case mux_dispatch (routes demo_profile) ?r of Reply NotFound \<Rightarrow> True | _ \<Rightarrow> False" by code_simp
  then have d: "mux_dispatch (routes (svProfile demo_service)) ?r = Reply NotFound"
    by (simp add: demo_service_def split: dispatch.splits mux_reply.splits)
  have k: "key_ok (svProfile demo_service) ?r" unfolding demo_service_def by code_simp
  have 1: "strings_HasPrefix (Path (rURL ?r)) ''/v1/'' \<or> Path (rURL ?r) = ''/oauth/cleverbase/callback''"
    by (simp add: demo_request_def strings_HasPrefix_def)
  have 2: "ServeHTTP demo_service ?r demo_begun = Some (mux_response (base_header ?r) ?r NotFound, demo_begun)"
    using d k by (simp add: ServeHTTP_def authMiddleware_def serve_mux_def)
  from sensitive_no_store [OF 1 2] 2 show ?thesis by simp
qed

section \<open>What the handlers do to the state\<close>

lemma svc_log_simps [simp]:
  "mem (svc_log s lvl m a st) = mem st" "world (svc_log s lvl m a st) = world st"
  by (simp_all add: svc_log_def)

lemma logCompleteError_simps [simp]:
  "mem (logCompleteError s e c b st) = mem st" "world (logCompleteError s e c b st) = world st"
  by (simp_all add: logCompleteError_def)

lemma writeErr_code [simp]: "rsCode (writeErr h c e m) = c"
  by (simp add: writeErr_def writeJSON_def)

lemma writeJSON_code [simp]: "rsCode (writeJSON h c v) = c"
  by (simp add: writeJSON_def)

text \<open>A start that is not refused: the decoded request passed the checks and \<open>Begin\<close> succeeded.\<close>

lemma start_checks_codes: "start_checks s req = Inl (c, e, m) \<Longrightarrow> c = 400 \<or> c = 413"
  by (auto simp: start_checks_def Let_def split: if_splits option.splits sum.splits)

lemma handleStart_ok:
  assumes "handleStart s h r st = (resp, st')" "rsCode resp = 200"
  obtains req opts doc corr w url deadline where
    "decodeSingleJSON start_decoder
       \<lparr>srDocument = [], srConformanceLevel = [], srExpectedSigner = None, srClientState = []\<rparr>
       (MaxBytesReader maxPDFJSONBodyBytes (rBody r) (rEnd r)) = Inr req"
    "start_checks s req = Inr (opts, doc)" "newCorrelationID s (world st) = (Inr corr, w)"
    "Begin (svEngine s) corr doc (conformance_of s req) (srClientState req) opts (st\<lparr>world := w\<rparr>)
       = (Inr (url, deadline), st')"
    "resp = writeJSON h 200 (AMap [(''redirectUrl'', AStr url), (''correlationId'', AStr corr),
       (''expiresAt'', AStr (format_RFC3339 deadline))])"
  using assms
  by (fastforce simp: handleStart_def dest: start_checks_codes split: sum.splits prod.splits if_splits)

lemma handleStart_refused:
  assumes "handleStart s h r st = (resp, st')" "rsCode resp \<noteq> 200"
  shows "mem st' = mem st"
  using assms
  by (auto simp: handleStart_def dest!: Begin_fails(1) split: sum.splits prod.splits if_splits)

lemma start_checks_ok:
  assumes "start_checks s req = Inr (opts, doc)"
  shows "blen doc \<noteq> 0"
    "if srDocument req = [] then doc = svSample s
     else doc = base64_DecodeString (srDocument req) \<and> blen doc \<le> 20971520"
    "opts = map_option (\<lambda>x. \<lparr>ExpectedSignerMatchOn = esMatchOn x, ExpectedSignerValue = esValue x\<rparr>) (srExpectedSigner req)"
    "length (srClientState req) \<le> 1024" "options_Validate opts = None"
    "pReturnURL (svProfile s) = None \<or> srClientState req \<noteq> []"
  using assms
  by (cases "base64_DecodeString (srDocument req)";
      auto simp: start_checks_def maxPDFBytes_def maxClientStateBytes_def Let_def not_less
        split: if_splits option.splits sum.splits)+

definition rand16 :: "'w service \<Rightarrow> bool" where
  "rand16 s \<longleftrightarrow> (\<forall>w b w1. svRand s 16 w = (Inr b, w1) \<longrightarrow> length b = 16)"

lemma newCorrelationID_length:
  "newCorrelationID s w = (Inr corr, w1) \<Longrightarrow> rand16 s \<Longrightarrow> length corr = 32"
proof -
  assume corr: "newCorrelationID s w = (Inr corr, w1)" and r: "rand16 s"
  obtain x v where x: "svRand s 16 w = (x, v)" by (cases "svRand s 16 w")
  with corr obtain b where "x = Inr b" "corr = hex_EncodeToString b"
    by (cases x) (auto simp: newCorrelationID_def)
  moreover from this x r have "length b = 16" by (auto simp: rand16_def)
  ultimately show ?thesis by (simp add: length_hex_EncodeToString)
qed

section \<open>Properties of starting and verifying\<close>

text \<open>
  C17: a start either creates one session, the one the request asks for, or changes nothing. If the
  answer is 200, the body decoded to a request; the SDK was given its document, decoded from base64 and
  at most 20 MiB (the bundled sample if it has none), its conformance level (the configured one if it
  has none) and its expected signer; and exactly one session was created, authorizing, with a fresh
  random correlation ID of 32 hexadecimal digits, the request's client state (at most 1 KiB, and not
  empty if the browser is to return to an application), that conformance level, the SDK's handle and
  the OAuth state of its redirect. The session is found by its correlation ID and by its state, and the
  answer carries the redirect's URL, the correlation ID and the session's deadline. Any other answer
  leaves the store as it was.
\<close>

theorem start_creates_one_session:
  assumes run: "handleStart s h r st = (resp, st')" and rng: "rand16 s"
  shows "(if rsCode resp = 200 then
      (\<exists>req opts doc conf corr w res u state now.
         decodeSingleJSON start_decoder
           \<lparr>srDocument = [], srConformanceLevel = [], srExpectedSigner = None, srClientState = []\<rparr>
           (MaxBytesReader maxPDFJSONBodyBytes (rBody r) (rEnd r)) = Inr req
         \<and> opts = map_option (\<lambda>x. \<lparr>ExpectedSignerMatchOn = esMatchOn x, ExpectedSignerValue = esValue x\<rparr>)
             (srExpectedSigner req)
         \<and> (if srDocument req = [] then doc = svSample s
             else doc = base64_DecodeString (srDocument req) \<and> blen doc \<le> 20971520)
         \<and> blen doc \<noteq> 0
         \<and> conf = (if srConformanceLevel req = [] then pDefaultConformance (svProfile s) else srConformanceLevel req)
         \<and> length (srClientState req) \<le> 1024 \<and> (pReturnURL (svProfile s) = None \<or> srClientState req \<noteq> [])
         \<and> newCorrelationID s (world st) = (Inr corr, w) \<and> length corr = 32
         \<and> fst (sdk_Begin (eSDK (svEngine s)) w doc conf opts) = Inr res
         \<and> stepRedirect (rStep res) = Inr (u, state)
         \<and> resp = writeJSON h 200 (AMap [(''redirectUrl'', AStr (rewriteRedirect (svEngine s) u)),
             (''correlationId'', AStr corr), (''expiresAt'', AStr (format_RFC3339 (now + eTTL (svEngine s))))])
         \<and> heap (mem st') = (heap (mem st))(next_addr (mem st) :=
             begun corr state (srClientState req) conf (eTTL (svEngine s)) now (rHandle res))
         \<and> map_of (byID (mem st')) corr = Some (next_addr (mem st))
         \<and> map_of (byState (mem st')) state = Some corr)
    else mem st' = mem st)"
proof (cases "rsCode resp = 200")
  case False
  with run show ?thesis by (simp add: handleStart_refused)
next
  case True
  obtain req opts doc corr w url deadline where
    dec: "decodeSingleJSON start_decoder
       \<lparr>srDocument = [], srConformanceLevel = [], srExpectedSigner = None, srClientState = []\<rparr>
       (MaxBytesReader maxPDFJSONBodyBytes (rBody r) (rEnd r)) = Inr req"
    and chk: "start_checks s req = Inr (opts, doc)" and corr: "newCorrelationID s (world st) = (Inr corr, w)"
    and beg: "Begin (svEngine s) corr doc (conformance_of s req) (srClientState req) opts (st\<lparr>world := w\<rparr>)
       = (Inr (url, deadline), st')"
    and resp: "resp = writeJSON h 200 (AMap [(''redirectUrl'', AStr url), (''correlationId'', AStr corr),
       (''expiresAt'', AStr (format_RFC3339 deadline))])"
    using run True by (rule handleStart_ok)
  note ok = start_checks_ok [OF chk] newCorrelationID_length [OF corr rng]
  note conf = conformance_of_def [of s req]
  from beg obtain res u state now where b:
    "fst (sdk_Begin (eSDK (svEngine s)) (world (st\<lparr>world := w\<rparr>)) doc (conformance_of s req) opts) = Inr res"
    "stepRedirect (rStep res) = Inr (u, state)" "url = rewriteRedirect (svEngine s) u"
    "deadline = now + eTTL (svEngine s)"
    "heap (mem st') = (heap (mem (st\<lparr>world := w\<rparr>)))(next_addr (mem (st\<lparr>world := w\<rparr>)) :=
       begun corr state (srClientState req) (conformance_of s req) (eTTL (svEngine s)) now (rHandle res))"
    "map_of (byID (mem st')) corr = Some (next_addr (mem (st\<lparr>world := w\<rparr>)))"
    "map_of (byState (mem st')) state = Some corr"
    by (rule Begin_success)
  have sdk: "fst (sdk_Begin (eSDK (svEngine s)) w doc (conformance_of s req) opts) = Inr res"
    "heap (mem st') = (heap (mem st))(next_addr (mem st) :=
       begun corr state (srClientState req) (conformance_of s req) (eTTL (svEngine s)) now (rHandle res))"
    "map_of (byID (mem st')) corr = Some (next_addr (mem st))"
    using b by simp_all
  show ?thesis unfolding if_P [OF True]
    by (rule exI [of _ req], rule exI [of _ opts], rule exI [of _ doc], rule exI [of _ "conformance_of s req"],
        rule exI [of _ corr], rule exI [of _ w], rule exI [of _ res], rule exI [of _ u], rule exI [of _ state],
        rule exI [of _ now], intro conjI)
      (rule dec ok(1-4,6,7) conf corr b(2,7) sdk resp [unfolded b(3,4)])+
qed

text \<open>The request \<open>{"clientState":"app"}\<close>, decoded.\<close>

definition demo_start :: request where
  "demo_start = demo_request ''POST'' ''/v1/sign/start'' [] [] (json_Encode (AMap [(''clientState'', AStr ''app'')]))"

lemma demo_start_decodes:
  "decodeSingleJSON start_decoder
     \<lparr>srDocument = [], srConformanceLevel = [], srExpectedSigner = None, srClientState = []\<rparr>
     (MaxBytesReader maxPDFJSONBodyBytes (rBody demo_start) (rEnd demo_start))
   = Inr \<lparr>srDocument = [], srConformanceLevel = [], srExpectedSigner = None, srClientState = ''app''\<rparr>"
proof -
  have 1: "length (rBody demo_start) = 22" by code_simp
  have 2: "decodeSingleJSON start_decoder
     \<lparr>srDocument = [], srConformanceLevel = [], srExpectedSigner = None, srClientState = []\<rparr>
     (rBody demo_start, EndEOF)
   = Inr \<lparr>srDocument = [], srConformanceLevel = [], srExpectedSigner = None, srClientState = ''app''\<rparr>"
    by code_simp
  have 3: "rEnd demo_start = EndEOF" by (simp add: demo_start_def demo_request_def)
  show ?thesis using 2 by (simp add: MaxBytesReader_def 1 3 maxPDFJSONBodyBytes_def maxPDFBytes_def)
qed

lemma demo_start_200: "rsCode (fst (handleStart demo_service [] demo_start demo_state)) = 200"
  by (simp add: handleStart_def demo_start_decodes start_checks_def maxClientStateBytes_def options_Validate_def
      demo_service_def demo_profile_def newCorrelationID_def Begin_def demo_defs step_readers Let_def NewSession_unfold)

theorem start_creates_one_session_witness:
  "\<exists>corr. length corr = 32 \<and> map_of (byID (mem (snd (handleStart demo_service [] demo_start demo_state)))) corr = Some 0
     \<and> ClientState (heap (mem (snd (handleStart demo_service [] demo_start demo_state))) 0) = ''app''"
proof -
  let ?x = "handleStart demo_service [] demo_start demo_state"
  have run: "handleStart demo_service [] demo_start demo_state = (fst ?x, snd ?x)" by simp
  have "rand16 demo_service" by (simp add: rand16_def demo_service_def)
  from start_creates_one_session [OF run this] demo_start_200 show ?thesis
    by (auto simp: demo_state_def NewMemory_def demo_start_decodes begun_def new_session_def)
qed

text \<open>
  Verification is stateless. A verify request never changes the store; it answers 200 exactly
  with the SDK's verdict on a document of at most 20 MiB, and otherwise with an error.
\<close>

theorem verify_stateless:
  "case handleVerify s h r st of (resp, st') \<Rightarrow>
     mem st' = mem st
     \<and> (rsCode resp \<in> {400, 413, 500}
        \<or> (\<exists>doc v. length doc \<le> 20971520
             \<and> sdk_VerifyPDF (eSDK (svEngine s)) (world st) (Some doc) = (Inr v, world st')
             \<and> logs st' = logs st \<and> resp = writeJSON h 200 (verification_json v)))"
  by (auto simp: handleVerify_def maxPDFBytes_def not_less split: sum.split prod.split option.split)

section \<open>Properties of reading\<close>

text \<open>
  C20: what the result endpoint delivers. A correlation ID the store does not know (any more) is a
  404. A completed session answers 200 with exactly the stored PDF and a header from which the stored
  evidence decodes; its deadline plays no role, so until a later start evicts the session the result is
  delivered after its TTL too, which the README rules out (see the findings). Any other session answers
  409 and no document.
\<close>

theorem result_endpoint:
  "case handleResult s h r st of (resp, st') \<Rightarrow>
     (case map_of (byID (mem st)) (correlation_query r) of
        None \<Rightarrow> rsCode resp = 404 \<and> mem st' = mem st
      | Some a \<Rightarrow>
          (if Status (heap (mem st) a) = StatusCompleted
           then rsCode resp = 200 \<and> rsBody resp = bytes_of (ResultPDF (heap (mem st) a)) \<and> mem st' = mem st
             \<and> (blen (Evidence (heap (mem st) a)) = 0
                \<or> Option.bind (map_of (rsHeader resp) ''X-Signature-Evidence'') base64_DecodeString
                   = Some (bytes_of (Evidence (heap (mem st) a))))
           else resp = writeErr h 409 ''not_completed'' ''session is not completed''))"
proof -
  obtain now w where clk: "eClock (svEngine s) (world st) = (now, w)" by (cases "eClock (svEngine s) (world st)")
  show ?thesis
  proof (cases "map_of (byID (mem st)) (correlation_query r)")
    case None
    then show ?thesis by (simp add: handleResult_def svc_ViewByID_def ViewByID_def clk)
  next
    case (Some a)
    show ?thesis
    proof (cases "Status (heap (mem st) a) = StatusCompleted")
      case True
      then have "expireLocked now a (mem st) = mem st" "expire_session now (heap (mem st) a) = heap (mem st) a"
        by (simp_all add: expireLocked_def Terminal_def expire_session_def expired_def)
      with Some True show ?thesis
        by (simp add: handleResult_def svc_ViewByID_def ViewByID_def clk session_view_def Let_def
            base64_decode_encode amap.look_put)
    next
      case False
      then have "Status (expire_session now (heap (mem st) a)) \<noteq> StatusCompleted"
        by (simp add: expire_session_def)
      with Some False show ?thesis
        by (simp add: handleResult_def svc_ViewByID_def ViewByID_def clk session_view_def Let_def)
    qed
  qed
qed

text \<open>
  C21: a session that ran out is reported and stripped. Asking for the status of a live session after
  its deadline answers \<open>failed\<close> with \<open>session_expired\<close> and drops its handle and its OAuth state
  from the session and from the index; any other session is reported as it is, with a reason exactly
  if it failed with one, and the store is not changed.
\<close>

theorem status_endpoint:
  assumes "map_of (byID (mem st)) (correlation_query r) = Some a"
    and clk: "eClock (svEngine s) (world st) = (now, w)"
  shows "case handleStatus s h r st of (resp, st') \<Rightarrow>
    (if \<not> Terminal (heap (mem st) a) \<and> ExpiresAt (heap (mem st) a) < now
     then resp = writeJSON h 200 (AMap [(''status'', AStr ''failed''), (''reason'', AStr ''session_expired'')])
       \<and> Handle (heap (mem st') a) = None \<and> OAuthState (heap (mem st') a) = []
       \<and> (OAuthState (heap (mem st) a) = [] \<or> map_of (byState (mem st')) (OAuthState (heap (mem st) a)) = None)
     else resp = writeJSON h 200 (AMap ((''status'', AStr (Status (heap (mem st) a)))
         # (if Status (heap (mem st) a) = StatusFailed \<and> Reason (heap (mem st) a) \<noteq> []
            then [(''reason'', AStr (Reason (heap (mem st) a)))] else []))) \<and> mem st' = mem st)"
proof (cases "expired now (heap (mem st) a)")
  case True
  with assms show ?thesis
    by (simp add: handleStatus_def svc_ViewByID_def ViewByID_def session_view_def Let_def status_body_def
        expire_session_def byState_expireLocked expired_def reasonSessionExpired_def StatusFailed_def)
next
  case False
  then have "expireLocked now a (mem st) = mem st" "expire_session now (heap (mem st) a) = heap (mem st) a"
    by (auto simp: expireLocked_def expired_def expire_session_def)
  with False assms show ?thesis
    by (auto simp: handleStatus_def svc_ViewByID_def ViewByID_def session_view_def Let_def status_body_def
        expired_def)
qed

theorem status_endpoint_witness:
  "fst (handleStatus demo_service [] (demo_request ''GET'' ''/v1/sign/status'' ''correlationId=c1'' [] [])
      (demo_begun\<lparr>world := 902\<rparr>))
   = writeJSON [] 200 (AMap [(''status'', AStr ''failed''), (''reason'', AStr ''session_expired'')])"
proof -
  let ?r = "demo_request ''GET'' ''/v1/sign/status'' ''correlationId=c1'' [] []" and ?st = "demo_begun\<lparr>world := 902\<rparr>"
  have "correlation_query ?r = ''c1''" by code_simp
  then have 1: "map_of (byID (mem ?st)) (correlation_query ?r) = Some 0" by (simp add: demo_begun_eq)
  have 2: "eClock (svEngine demo_service) (world ?st) = (902, 903)"
    by (simp add: demo_service_def demo_engine_def)
  from status_endpoint [OF 1 2, of "[]"] show ?thesis
    by (simp add: demo_begun_eq begun_def new_session_def Terminal_def split: prod.splits)
qed

section \<open>Properties of completing\<close>

text \<open>
  An OAuth state that is not pending reaches no session. A completion, by the JSON endpoint or the
  browser callback, whose state the store does not index answers 400 \<open>unknown_state\<close>; the engine is
  not called and the store is not changed.
\<close>

theorem unknown_state_refused:
  assumes "map_of (byState (mem st)) (cqState req) = None" "cqState req \<noteq> []" "cqCode req \<noteq> [] \<or> cqError req \<noteq> []"
  shows "\<exists>w. complete s req st = Some ((no_result, Some (ESentinel ErrUnknownState)), st\<lparr>world := w\<rparr>)
    \<and> (\<forall>h. writeCompleteError s h (ESentinel ErrUnknownState) [] (st\<lparr>world := w\<rparr>)
         = (writeErr h 400 ''unknown_state'' ''no pending session for that state'', st\<lparr>world := w\<rparr>))
    \<and> \<not> returnsToApplication no_result (Some (ESentinel ErrUnknownState))"
proof (cases "eClock (svEngine s) (world st)")
  case (Pair now w)
  then have "svc_GetByState s (cqState req) st = (Inl SessionErrNotFound, st\<lparr>world := w\<rparr>)"
    using assms(1) by (simp add: svc_GetByState_def GetByState_def map_str_def)
  then show ?thesis
    using assms(2,3)
    by (intro exI [of _ w]) (auto simp: complete_def complete_session_def writeCompleteError_def returnsToApplication_def no_result_def)
qed

theorem unknown_state_refused_witness:
  "\<exists>w. complete demo_service \<lparr>cqCode = ''c'', cqError = [], cqState = ''forged''\<rparr> demo_begun
     = Some ((no_result, Some (ESentinel ErrUnknownState)), demo_begun\<lparr>world := w\<rparr>)"
proof -
  have "map_of (byState (mem demo_begun)) (cqState \<lparr>cqCode = ''c'', cqError = [], cqState = ''forged''\<rparr>) = None"
    by (simp add: demo_begun_eq)
  from unknown_state_refused [OF this] show ?thesis by auto
qed

text \<open>
  C18: how a duplicate or late callback is answered. After the lookup has found the session, other
  requests may run; when the claim is then lost (the session has finished, has run out, or is being
  resumed by another callback), the SDK and the upstream service are not called, the session is at most
  expired, and the completion ends in an error. The JSON endpoint answers 409 \<open>already_processing\<close>. The
  browser callback answers the same while the session is not terminal; when it is, the browser is sent
  to the application with the session's own client state and correlation ID.
\<close>

theorem lost_claim_answers:
  assumes lost: "eClock (svEngine s) (world st) = (now, w)" "\<not> claimable now (heap (mem st) a)"
    and ix: "map_of (byID (mem st)) (CorrelationID (heap (mem st) a)) = Some a" "CorrelationID (heap (mem st) a) \<noteq> []"
    and ret: "pReturnURL (svProfile s) = Some ret"
  shows "\<exists>result err now2 st'. complete_session s req a st = Some ((result, Some err), st')
    \<and> eClock (svEngine s) w = (now2, world st') \<and> logs st' = logs st
    \<and> mem st' = expireLocked now2 a (expireLocked now a (mem st))
    \<and> fst (complete_response s h (result, Some err) st')
        = writeErr h 409 ''already_processing'' ''session is already being completed''
    \<and> fst (callback_response s h r (result, Some err) st')
        = (if Terminal (heap (mem st') a) then http_Redirect h r (applicationReturnURL ret result) 302
           else writeErr h 409 ''already_processing'' ''session is already being completed'')
    \<and> crClientState result = ClientState (heap (mem st) a) \<and> crCorrelationID result = CorrelationID (heap (mem st) a)
    \<and> (\<forall>st0. cqState req \<noteq> [] \<and> (cqCode req \<noteq> [] \<or> cqError req \<noteq> [])
           \<and> svc_GetByState s (cqState req) st0 = (Inr a, st)
         \<longrightarrow> complete s req st0 = Some ((result, Some err), st'))"
proof -
  define err where "err = ESentinel (if Terminal (heap (mem st) a) \<or> now > ExpiresAt (heap (mem st) a)
                         then FlowErrTerminal else SessionErrResuming)"
  obtain now2 w2 where clk: "eClock (svEngine s) w = (now2, w2)" by (cases "eClock (svEngine s) w")
  define st1 where "st1 = st\<lparr>mem := expireLocked now a (mem st), world := w\<rparr>"
  define st2 where "st2 = st1\<lparr>mem := expireLocked now2 a (mem st1), world := w2\<rparr>"
  define v where "v = session_view (heap (mem st2) a)"
  define result where "result = \<lparr>crStatus = vStatus v, crRedirectURL = [], crReason = vReason v,
    crCorrelationID = vCorrelationID v, crClientState = vClientState v\<rparr>"
  have look1: "svc_ViewByID s (CorrelationID (heap (mem st1) a)) st1 = (Inr v, st2)"
    using ix clk by (simp add: svc_ViewByID_def ViewByID_def Let_def st1_def st2_def v_def)
  have run: "complete_session s req a st = Some ((result, Some err), st2)"
    unfolding complete_session_def Complete_def CompleteError_def complete_with_lost [OF lost]
    unfolding err_def [symmetric] st1_def [symmetric]
    by (simp add: finish_complete_def look1 result_def)
  have ids: "crClientState result = ClientState (heap (mem st) a)" "crCorrelationID result = CorrelationID (heap (mem st) a)"
    "crRedirectURL result = []"
    by (simp_all add: result_def v_def session_view_def st1_def st2_def)
  have over: "status_Terminal (crStatus result) \<longleftrightarrow> Terminal (heap (mem st2) a)"
    by (simp add: result_def v_def session_view_def Terminal_def)
  have c409: "fst (writeCompleteError s h err c st2) = writeErr h 409 ''already_processing'' ''session is already being completed''"
    for c by (simp add: err_def writeCompleteError_def classifyCompleteError_def errCodeAlreadyProcessing_def)
  have cb: "fst (callback_response s h r (result, Some err) st2)
      = (if Terminal (heap (mem st2) a) then http_Redirect h r (applicationReturnURL ret result) 302
         else writeErr h 409 ''already_processing'' ''session is already being completed'')"
    unfolding callback_response_def returnsToApplication_def
    using ix(2) ret c409 by (simp add: over ids Let_def)
  have look: "complete s req st0 = Some ((result, Some err), st2)"
    if "cqState req \<noteq> []" "cqCode req \<noteq> [] \<or> cqError req \<noteq> []" "svc_GetByState s (cqState req) st0 = (Inr a, st)" for st0
    using that run by (auto simp: complete_def)
  have st2: "eClock (svEngine s) w = (now2, world st2)" "logs st2 = logs st"
    "mem st2 = expireLocked now2 a (expireLocked now a (mem st))"
    by (simp_all add: clk st1_def st2_def)
  have json: "fst (complete_response s h (result, Some err) st2)
      = writeErr h 409 ''already_processing'' ''session is already being completed''"
    by (simp add: complete_response_def c409)
  show ?thesis using run st2 json cb ids(1,2) look by blast
qed

text \<open>The session of \<open>demo_begun\<close>, claimed by another callback and then completed by it.\<close>

definition demo_busy :: "int gstate" where
  "demo_busy = demo_begun\<lparr>mem := Update 0 (\<lambda>s. s\<lparr>resuming := True\<rparr>) (mem demo_begun)\<rparr>"

definition demo_over :: "int gstate" where
  "demo_over = demo_begun\<lparr>mem := Finalize 0 (Update 0 (\<lambda>s. s\<lparr>Status := StatusCompleted\<rparr>) (mem demo_begun))\<rparr>"

theorem lost_claim_answers_witness:
  "(\<exists>result err st'. complete_session demo_service \<lparr>cqCode = ''c'', cqError = [], cqState = ''s1''\<rparr> 0 demo_busy
       = Some ((result, Some err), st')
     \<and> rsCode (fst (callback_response demo_service [] (demo_request ''GET'' [] [] [] []) (result, Some err) st')) = 409)
   \<and> (\<exists>result err st'. complete_session demo_service \<lparr>cqCode = ''c'', cqError = [], cqState = ''s1''\<rparr> 0 demo_over
       = Some ((result, Some err), st')
     \<and> rsCode (fst (complete_response demo_service [] (result, Some err) st')) = 409
     \<and> rsCode (fst (callback_response demo_service [] (demo_request ''GET'' [] [] [] []) (result, Some err) st')) = 302)"
  (is "?busy \<and> ?over")
proof
  let ?r = "demo_request ''GET'' [] [] [] []" and ?q = "\<lparr>cqCode = ''c'', cqError = [], cqState = ''s1''\<rparr>"
  have ret: "pReturnURL (svProfile demo_service) = Some demo_return" by (simp add: demo_service_def demo_profile_def)
  have clk: "eClock (svEngine demo_service) (world demo_busy) = (2, 3)"
    "eClock (svEngine demo_service) (world demo_over) = (2, 3)" "eClock (svEngine demo_service) 3 = (3, 4)"
    by (simp_all add: demo_service_def demo_engine_def demo_busy_def demo_over_def demo_begun_eq)
  have ix: "map_of (byID (mem demo_busy)) (CorrelationID (heap (mem demo_busy) 0)) = Some 0"
    "CorrelationID (heap (mem demo_busy) 0) \<noteq> []" "\<not> claimable 2 (heap (mem demo_busy) 0)"
    by (simp_all add: demo_busy_def demo_begun_eq begun_def new_session_def claimable_def)
  have io: "map_of (byID (mem demo_over)) (CorrelationID (heap (mem demo_over) 0)) = Some 0"
    "CorrelationID (heap (mem demo_over) 0) \<noteq> []" "\<not> claimable 2 (heap (mem demo_over) 0)"
    by (simp_all add: demo_over_def demo_begun_eq begun_def new_session_def claimable_def Terminal_def)
  have busy: "\<not> Terminal (heap (expireLocked 3 0 (expireLocked 2 0 (mem demo_busy))) 0)"
    by (simp add: demo_busy_def demo_begun_eq begun_def new_session_def Terminal_def expire_session_def expired_def)
  have over: "Terminal (heap (expireLocked 3 0 (expireLocked 2 0 (mem demo_over))) 0)"
    by (simp add: demo_over_def demo_begun_eq begun_def new_session_def Terminal_def expire_session_def expired_def)
  show ?busy
    using lost_claim_answers [OF clk(1) ix(3,1,2) ret, of ?q "[]" ?r] busy clk(3) by auto
  show ?over
    using lost_claim_answers [OF clk(2) io(3,1,2) ret, of ?q "[]" ?r] over clk(3) by (auto simp: http_Redirect_def Let_def)
qed

text \<open>
  C19: the browser returns with two opaque references and nothing else. When a completion is over and
  has no further redirect, the callback answers 302 to the configured return URL with a query that
  decodes to exactly the client state and the correlation ID: no status, reason or error text.
\<close>

theorem browser_returns_to_application:
  assumes ret: "url_Parse raw = Some ret" "Scheme ret \<noteq> []" "RawQuery ret = []" "Fragment ret = []"
    and prof: "pReturnURL (svProfile s) = Some ret"
    and over: "returnsToApplication result err" "crRedirectURL result = []"
  shows "\<exists>q. rsCode (fst (callback_response s h r (result, err) st)) = 302
    \<and> map_of (rsHeader (fst (callback_response s h r (result, err) st))) ''Location''
      = Some (hex_escape_non_ascii (url_String (ret\<lparr>ForceQuery := False\<rparr>) @ ''?'' @ q))
    \<and> url_ParseQuery q = [(''clientState'', crClientState result), (''correlationId'', crCorrelationID result)]"
proof -
  let ?kvs = "[(''clientState'', crClientState result), (''correlationId'', crCorrelationID result)]"
  let ?q = "Values_Encode ?kvs"
  have ord: "''clientState'' \<le> ''correlationId''" by code_simp
  then have dec: "url_ParseQuery ?q = ?kvs" by (simp add: ParseQuery_Values_Encode)
  have "?q \<noteq> []"
  proof
    assume "?q = []"
    then have "url_ParseQuery ?q = []" by (simp add: url_ParseQuery_def parse_query_part_def List.map_filter_def)
    with dec show False by simp
  qed
  then have app: "applicationReturnURL ret result = url_String (ret\<lparr>ForceQuery := False\<rparr>) @ ''?'' @ ?q"
    using ret(3,4) by (simp add: applicationReturnURL_def url_String_def url_authority_def EscapedPath_def Let_def)
  have "redirect_target r (applicationReturnURL ret result) = applicationReturnURL ret result"
    unfolding applicationReturnURL_def by (rule redirect_target_absolute [OF ret(1,2)]) simp
  then have "rsCode (fst (callback_response s h r (result, err) st)) = 302
    \<and> map_of (rsHeader (fst (callback_response s h r (result, err) st))) ''Location''
      = Some (hex_escape_non_ascii (url_String (ret\<lparr>ForceQuery := False\<rparr>) @ ''?'' @ ?q))"
    using over prof
    by (simp add: callback_response_def http_Redirect_def Let_def app amap.look_put split: option.split)
  with dec show ?thesis by blast
qed

theorem browser_returns_to_application_witness:
  "\<exists>q. map_of (rsHeader (fst (callback_response demo_service [] (demo_request ''GET'' ''/oauth/cleverbase/callback'' [] [] [])
      (\<lparr>crStatus = StatusCompleted, crRedirectURL = [], crReason = [], crCorrelationID = ''c1'', crClientState = ''a&b''\<rparr>, None)
      demo_begun))) ''Location'' = Some (hex_escape_non_ascii (''https://app.test/done?'' @ q))
    \<and> url_ParseQuery q = [(''clientState'', ''a&b''), (''correlationId'', ''c1'')]"
proof -
  have "url_Parse ''https://app.test/done'' = Some demo_return" by code_simp
  moreover have "url_String (demo_return\<lparr>ForceQuery := False\<rparr>) = ''https://app.test/done''" by code_simp
  ultimately show ?thesis
    using browser_returns_to_application [of "''https://app.test/done''" demo_return demo_service
        "\<lparr>crStatus = StatusCompleted, crRedirectURL = [], crReason = [], crCorrelationID = ''c1'', crClientState = ''a&b''\<rparr>"
        None "[]" "demo_request ''GET'' ''/oauth/cleverbase/callback'' [] [] []" demo_begun]
    by (simp add: demo_service_def demo_profile_def demo_return_def empty_url_def returnsToApplication_def)
qed

text \<open>
  A HEAD of the callback consumes nothing. Whatever its query carries, a HEAD request for the
  callback path leaves the state as it was.
\<close>

theorem head_callback_inert:
  assumes "rMethod r = ''HEAD''" "Path (rURL r) = ''/oauth/cleverbase/callback''"
    and "ServeHTTP s r st = Some (resp, st')"
  shows "st' = st"
proof -
  have "serve_mux s (base_header r) r st = Some (resp, st')"
    using assms by (simp add: ServeHTTP_def authMiddleware_def open_request_def OAuthCallbackPath_def Let_def)
  then show ?thesis
  proof (cases rule: serve_mux_cases [of s r "base_header r" st])
    case (handler rt)
    have "rt = RCallback" using dispatch_route(1) [OF handler(1)] assms(2) by (cases rt) auto
    with handler assms(1) \<open>serve_mux s (base_header r) r st = Some (resp, st')\<close> show ?thesis
      by (simp add: handleOAuthCallback_def)
  next
    case (reply x)
    with \<open>serve_mux s (base_header r) r st = Some (resp, st')\<close> show ?thesis by simp
  qed
qed

theorem head_callback_inert_witness:
  "\<exists>resp. ServeHTTP demo_service (demo_request ''HEAD'' ''/oauth/cleverbase/callback'' ''state=s1&code=c'' [] []) demo_begun
     = Some (resp, demo_begun) \<and> rsCode resp = 405"
proof -
  let ?r = "demo_request ''HEAD'' ''/oauth/cleverbase/callback'' ''state=s1&code=c'' [] []"
  have "case mux_dispatch (routes demo_profile) ?r of Handler RCallback \<Rightarrow> True | _ \<Rightarrow> False" by code_simp
  then have d: "mux_dispatch (routes (svProfile demo_service)) ?r = Handler RCallback"
    by (simp add: demo_service_def split: dispatch.splits route.splits)
  have p: "rMethod ?r = ''HEAD''" "Path (rURL ?r) = ''/oauth/cleverbase/callback''" by (simp_all add: demo_request_def)
  obtain resp st' where run: "ServeHTTP demo_service ?r demo_begun = Some (resp, st')" and c: "rsCode resp = 405"
    using d p by (simp add: ServeHTTP_def authMiddleware_def open_request_def OAuthCallbackPath_def Let_def
        serve_mux_def handleOAuthCallback_def)
  from head_callback_inert [OF p run] run c show ?thesis by blast
qed

text \<open>
  The routes are reachable. A request with the documented method and path is dispatched to its
  handler, with the callback route present exactly when a return URL is configured.
\<close>

theorem routes_reachable:
  "list_all (\<lambda>(m, path, rt). mux_dispatch (routes demo_profile) (demo_request m path [] [] []) = Handler rt)
     [(''GET'', ''/oauth/cleverbase/callback'', RCallback), (''POST'', ''/v1/sign/start'', RStart),
      (''POST'', ''/v1/sign/complete'', RComplete), (''GET'', ''/v1/sign/status'', RStatus),
      (''GET'', ''/v1/sign/result'', RResult), (''POST'', ''/v1/verify'', RVerify),
      (''GET'', ''/healthz'', RHealth), (''GET'', ''/readyz'', RHealth)]
   \<and> mux_dispatch (routes (demo_profile\<lparr>pReturnURL := None\<rparr>))
       (demo_request ''GET'' ''/oauth/cleverbase/callback'' [] [] []) = Reply NotFound"
  by code_simp

section \<open>What an error tells the client\<close>

text \<open>The refusals of the API: status, machine-readable code and message.\<close>

definition api_refusals :: "(int \<times> string \<times> string) list" where
  "api_refusals =
     [(413, ''payload_too_large'', ''request body too large''),
      (413, ''payload_too_large'', ''document exceeds the size limit''),
      (400, ''bad_request'', ''invalid JSON body''),
      (400, ''bad_request'', ''clientState exceeds the size limit''),
      (400, ''bad_request'', ''clientState is required''),
      (400, ''bad_request'', ''expectedSigner requires both matchOn and value''),
      (400, ''bad_request'', ''document is not valid base64''),
      (400, ''bad_request'', ''no document and no bundled sample''),
      (400, ''bad_request'', ''document is required''),
      (400, ''bad_request'', ''invalid body or missing state''),
      (400, ''bad_request'', ''missing state, code, or error''),
      (400, ''unknown_state'', ''no pending session for that state''),
      (404, ''not_found'', ''unknown correlation id''),
      (405, ''method_not_allowed'', ''HEAD is not supported''),
      (409, ''already_processing'', ''session is already being completed''),
      (409, ''not_completed'', ''session is not completed''),
      (500, ''internal_error'', ''internal server error''),
      (500, ''begin_failed'', ''could not start signing session''),
      (500, ''verify_failed'', ''could not verify document''),
      (500, ''resume_failed'', ''could not complete signing session'')]"

definition is_refusal :: "response \<Rightarrow> bool" where
  "is_refusal resp = list_ex (\<lambda>(c, e, m). resp = writeErr (rsHeader resp) c e m) api_refusals"

lemma set_header_idem: "AList.update k v (AList.update k v h) = AList.update k v h"
  by (induction h) auto

lemma writeErr_refusal: "(c, e, m) \<in> set api_refusals \<Longrightarrow> is_refusal (writeErr h c e m)"
  unfolding is_refusal_def list_ex_iff
  by (rule bexI [of _ "(c, e, m)"]) (simp_all add: writeErr_def writeJSON_def set_header_idem)

lemma options_Validate_text:
  "options_Validate opts = Some err \<Longrightarrow> error_text err = ''expectedSigner requires both matchOn and value''"
  by (auto simp: options_Validate_def split: option.splits if_splits)

lemma start_checks_refusal: "start_checks s req = Inl x \<Longrightarrow> x \<in> set api_refusals"
  by (auto simp: start_checks_def api_refusals_def Let_def options_Validate_text
      split: if_splits option.splits sum.splits)

lemma handleStart_refusal: "rsCode (fst (handleStart s h r st)) = 200 \<or> is_refusal (fst (handleStart s h r st))"
  using start_checks_refusal [of s]
  by (auto simp: handleStart_def intro!: writeErr_refusal split: sum.split prod.split)
    (auto simp: api_refusals_def)

lemma handleVerify_refusal: "rsCode (fst (handleVerify s h r st)) = 200 \<or> is_refusal (fst (handleVerify s h r st))"
  by (auto simp: handleVerify_def intro!: writeErr_refusal split: sum.split prod.split option.split)
    (auto simp: api_refusals_def)

lemma handleStatus_refusal: "rsCode (fst (handleStatus s h r st)) = 200 \<or> is_refusal (fst (handleStatus s h r st))"
  by (auto simp: handleStatus_def intro!: writeErr_refusal split: sum.split prod.split)
    (auto simp: api_refusals_def)

lemma handleResult_refusal: "rsCode (fst (handleResult s h r st)) = 200 \<or> is_refusal (fst (handleResult s h r st))"
  by (auto simp: handleResult_def Let_def intro!: writeErr_refusal split: sum.split prod.split)
    (auto simp: api_refusals_def)

lemma writeCompleteError_refusal: "is_refusal (fst (writeCompleteError s h e c st))"
  by (auto simp: writeCompleteError_def classifyCompleteError_def errCodeAlreadyProcessing_def
      intro!: writeErr_refusal split: prod.split)
    (auto simp: api_refusals_def)

lemma handleComplete_refusal:
  assumes "handleComplete s h r st = Some (resp, st')"
  shows "rsCode resp = 200 \<or> is_refusal resp"
proof -
  have "is_refusal resp" if "writeCompleteError s h e c st1 = (resp, st')" for e c st1
    using writeCompleteError_refusal [of s h e c st1] that by simp
  moreover have "is_refusal (writeErr h 413 ''payload_too_large'' ''request body too large'')"
    "is_refusal (writeErr h 400 ''bad_request'' ''invalid body or missing state'')"
    by (auto intro!: writeErr_refusal simp: api_refusals_def)
  ultimately show ?thesis
    using assms by (auto simp: handleComplete_def complete_response_def split: sum.splits option.splits if_splits)
qed

lemma http_Redirect_code [simp]: "rsCode (http_Redirect h r u c) = c"
  by (simp add: http_Redirect_def Let_def)

lemma callback_refusal:
  assumes "pReturnURL (svProfile s) \<noteq> None"
  shows "rsCode (fst (callback_response s h r res st)) = 302 \<or> is_refusal (fst (callback_response s h r res st))"
proof -
  obtain ret where "pReturnURL (svProfile s) = Some ret" using assms by auto
  then show ?thesis
    by (cases res) (simp add: callback_response_def Let_def writeCompleteError_refusal)
qed

lemma handleOAuthCallback_refusal:
  assumes "handleOAuthCallback s h r st = Some (resp, st')" "pReturnURL (svProfile s) \<noteq> None"
  shows "rsCode resp = 302 \<or> is_refusal resp"
proof (cases "rMethod r = ''HEAD''")
  case True
  have "is_refusal (writeErr (set_header ''Allow'' ''GET'' h) 405 ''method_not_allowed'' ''HEAD is not supported'')"
    by (auto intro!: writeErr_refusal simp: api_refusals_def)
  with True assms show ?thesis by (simp add: handleOAuthCallback_def)
next
  case False
  with assms(1) obtain res st1 where "callback_response s h r res st1 = (resp, st')"
    by (auto simp: handleOAuthCallback_def Let_def)
  with callback_refusal [OF assms(2), of h r res st1] show ?thesis by simp
qed

text \<open>
  C38: errors tell the client nothing internal. Whatever the SDK, the upstream service or the store
  report, the answer of a handler is a success (200), a redirect (302), or one of twenty fixed
  refusals, each a constant status, code and message; error texts go to the log only.
\<close>

theorem error_answers_fixed:
  assumes "mux_dispatch (routes (svProfile s)) r = Handler rt" "run_route s rt h r st = Some (resp, st')"
  shows "rsCode resp = 200 \<or> rsCode resp = 302 \<or> is_refusal resp"
  using assms dispatch_route(3) [OF assms(1)] handleStart_refusal [of s h r st] handleVerify_refusal [of s h r st]
    handleStatus_refusal [of s h r st] handleResult_refusal [of s h r st]
    handleComplete_refusal [of s h r st resp st'] handleOAuthCallback_refusal [of s h r st resp st']
  by (cases rt) (auto simp: handleHealth_def)

theorem error_answers_fixed_witness:
  "\<exists>resp st'. run_route demo_service RVerify [] (demo_request ''POST'' ''/v1/verify'' [] [] ''{}'') demo_begun = Some (resp, st')
     \<and> (rsCode resp = 200 \<or> rsCode resp = 302 \<or> is_refusal resp)"
proof -
  let ?r = "demo_request ''POST'' ''/v1/verify'' [] [] ''{}''"
  have "case mux_dispatch (routes demo_profile) ?r of Handler RVerify \<Rightarrow> True | _ \<Rightarrow> False" by code_simp
  then have d: "mux_dispatch (routes (svProfile demo_service)) ?r = Handler RVerify"
    by (simp add: demo_service_def split: dispatch.splits route.splits)
  obtain resp st' where run: "run_route demo_service RVerify [] ?r demo_begun = Some (resp, st')"
    by (cases "handleVerify demo_service [] ?r demo_begun") simp
  from error_answers_fixed [OF d run] run show ?thesis by blast
qed

end
