(* ===== verification/Service_Runs.thy ===== *)
theory Service_Runs
  imports Http_Contract
begin

text \<open>
  The service as a state machine: one step serves one request. The invariant of every state it can
  reach says that the store is well formed, that no claim is left behind, and that each session is in
  a state the API knows: a completed one has a document, a finished one has no handle and no pending
  OAuth state. The parameters (SDK, effector, random source, clock) are only asked for what they
  document: time does not run backwards and correlation IDs do not repeat.
\<close>

text \<open>The reading handlers are a clock reading and a lookup: these unfold them together.\<close>

lemmas lookup_defs [http_simps] = svc_ViewByID_def ViewByID_def svc_GetByState_def GetByState_def Let_def

section \<open>The world the service runs in\<close>

text \<open>
  \<open>wt\<close> observes the time of a world, \<open>used\<close> the random blocks it has handed out. \<open>later\<close> is the
  order on worlds every call respects.
\<close>

definition later :: "('w \<Rightarrow> time) \<Rightarrow> ('w \<Rightarrow> string set) \<Rightarrow> 'w \<Rightarrow> 'w \<Rightarrow> bool" where
  "later wt used w w' \<longleftrightarrow> wt w \<le> wt w' \<and> used w \<subseteq> used w'"

lemma later_refl [simp]: "later wt used w w"
  by (simp add: later_def)

lemma later_trans: "later wt used w w1 \<Longrightarrow> later wt used w1 w2 \<Longrightarrow> later wt used w w2"
  by (auto simp: later_def)

definition steady_engine :: "('w \<Rightarrow> time) \<Rightarrow> ('w \<Rightarrow> string set) \<Rightarrow> 'w engine \<Rightarrow> bool" where
  "steady_engine wt used e \<longleftrightarrow>
     (\<forall>w now w'. eClock e w = (now, w') \<longrightarrow> wt w \<le> now \<and> now \<le> wt w' \<and> later wt used w w')
     \<and> (\<forall>w m u hs b. later wt used w (snd (eUp e w m u hs b)))
     \<and> (\<forall>w d c x. later wt used w (snd (sdk_Begin (eSDK e) w d c x)))
     \<and> (\<forall>w h c x. later wt used w (snd (sdk_ResumeRedirect (eSDK e) w h c x)))
     \<and> (\<forall>w h c x. later wt used w (snd (sdk_ResumeRedirectError (eSDK e) w h c x)))
     \<and> (\<forall>w h n b. later wt used w (snd (sdk_ResumeHTTP (eSDK e) w h n b)))
     \<and> (\<forall>w d. later wt used w (snd (sdk_VerifyPDF (eSDK e) w d)))"

definition steady_world :: "('w \<Rightarrow> time) \<Rightarrow> ('w \<Rightarrow> string set) \<Rightarrow> 'w service \<Rightarrow> bool" where
  "steady_world wt used s \<longleftrightarrow>
     steady_engine wt used (svEngine s)
     \<and> (\<forall>w. later wt used w (snd (svRand s 16 w)))
     \<and> (\<forall>w b w'. svRand s 16 w = (Inr b, w') \<longrightarrow> length b = 16 \<and> b \<notin> used w \<and> b \<in> used w')"

lemma steady_clock:
  "steady_engine wt used e \<Longrightarrow> eClock e w = (now, w') \<Longrightarrow> wt w \<le> now \<and> now \<le> wt w' \<and> later wt used w w'"
  by (simp add: steady_engine_def)

lemma steady_calls:
  assumes "steady_engine wt used e"
  shows "eUp e w m u hs b = (r, w') \<Longrightarrow> later wt used w w'"
    "sdk_Begin (eSDK e) w d c x = (r1, w') \<Longrightarrow> later wt used w w'"
    "sdk_ResumeRedirect (eSDK e) w h c2 x2 = (r2, w') \<Longrightarrow> later wt used w w'"
    "sdk_ResumeRedirectError (eSDK e) w h c2 x2 = (r2, w') \<Longrightarrow> later wt used w w'"
    "sdk_ResumeHTTP (eSDK e) w h n b = (r2, w') \<Longrightarrow> later wt used w w'"
    "sdk_VerifyPDF (eSDK e) w b = (r3, w') \<Longrightarrow> later wt used w w'"
  using assms unfolding steady_engine_def by (metis snd_conv)+

section \<open>The invariant\<close>

definition session_ok :: "session \<Rightarrow> bool" where
  "session_ok s \<longleftrightarrow>
     \<not> resuming s
     \<and> Status s \<in> {StatusAuthorizing, StatusCompleted, StatusDeclined, StatusFailed}
     \<and> (Status s = StatusCompleted \<longrightarrow> blen (ResultPDF s) \<noteq> 0)
     \<and> (Terminal s \<longrightarrow> Handle s = None \<and> OAuthState s = [])"

definition ids_drawn :: "string set \<Rightarrow> memory \<Rightarrow> bool" where
  "ids_drawn bs m \<longleftrightarrow> (\<forall>c a. map_of (byID m) c = Some a \<longrightarrow> c \<in> hex_EncodeToString ` bs)"

definition run_inv :: "('w \<Rightarrow> time) \<Rightarrow> ('w \<Rightarrow> string set) \<Rightarrow> 'w gstate \<Rightarrow> bool" where
  "run_inv wt used st \<longleftrightarrow>
     wf_memory (wt (world st)) (mem st) \<and> (\<forall>a < next_addr (mem st). session_ok (heap (mem st) a))
     \<and> ids_drawn (used (world st)) (mem st)"

lemma run_inv_later:
  assumes "run_inv wt used st" "later wt used (world st) (world st')" "mem st' = mem st"
  shows "run_inv wt used st'"
  using assms wf_mono unfolding run_inv_def ids_drawn_def later_def by fastforce

lemma session_ok_expire: "session_ok s \<Longrightarrow> session_ok (expire_session now s)"
  by (auto simp: session_ok_def expire_session_def Terminal_def)

text \<open>What any operation on the store has to show to keep the invariant.\<close>

lemma run_invI:
  assumes inv: "run_inv wt used st" and wf: "wf_memory (wt (world st')) (mem st')"
    and w: "later wt used (world st) (world st')"
    and touch: "only_touches a (mem st) (mem st')" and ok: "session_ok (heap (mem st') a)"
  shows "run_inv wt used st'"
  using inv wf w touch ok unfolding run_inv_def only_touches_def ids_drawn_def later_def by (metis image_mono subsetD)

text \<open>Reading under the clock.\<close>

lemma run_inv_expire:
  assumes inv: "run_inv wt used st" and e: "steady_engine wt used e" and clk: "eClock e (world st) = (now, w)"
    and m: "m = mem st \<or> (\<exists>a. a < next_addr (mem st) \<and> m = expireLocked now a (mem st))"
    and st': "mem st' = m" "world st' = w"
  shows "run_inv wt used st'" "later wt used (world st) (world st')" "next_addr (mem st') = next_addr (mem st)"
proof -
  note c = steady_clock [OF e clk]
  show l: "later wt used (world st) (world st')" using c st' by simp
  show "next_addr (mem st') = next_addr (mem st)" using m st' by auto
  from m show "run_inv wt used st'"
  proof
    assume "m = mem st"
    with run_inv_later [OF inv l] st' show ?thesis by simp
  next
    assume "\<exists>a. a < next_addr (mem st) \<and> m = expireLocked now a (mem st)"
    then obtain a where a: "a < next_addr (mem st)" "m = expireLocked now a (mem st)" by blast
    have "wf_memory now m" using wf_expireLocked inv c a unfolding run_inv_def by blast
    then have wf: "wf_memory (wt (world st')) (mem st')" using wf_mono c st' by simp
    have "only_touches a (mem st) (mem st')"
      by (simp add: only_touches_def same_identity_def st' a expire_session_def)
    moreover have "session_ok (heap (mem st') a)"
      using inv a st' by (simp add: run_inv_def session_ok_expire)
    ultimately show ?thesis by (rule run_invI [OF inv wf l])
  qed
qed

lemma run_inv_byID:
  "run_inv wt used st \<Longrightarrow> map_of (byID (mem st)) c = Some a \<Longrightarrow> a < next_addr (mem st)"
  using wf_id(2) unfolding run_inv_def by blast

lemma svc_ViewByID_inv:
  assumes inv: "run_inv wt used st" and e: "steady_engine wt used (svEngine s)"
    and v: "svc_ViewByID s c st = (r, st')"
  shows "run_inv wt used st'" "later wt used (world st) (world st')"
proof -
  obtain now w where clk: "eClock (svEngine s) (world st) = (now, w)" by (cases "eClock (svEngine s) (world st)")
  have "mem st' = mem st \<or> (\<exists>a. a < next_addr (mem st) \<and> mem st' = expireLocked now a (mem st))"
    using v clk run_inv_byID [OF inv, of c]
    by (auto simp: http_simps split: option.splits)
  moreover have "world st' = w" using v clk by (auto simp: svc_ViewByID_def split: prod.splits)
  ultimately show "run_inv wt used st'" "later wt used (world st) (world st')"
    using run_inv_expire(1,2) [OF inv e clk _ refl] by blast+
qed

lemma svc_GetByState_inv:
  assumes inv: "run_inv wt used st" and e: "steady_engine wt used (svEngine s)"
    and v: "svc_GetByState s c st = (r, st')"
  shows "run_inv wt used st'" "later wt used (world st) (world st')"
    "r = Inr a \<Longrightarrow> a < next_addr (mem st')"
proof -
  obtain now w where clk: "eClock (svEngine s) (world st) = (now, w)" by (cases "eClock (svEngine s) (world st)")
  have m: "mem st' = mem st \<or> (\<exists>a. a < next_addr (mem st) \<and> mem st' = expireLocked now a (mem st))"
    using v clk run_inv_byID [OF inv, of "map_str (byState (mem st)) c"]
    by (auto simp: http_simps split: option.splits if_splits)
  have w: "world st' = w" using v clk by (auto simp: svc_GetByState_def split: prod.splits)
  note all = run_inv_expire [OF inv e clk m refl w]
  show "run_inv wt used st'" "later wt used (world st) (world st')" using all by blast+
  have "r = Inr a \<Longrightarrow> \<exists>c. map_of (byID (mem st)) c = Some a"
    using v clk by (auto simp: http_simps split: option.splits if_splits)
  then show "r = Inr a \<Longrightarrow> a < next_addr (mem st')" using run_inv_byID [OF inv] all(3) by auto
qed

section \<open>Completing and beginning\<close>

lemma later_drive_round:
  assumes e: "steady_engine wt used e" and x: "drive_round e a res st = (x, st')"
  shows "later wt used (world st) (world st')"
proof -
  let ?st0 = "st\<lparr>mem := Update a (\<lambda>s. s\<lparr>Handle := rHandle res\<rparr>) (mem st)\<rparr>"
  have http: "later wt used (world st) (world st')" if h: "drive_http e a res ?st0 = (x, st')"
  proof (cases "stepHTTP (rStep res)")
    case (Inl err)
    with h show ?thesis by (auto simp: drive_http_def)
  next
    case (Inr ef)
    obtain r w1 where r: "eUp e (world st) (effectMethod ef) (rawURL ef) (headers ef) (body ef) = (r, w1)"
      by (cases "eUp e (world st) (effectMethod ef) (rawURL ef) (headers ef) (body ef)")
    note l1 = steady_calls(1) [OF e r]
    show ?thesis
    proof (cases r)
      case (Inl err)
      with h Inr r l1 show ?thesis by (auto simp: drive_http_def Let_def)
    next
      case r': (Inr ans)
      obtain n b where ans: "ans = (n, b)" by (cases ans)
      obtain q w2 where q: "sdk_ResumeHTTP (eSDK e) w1 (rHandle res) n b = (q, w2)"
        by (cases "sdk_ResumeHTTP (eSDK e) w1 (rHandle res) n b")
      have "world st' = w2" using h Inr r r' ans q by (auto simp: drive_http_def Let_def split: sum.splits)
      then show ?thesis using later_trans [OF l1 steady_calls(5) [OF e q]] by simp
    qed
  qed
  have other: "world st' = world st" if "stepKind (rStep res) \<noteq> stepKindPerformHTTP"
    using x that
    by (auto simp: drive_round_def drive_redirect_def drive_done_def drive_failed_def Let_def map_prod_Inl
        split: if_splits sum.splits prod.splits)
  show ?thesis
    using http other x by (cases "stepKind (rStep res) = stepKindPerformHTTP") (auto simp: drive_round_def Let_def)
qed

lemma later_drive:
  assumes "drive e a res st = Some (r, st')" and e: "steady_engine wt used e"
  shows "later wt used (world st) (world st')"
  using assms(1)
proof (induction rule: drive_induct)
  case (stop res st r st')
  then show ?case by (rule later_drive_round [OF e])
next
  case (step res st nxt st1 r st')
  then show ?case using later_drive_round [OF e step(1)] by (blast intro: later_trans)
qed

lemma later_complete_with:
  assumes run: "complete_with resume e a st = Some (r, st')" and e: "steady_engine wt used e"
    and resume: "\<And>w h x w'. resume w h = (x, w') \<Longrightarrow> later wt used w w'"
    and clk: "eClock e (world st) = (now, w)"
  shows "later wt used w (world st')"
proof (cases "claimable now (heap (mem st) a)")
  case False
  then show ?thesis using run by (simp add: complete_with_lost [OF clk]) (auto simp: )
next
  case True
  obtain x w1 where x: "resume w (append_nil (Handle (heap (mem st) a))) = (x, w1)"
    by (cases "resume w (append_nil (Handle (heap (mem st) a)))")
  show ?thesis
    using run resume [OF x] x by (cases x)
      (auto simp: complete_with_won [OF clk True] dest!: later_drive [OF _ e] intro: later_trans)
qed

text \<open>A completion leaves the session in order: refused and perhaps expired, sealed, or armed.\<close>

lemma reports_session_ok:
  assumes "reports r s" "sealed m a \<or> armed m a" "heap m a = s"
  shows "session_ok s"
proof -
  obtain status url reason err where r: "r = (status, url, reason, err)" by (cases r)
  have settled: "session_ok s" if "Status s = StatusCompleted \<longrightarrow> blen (ResultPDF s) \<noteq> 0"
    using assms(2,3) that by (auto simp: session_ok_def sealed_def armed_def Terminal_def status_Terminal_def)
  show ?thesis using assms(1) r by (intro settled) (auto simp: reports_def split: option.splits)
qed

lemma complete_with_inv:
  assumes run: "complete_with resume e a st = Some (r, st')" and e: "steady_engine wt used e"
    and resume: "\<And>w h x w'. resume w h = (x, w') \<Longrightarrow> later wt used w w'"
    and inv: "run_inv wt used st" and a: "a < next_addr (mem st)"
  shows "run_inv wt used st'" "later wt used (world st) (world st')"
proof -
  obtain now w where clk: "eClock e (world st) = (now, w)" by (cases "eClock e (world st)")
  note c = steady_clock [OF e clk]
  have l: "later wt used w (world st')" by (rule later_complete_with [OF run e resume clk])
  then show l': "later wt used (world st) (world st')" using c by (blast intro: later_trans)
  have "wf_memory now (mem st')"
    using wf_complete_with [OF run _ clk _ a] inv c unfolding run_inv_def by blast
  then have wf: "wf_memory (wt (world st')) (mem st')" using wf_mono c l by (meson later_def order.trans)
  have "only_touches a (mem st) (mem st') \<and> session_ok (heap (mem st') a)"
  proof (cases "claimable now (heap (mem st) a)")
    case False
    with run have "mem st' = expireLocked now a (mem st)" by (auto simp: complete_with_lost [OF clk])
    moreover have "session_ok (heap (mem st) a)" using inv a by (simp add: run_inv_def)
    ultimately show ?thesis
      by (simp add: session_ok_expire) (simp add: only_touches_def same_identity_def expire_session_def)
  next
    case True
    note s = complete_with_settles [OF run clk True]
    show ?thesis using s(2) reports_session_ok [OF s(3) s(1) refl] by simp
  qed
  then show "run_inv wt used st'" using run_invI [OF inv wf l'] by blast
qed

lemma Begin_inv:
  assumes run: "Begin e corr doc conf cs opts st = (r, st')" and e: "steady_engine wt used e"
    and inv: "run_inv wt used st" and c: "corr \<noteq> []" "map_of (byID (mem st)) corr = None"
      "corr \<in> hex_EncodeToString ` used (world st)"
  shows "run_inv wt used st'"
proof -
  obtain q w where q: "sdk_Begin (eSDK e) (world st) doc conf opts = (q, w)"
    by (cases "sdk_Begin (eSDK e) (world st) doc conf opts")
  note l0 = steady_calls(2) [OF e q]
  have unchanged: "run_inv wt used st'" if "mem st' = mem st" "world st' = w"
    using run_inv_later [OF inv _ that(1)] l0 that(2) by simp
  show ?thesis
  proof (cases "\<exists>r st'. Begin e corr doc conf cs opts st = (Inr r, st')")
    case False
    with run obtain err where "r = Inl err" by (cases r) auto
    with run have "mem st' = mem st" "world st' = w"
      using q by (auto simp: Begin_def Let_def split: sum.splits prod.splits if_splits)
    then show ?thesis by (rule unchanged)
  next
    case True
    then obtain res u state where s: "q = Inr res" "stepKind (rStep res) = stepKindRedirect"
      "stepRedirect (rStep res) = Inr (u, state)"
      using Begin_ok_iff [of e corr doc conf cs opts st] q by auto
    obtain t0 w1 where c0: "eClock e w = (t0, w1)" by (cases "eClock e w")
    obtain t1 w2 where c1: "eClock e w1 = (t1, w2)" by (cases "eClock e w1")
    note k0 = steady_clock [OF e c0] and k1 = steady_clock [OF e c1]
    have clk: "begin_clock e w = (t0, t1, w2)" by (simp add: begin_clock_def c0 c1)
    have m: "mem st' = (snd (NewSession corr state cs conf (eTTL e) t0 t1 (mem st)))\<lparr>heap := (heap (mem st))
          (next_addr (mem st) := begun corr state cs conf (eTTL e) t1 (rHandle res))\<rparr>"
      and w: "world st' = w2"
      using run Begin_ok [OF q [unfolded s(1)] s(2,3) clk, of corr cs] by (auto simp: Let_def)
    have l: "later wt used (world st) (world st')" using l0 k0 k1 w by (blast intro: later_trans)
    have wf0: "wf_memory (wt (world st)) (mem st)" using inv by (simp add: run_inv_def)
    have le: "wt (world st) \<le> t0" "t0 \<le> t1" "t1 \<le> wt (world st')"
      using l0 k0 k1 w by (auto simp: later_def)
    have "wf_memory t1 (mem st')" unfolding m by (rule wf_begun [OF wf0 le(1,2) c(1,2)])
    then have wf: "wf_memory (wt (world st')) (mem st')" using wf_mono le(3) by blast
    have ids: "map_of (byID (mem st')) d = Some b \<Longrightarrow> d = corr \<or> map_of (byID (mem st)) d = Some b" for d b
      unfolding m
      by (auto simp: NewSession_unfold Let_def amap.look_put byID_evictExpiredLocked [OF wf0] split: if_splits option.splits)
    have "session_ok (heap (mem st') b)" if "b < next_addr (mem st')" for b
      using that inv unfolding m
      by (auto simp: NewSession_unfold Let_def run_inv_def less_Suc_eq)
        (simp add: begun_def new_session_def session_ok_def Terminal_def)
    moreover have "ids_drawn (used (world st')) (mem st')"
      unfolding ids_drawn_def
    proof (intro allI impI)
      fix d b assume "map_of (byID (mem st')) d = Some b"
      from ids [OF this] inv c(3) have "d \<in> hex_EncodeToString ` used (world st)"
        by (auto simp: run_inv_def ids_drawn_def)
      with l show "d \<in> hex_EncodeToString ` used (world st')" by (auto simp: later_def)
    qed
    ultimately show ?thesis using wf by (simp add: run_inv_def)
  qed
qed

section \<open>Requests\<close>

lemma complete_inv:
  assumes run: "complete s req st = Some (res, st')" and e: "steady_engine wt used (svEngine s)"
    and inv: "run_inv wt used st"
  shows "run_inv wt used st'"
proof (cases "cqState req = [] \<or> (cqCode req = [] \<and> cqError req = [])")
  case True
  with run inv show ?thesis by (simp add: complete_def complete_session_def)
next
  case False
  obtain q st1 where g: "svc_GetByState s (cqState req) st = (q, st1)" by (cases "svc_GetByState s (cqState req) st")
  note i1 = svc_GetByState_inv [OF inv e g]
  show ?thesis
  proof (cases q)
    case (Inl err)
    with False run g i1(1) show ?thesis by (auto simp: complete_def complete_session_def)
  next
    case (Inr a)
    let ?call = "if cqError req \<noteq> [] then CompleteError (svEngine s) a (cqError req) (cqState req) st1
                 else Complete (svEngine s) a (cqCode req) (cqState req) st1"
    obtain r2 st2 where c: "?call = Some (r2, st2)" and f: "finish_complete s a r2 st2 = (res, st')"
      using False run g Inr by (auto simp: complete_def complete_session_def split: prod.splits)
    have "run_inv wt used st2"
      using c complete_with_inv(1) [OF _ e steady_calls(3) [OF e] i1(1) i1(3) [OF Inr]]
        complete_with_inv(1) [OF _ e steady_calls(4) [OF e] i1(1) i1(3) [OF Inr]]
      by (auto simp: Complete_def CompleteError_def split: if_splits)
    moreover obtain v st3 where v: "svc_ViewByID s (CorrelationID (heap (mem st2) a)) st2 = (v, st3)"
      by (cases "svc_ViewByID s (CorrelationID (heap (mem st2) a)) st2")
    moreover have "st' = st3" using f v by (auto simp: finish_complete_def split: prod.splits sum.splits)
    ultimately show ?thesis using svc_ViewByID_inv(1) [OF _ e v] by simp
  qed
qed

lemma run_inv_log: "mem st' = mem st \<Longrightarrow> world st' = world st \<Longrightarrow> run_inv wt used st \<Longrightarrow> run_inv wt used st'"
  by (simp add: run_inv_def)

lemma writeCompleteError_state:
  "writeCompleteError s h e c st = (resp, st') \<Longrightarrow> mem st' = mem st \<and> world st' = world st"
  by (auto simp: writeCompleteError_def split: if_splits prod.splits)

lemma handleComplete_inv:
  assumes run: "handleComplete s h r st = Some (resp, st')" and e: "steady_engine wt used (svEngine s)"
    and inv: "run_inv wt used st"
  shows "run_inv wt used st'"
proof -
  have keep: "run_inv wt used st'" if "complete s req st = Some ((res, err), st1)"
    "mem st' = mem st1 \<and> world st' = world st1" for req res err st1
    using run_inv_log [of st' st1] complete_inv [OF that(1) e inv] that(2) by blast
  show ?thesis
  proof (cases "st' = st")
    case True
    with inv show ?thesis by simp
  next
    case False
    with run obtain req result err st1 where c: "complete s req st = Some ((result, err), st1)"
      and f: "(case err of Some e \<Rightarrow> writeCompleteError s h e (crCorrelationID result) st1
        | None \<Rightarrow> (writeJSON h 200 (status_body (crStatus result)
                      (if crRedirectURL result \<noteq> [] then [(''redirectUrl'', AStr (crRedirectURL result))] else [])
                      (crReason result)), st1)) = (resp, st')"
      by (auto simp: handleComplete_def complete_response_def split: sum.splits if_splits)
    have "mem st' = mem st1 \<and> world st' = world st1"
      using f by (cases err) (auto dest: writeCompleteError_state)
    with c show ?thesis by (rule keep)
  qed
qed

lemma callback_response_state:
  "callback_response s h r res st = (resp, st') \<Longrightarrow> mem st' = mem st \<and> world st' = world st"
  by (auto simp: callback_response_def Let_def dest!: writeCompleteError_state
      split: prod.splits if_splits option.splits)

lemma handleOAuthCallback_inv:
  assumes run: "handleOAuthCallback s h r st = Some (resp, st')" and e: "steady_engine wt used (svEngine s)"
    and inv: "run_inv wt used st"
  shows "run_inv wt used st'"
proof (cases "rMethod r = ''HEAD''")
  case True
  with run inv show ?thesis by (simp add: handleOAuthCallback_def)
next
  case False
  with run obtain req res st1 where "complete s req st = Some (res, st1)"
    "callback_response s h r res st1 = (resp, st')"
    by (auto simp: handleOAuthCallback_def Let_def)
  then show ?thesis
    using complete_inv [OF _ e inv] callback_response_state run_inv_log by metis
qed

lemma handleStart_inv:
  assumes run: "handleStart s h r st = (resp, st')" and w: "steady_world wt used s"
    and inv: "run_inv wt used st"
  shows "run_inv wt used st'"
proof -
  have e: "steady_engine wt used (svEngine s)" using w by (simp add: steady_world_def)
  obtain q w1 where q: "svRand s 16 (world st) = (q, w1)" by (cases "svRand s 16 (world st)")
  have l: "later wt used (world st) w1" using w q unfolding steady_world_def by (metis snd_conv)
  let ?st1 = "st\<lparr>world := w1\<rparr>"
  have i1: "run_inv wt used ?st1" using run_inv_later [OF inv, of ?st1] l by simp
  show ?thesis
  proof (cases "mem st' = mem st \<and> (world st' = world st \<or> world st' = w1)")
    case True
    then show ?thesis using run_inv_log [OF _ _ inv] run_inv_log [OF _ _ i1] by auto
  next
    case False
    then obtain b req opts doc x st2 where b: "q = Inr b"
      and bg: "Begin (svEngine s) (hex_EncodeToString b) doc (conformance_of s req) (srClientState req) opts ?st1
        = (x, st2)" and m: "mem st' = mem st2" "world st' = world st2"
      using run q
      by (cases q) (auto simp: handleStart_def newCorrelationID_def split: sum.splits prod.splits if_splits)
    have d: "length b = 16" "b \<notin> used (world st)" "b \<in> used w1"
      using w q b unfolding steady_world_def by blast+
    have "map_of (byID (mem st)) (hex_EncodeToString b) = None"
    proof (rule ccontr)
      assume "map_of (byID (mem st)) (hex_EncodeToString b) \<noteq> None"
      then obtain c where "c \<in> used (world st)" "hex_EncodeToString b = hex_EncodeToString c"
        using inv by (auto simp: run_inv_def ids_drawn_def)
      with d(2) show False by (simp add: hex.enc_inject)
    qed
    moreover have "hex_EncodeToString b \<noteq> []" using d(1) length_hex_EncodeToString [of b] by auto
    ultimately have "run_inv wt used st2" using Begin_inv [OF bg e i1] d(3) by simp
    with m show ?thesis using run_inv_log by blast
  qed
qed

lemma handleVerify_inv:
  assumes run: "handleVerify s h r st = (resp, st')" and e: "steady_engine wt used (svEngine s)"
    and inv: "run_inv wt used st"
  shows "run_inv wt used st'"
proof -
  have "mem st' = mem st \<and> (world st' = world st
      \<or> (\<exists>d. world st' = snd (sdk_VerifyPDF (eSDK (svEngine s)) (world st) d)))"
    using run by (auto simp: handleVerify_def split: sum.splits prod.splits if_splits option.splits) (metis snd_conv)+
  then show ?thesis
    using run_inv_later [OF inv, of st'] e by (auto simp: steady_engine_def)
qed

lemma run_route_inv:
  assumes run: "run_route s rt h r st = Some (resp, st')" and w: "steady_world wt used s"
    and inv: "run_inv wt used st"
  shows "run_inv wt used st'"
proof -
  have e: "steady_engine wt used (svEngine s)" using w by (simp add: steady_world_def)
  have view: "run_inv wt used st'" if "svc_ViewByID s c st = (v, st')" for c v
    using svc_ViewByID_inv(1) [OF inv e that] .
  show ?thesis
  proof (cases rt)
    case RCallback with run show ?thesis using handleOAuthCallback_inv [OF _ e inv] by simp
  next
    case RStart with run show ?thesis using handleStart_inv [OF _ w inv] by simp
  next
    case RComplete with run show ?thesis using handleComplete_inv [OF _ e inv] by simp
  next
    case RStatus
    with run show ?thesis
      by (cases "svc_ViewByID s (correlation_query r) st")
        (auto simp: handleStatus_def intro: view split: sum.splits)
  next
    case RResult
    with run show ?thesis
      by (cases "svc_ViewByID s (correlation_query r) st")
        (auto simp: handleResult_def Let_def intro: view split: sum.splits if_splits)
  next
    case RVerify with run show ?thesis using handleVerify_inv [OF _ e inv] by simp
  next
    case RHealth with run inv show ?thesis by simp
  qed
qed

lemma ServeHTTP_inv:
  assumes run: "ServeHTTP s r st = Some (resp, st')" and w: "steady_world wt used s"
    and inv: "run_inv wt used st"
  shows "run_inv wt used st'"
proof -
  have "run_inv wt used st'" if "serve_mux s h r st = Some (resp, st')" for h
    using that inv run_route_inv [OF _ w inv] by (cases rule: serve_mux_cases [of s r h st]) auto
  with run inv show ?thesis by (auto simp: ServeHTTP_def authMiddleware_def split: if_splits)
qed

section \<open>A finished session does not change\<close>

text \<open>\<open>keeps_final\<close>: the sessions that exist still do, and the finished ones are as they were.\<close>

definition keeps_final :: "memory \<Rightarrow> memory \<Rightarrow> bool" where
  "keeps_final m m' \<longleftrightarrow>
     next_addr m \<le> next_addr m'
     \<and> (\<forall>a < next_addr m. Terminal (heap m a) \<longrightarrow> heap m' a = heap m a)"

lemma keeps_final_refl [simp]: "keeps_final m m"
  by (simp add: keeps_final_def)

lemma keeps_final_trans: "keeps_final m m1 \<Longrightarrow> keeps_final m1 m2 \<Longrightarrow> keeps_final m m2"
  by (simp add: keeps_final_def)

lemma keeps_final_expire: "keeps_final m (expireLocked now a m)"
  by (simp add: keeps_final_def expire_session_def expired_def)

lemma keeps_final_ViewByID: "svc_ViewByID s c st = (v, st') \<Longrightarrow> keeps_final (mem st) (mem st')"
  by (auto simp: http_simps keeps_final_expire split: prod.splits option.splits)

lemma keeps_final_GetByState: "svc_GetByState s c st = (v, st') \<Longrightarrow> keeps_final (mem st) (mem st')"
  by (auto simp: http_simps keeps_final_expire
      split: prod.splits option.splits if_splits)

lemma keeps_final_complete_with:
  assumes run: "complete_with resume e a st = Some (r, st')"
  shows "keeps_final (mem st) (mem st')"
proof -
  obtain now w where clk: "eClock e (world st) = (now, w)" by (cases "eClock e (world st)")
  show ?thesis
  proof (cases "claimable now (heap (mem st) a)")
    case False
    with run show ?thesis by (auto simp: complete_with_lost [OF clk] keeps_final_expire)
  next
    case True
    have "\<not> Terminal (heap (mem st) a)" using True by (simp add: claimable_def)
    moreover have "only_touches a (mem st) (mem st')" by (rule complete_with_settles(2) [OF run clk True])
    ultimately show ?thesis by (auto simp: keeps_final_def only_touches_def)
  qed
qed

lemma keeps_final_complete:
  assumes run: "complete s req st = Some (res, st')"
  shows "keeps_final (mem st) (mem st')"
proof (cases "cqState req = [] \<or> (cqCode req = [] \<and> cqError req = [])")
  case True
  with run show ?thesis by (simp add: complete_def complete_session_def)
next
  case False
  obtain q st1 where g: "svc_GetByState s (cqState req) st = (q, st1)" by (cases "svc_GetByState s (cqState req) st")
  note f1 = keeps_final_GetByState [OF g]
  show ?thesis
  proof (cases q)
    case (Inl err)
    with False run g f1 show ?thesis by (auto simp: complete_def complete_session_def)
  next
    case (Inr a)
    obtain r2 st2 where c: "(if cqError req \<noteq> [] then CompleteError (svEngine s) a (cqError req) (cqState req) st1
        else Complete (svEngine s) a (cqCode req) (cqState req) st1) = Some (r2, st2)"
      and f: "finish_complete s a r2 st2 = (res, st')"
      using False run g Inr by (auto simp: complete_def complete_session_def split: prod.splits)
    have f2: "keeps_final (mem st1) (mem st2)"
      using c by (auto simp: Complete_def CompleteError_def dest: keeps_final_complete_with split: if_splits)
    obtain v st3 where v: "svc_ViewByID s (CorrelationID (heap (mem st2) a)) st2 = (v, st3)"
      by (cases "svc_ViewByID s (CorrelationID (heap (mem st2) a)) st2")
    have "st' = st3" using f v by (auto simp: finish_complete_def split: prod.splits sum.splits)
    then show ?thesis using f1 f2 keeps_final_ViewByID [OF v] by (blast intro: keeps_final_trans)
  qed
qed

lemma keeps_final_handleComplete:
  assumes run: "handleComplete s h r st = Some (resp, st')"
  shows "keeps_final (mem st) (mem st')"
  using run
  by (auto simp: handleComplete_def complete_response_def dest!: writeCompleteError_state keeps_final_complete
      split: sum.splits if_splits option.splits)

lemma keeps_final_callback:
  assumes run: "handleOAuthCallback s h r st = Some (resp, st')"
  shows "keeps_final (mem st) (mem st')"
  using run
  by (auto simp: handleOAuthCallback_def Let_def dest!: callback_response_state keeps_final_complete split: if_splits)

lemma keeps_final_Begin:
  assumes run: "Begin e corr doc conf cs opts st = (r, st')"
  shows "keeps_final (mem st) (mem st')"
proof (cases r)
  case (Inl err)
  with run Begin_fails(1) show ?thesis by (metis keeps_final_refl)
next
  case (Inr x)
  obtain url deadline where "x = (url, deadline)" by (cases x)
  with Inr run have "Begin e corr doc conf cs opts st = (Inr (url, deadline), st')" by simp
  then show ?thesis by (rule Begin_success) (simp add: keeps_final_def)
qed

lemma keeps_final_handleStart: "handleStart s h r st = (resp, st') \<Longrightarrow> keeps_final (mem st) (mem st')"
  by (auto simp: handleStart_def dest!: keeps_final_Begin split: sum.splits prod.splits if_splits)

lemma keeps_final_run_route:
  assumes run: "run_route s rt h r st = Some (resp, st')"
  shows "keeps_final (mem st) (mem st')"
proof (cases rt)
  case RCallback with run show ?thesis by (simp add: keeps_final_callback)
next
  case RStart with run show ?thesis by (simp add: keeps_final_handleStart)
next
  case RComplete with run show ?thesis by (simp add: keeps_final_handleComplete)
next
  case RStatus
  with run show ?thesis
    by (cases "svc_ViewByID s (correlation_query r) st")
      (auto simp: handleStatus_def intro: keeps_final_ViewByID split: sum.splits)
next
  case RResult
  with run show ?thesis
    by (cases "svc_ViewByID s (correlation_query r) st")
      (auto simp: handleResult_def Let_def intro: keeps_final_ViewByID split: sum.splits if_splits)
next
  case RVerify
  with run have "mem st' = mem st"
    by (auto simp: handleVerify_def split: sum.splits prod.splits if_splits option.splits)
  then show ?thesis by simp
next
  case RHealth with run show ?thesis by simp
qed

lemma keeps_final_ServeHTTP:
  assumes run: "ServeHTTP s r st = Some (resp, st')"
  shows "keeps_final (mem st) (mem st')"
proof -
  have "keeps_final (mem st) (mem st')" if "serve_mux s h r st = Some (resp, st')" for h
    using that keeps_final_run_route by (cases rule: serve_mux_cases [of s r h st]) auto
  with run show ?thesis by (auto simp: ServeHTTP_def authMiddleware_def split: if_splits)
qed

section \<open>Every request is answered\<close>

lemma complete_answers:
  assumes "finite_effects (eSDK (svEngine s)) rank"
  shows "complete s req st \<noteq> None"
proof -
  have "complete_with resume (svEngine s) a st1 \<noteq> None" for resume a st1
    using complete_with_terminates [OF assms, of resume a st1] by force
  then show ?thesis
    by (auto simp del: not_None_eq simp: complete_def complete_session_def Complete_def CompleteError_def split: sum.splits prod.splits)
qed

lemma run_route_answers:
  assumes "finite_effects (eSDK (svEngine s)) rank"
  shows "run_route s rt h r st \<noteq> None"
  using complete_answers [OF assms, of _ st]
  by (cases rt) (auto simp del: not_None_eq simp: handleComplete_def complete_response_def handleOAuthCallback_def Let_def split: sum.splits)

lemma ServeHTTP_answers:
  assumes "finite_effects (eSDK (svEngine s)) rank"
  shows "\<exists>resp st'. ServeHTTP s r st = Some (resp, st')"
proof -
  have "serve_mux s h r st \<noteq> None" for h
    using run_route_answers [OF assms, of _ h r st] by (auto simp: serve_mux_def split: dispatch.splits)
  then show ?thesis by (auto simp: ServeHTTP_def authMiddleware_def)
qed

section \<open>The service as a transition system\<close>

inductive serves :: "'w service \<Rightarrow> 'w gstate \<Rightarrow> 'w gstate \<Rightarrow> bool" for s :: "'w service" where
  serve: "ServeHTTP s r st = Some (resp, st') \<Longrightarrow> serves s st st'"

inductive_cases serves_cases [elim!]: "serves s st st'"

text \<open>The service starts with an empty store in a world that keeps its promises.\<close>

definition service_start :: "('w \<Rightarrow> time) \<Rightarrow> ('w \<Rightarrow> string set) \<Rightarrow> 'w service \<Rightarrow> 'w gstate \<Rightarrow> bool" where
  "service_start wt used s st \<longleftrightarrow> steady_world wt used s \<and> mem st = NewMemory"

definition service_inv :: "('w \<Rightarrow> time) \<Rightarrow> ('w \<Rightarrow> string set) \<Rightarrow> 'w service \<Rightarrow> 'w gstate \<Rightarrow> bool" where
  "service_inv wt used s st \<longleftrightarrow> steady_world wt used s \<and> run_inv wt used st"

interpretation service: transition_system "service_start wt used s" "serves s" "service_inv wt used s"
  for wt used s
proof unfold_locales
  fix st st' :: "'a gstate"
  show "service_inv wt used s st" if "service_start wt used s st"
    using that wf_NewMemory by (simp add: service_start_def service_inv_def run_inv_def ids_drawn_def NewMemory_def)
  show "service_inv wt used s st'" if "service_inv wt used s st" "serves s st st'"
    using that ServeHTTP_inv by (auto simp: service_inv_def)
qed

interpretation final: transition_system "\<lambda>st. mem st = m" "serves s" "\<lambda>st. keeps_final m (mem st)" for m s
  by unfold_locales (auto dest: keeps_final_ServeHTTP intro: keeps_final_trans)

text \<open>A service to apply the theorems to: its random blocks count up, and run out after 256.\<close>

definition fresh_rand :: "nat \<Rightarrow> int \<Rightarrow> (go_error + string) \<times> int" where
  "fresh_rand n w = (if 0 \<le> w \<and> w < 256 then (Inr (replicate n (chr (nat w))), w + 1)
                     else (Inl (ENew ''out of entropy''), w))"

definition drawn :: "int \<Rightarrow> string set" where
  "drawn w = {replicate 16 (chr k) | k. k < 256 \<and> int k < w}"

definition fresh_service :: "int service" where
  "fresh_service = demo_service\<lparr>svRand := fresh_rand, svProfile := demo_profile\<lparr>pAuthEnabled := False\<rparr>\<rparr>"

lemma later_ticks [simp]: "w \<le> w' \<Longrightarrow> later (\<lambda>w. w) drawn w w'"
  by (auto simp: later_def drawn_def)

lemma fresh_block:
  assumes k: "k < 256"
  shows "replicate 16 (chr k) \<in> drawn w \<longleftrightarrow> int k < w"
proof
  assume "replicate 16 (chr k) \<in> drawn w"
  then obtain j where j: "replicate 16 (chr k) = replicate 16 (chr j)" "j < 256" "int j < w"
    unfolding drawn_def by blast
  from j(1) have "chr k = chr j" by (simp only: replicate_eq_replicate)
  then have "ord (chr k) = ord (chr j)" by (rule arg_cong)
  then have "k mod 256 = j mod 256" by (simp only: of_char_of)
  with k j show "int k < w" by simp
next
  assume "int k < w"
  with k show "replicate 16 (chr k) \<in> drawn w" unfolding drawn_def by blast
qed

lemma fresh_steady: "steady_world (\<lambda>w. w) drawn fresh_service"
  by (auto simp: steady_world_def steady_engine_def fresh_service_def demo_service_def demo_engine_def demo_sdk_def
      fresh_rand_def fresh_block nat_less_iff split: if_splits)

lemma fresh_finite: "finite_effects (eSDK (svEngine fresh_service)) blen"
  using demo_finite by (simp add: fresh_service_def demo_service_def)

lemma fresh_reachable:
  obtains resp st' where "ServeHTTP fresh_service r demo_state = Some (resp, st')"
    "reachable (service_start (\<lambda>w. w) drawn fresh_service) (serves fresh_service) st'"
proof -
  obtain resp st' where run: "ServeHTTP fresh_service r demo_state = Some (resp, st')"
    using ServeHTTP_answers [OF fresh_finite] by blast
  have "service_start (\<lambda>w. w) drawn fresh_service demo_state"
    by (simp add: service_start_def fresh_steady demo_state_def)
  then have "reachable (service_start (\<lambda>w. w) drawn fresh_service) (serves fresh_service) st'"
    using reach_init reach_step serve [OF run] by metis
  with run that show thesis by blast
qed

text \<open>The state after the first start: one session waits for the state \<open>s1\<close>.\<close>

lemma fresh_start_dispatch:
  "mux_dispatch (routes (svProfile fresh_service)) demo_start = Handler RStart"
  by code_simp

lemma hex_nonempty [simp]: "hex_EncodeToString b \<noteq> [] \<longleftrightarrow> b \<noteq> []"
  by (cases b) simp_all

lemma fresh_open: "open_request (svProfile fresh_service) r"
  by (simp add: fresh_service_def open_request_def Let_def)

lemma fresh_started:
  assumes "ServeHTTP fresh_service demo_start demo_state = Some (resp, st')"
  shows "svc_GetByState fresh_service ''s1'' st' = (Inr 0, st'\<lparr>world := world st' + 1\<rparr>)"
proof -
  have "Some (resp, st') = Some (handleStart fresh_service (base_header demo_start) demo_start demo_state)"
    using assms fresh_open by (simp add: ServeHTTP_def authMiddleware_def serve_mux_def fresh_start_dispatch)
  then have "st' = snd (handleStart fresh_service (base_header demo_start) demo_start demo_state)"
    by (metis option.inject snd_conv)
  then show ?thesis
    by (simp add: handleStart_def demo_start_decodes start_checks_def maxClientStateBytes_def options_Validate_def
        fresh_service_def fresh_rand_def demo_service_def demo_profile_def newCorrelationID_def Begin_def demo_defs
        step_readers NewSession_unfold Let_def svc_GetByState_def GetByState_def NewMemory_def evictExpiredLocked_def
        map_str_def expireLocked_def new_session_def Update_def log_info_def Terminal_def)
qed

section \<open>Properties\<close>

text \<open>
  C2: in every state the service can reach, whatever requests it has served, the store is well
  formed and every session is in order: none is left claimed, so none is stuck in
  \<open>already_processing\<close>; its status is one the API names; a completed one has a non-empty document;
  a finished one has no handle and no pending OAuth state.
\<close>

theorem service_invariant:
  assumes "reachable (service_start wt used s) (serves s) st"
  shows "wf_memory (wt (world st)) (mem st)
    \<and> (\<forall>a < next_addr (mem st). case heap (mem st) a of ss \<Rightarrow>
          \<not> resuming ss \<and> Status ss \<in> {''authorizing'', ''completed'', ''declined'', ''failed''}
          \<and> (Status ss = ''completed'' \<longrightarrow> blen (ResultPDF ss) \<noteq> 0)
          \<and> (Status ss \<noteq> ''authorizing'' \<longrightarrow> Handle ss = None \<and> OAuthState ss = []))"
  using service.reachable_inv [OF assms]
  by (auto simp: service_inv_def run_inv_def session_ok_def Terminal_def status_Terminal_def status_defs)

theorem service_invariant_witness:
  "\<exists>resp st'. ServeHTTP fresh_service demo_start demo_state = Some (resp, st')
     \<and> wf_memory (world st') (mem st') \<and> (\<forall>a < next_addr (mem st'). \<not> resuming (heap (mem st') a))"
proof -
  obtain resp st' where run: "ServeHTTP fresh_service demo_start demo_state = Some (resp, st')"
    and r: "reachable (service_start (\<lambda>w. w) drawn fresh_service) (serves fresh_service) st'"
    by (rule fresh_reachable)
  from service_invariant [OF r] run show ?thesis by auto
qed

text \<open>
  C10: a pending session can always be claimed. In every state the service can reach between two
  requests, if an OAuth state still finds a session, then that session is alive and unclaimed at that
  moment, so the callback for it is not refused as a duplicate.
\<close>

theorem pending_session_claimable:
  assumes "reachable (service_start wt used s) (serves s) st"
    and "svc_GetByState s state st = (Inr a, st')"
  shows "\<exists>now w. eClock (svEngine s) (world st) = (now, w) \<and> mem st' = mem st
    \<and> claimable now (heap (mem st) a)
    \<and> (\<exists>h m. ConsumeForResume a now (mem st) = (Inr h, m))"
proof -
  obtain now w where clk: "eClock (svEngine s) (world st) = (now, w)" by (cases "eClock (svEngine s) (world st)")
  have inv: "run_inv wt used st" using service.reachable_inv [OF assms(1)] by (simp add: service_inv_def)
  then have wf: "wf_memory (wt (world st)) (mem st)" by (simp add: run_inv_def)
  obtain m where g: "GetByState state now (mem st) = (Inr a, m)" "mem st' = m"
    using assms(2) clk by (auto simp: svc_GetByState_def split: prod.splits)
  from GetByState_waits [OF wf, THEN iffD1, OF g(1)] obtain c where
    c: "m = mem st" "OAuthState (heap (mem st) a) = state" "\<not> expired now (heap (mem st) a)"
      "map_of (byState (mem st)) state = Some c" "map_of (byID (mem st)) c = Some a" by blast
  have "state \<noteq> []" using wf_state [OF wf c(4)] by blast
  moreover have "session_ok (heap (mem st) a)" using inv run_inv_byID [OF inv c(5)] by (simp add: run_inv_def)
  ultimately have cl: "claimable now (heap (mem st) a)"
    using c(2,3) by (auto simp: session_ok_def claimable_def expired_def)
  then have "\<exists>h m. ConsumeForResume a now (mem st) = (Inr h, m)"
    by (cases rule: ConsumeForResume_cases [of a now "mem st"]) (auto simp: claimable_def)
  with clk cl c(1) g(2) show ?thesis by blast
qed

theorem pending_session_claimable_witness:
  "\<exists>st now h m. svc_GetByState fresh_service ''s1'' st = (Inr 0, st\<lparr>world := world st + 1\<rparr>)
     \<and> ConsumeForResume 0 now (mem st) = (Inr h, m)"
proof -
  obtain resp st' where run: "ServeHTTP fresh_service demo_start demo_state = Some (resp, st')"
    and r: "reachable (service_start (\<lambda>w. w) drawn fresh_service) (serves fresh_service) st'"
    by (rule fresh_reachable)
  from pending_session_claimable [OF r fresh_started [OF run]] fresh_started [OF run] show ?thesis by blast
qed

text \<open>
  C11: a finished session is final. Serving requests one after another, a session that has completed,
  been declined or failed keeps its status, its reason, its document and its evidence for as long as
  it exists: no later request, of any kind, changes it.
\<close>

theorem finished_session_final:
  assumes "(serves s)\<^sup>*\<^sup>* st st'" and "a < next_addr (mem st)" and "Terminal (heap (mem st) a)"
  shows "heap (mem st') a = heap (mem st) a"
  using final.steps_inv [OF assms(1), of "mem st"] assms(2,3) by (simp add: keeps_final_def)

theorem finished_session_final_witness:
  "\<exists>resp st'. ServeHTTP demo_service demo_start (engine_fail 0 StatusFailed ''x'' None demo_begun) = Some (resp, st')
     \<and> Reason (heap (mem st') 0) = ''x''"
proof -
  let ?st = "engine_fail 0 StatusFailed ''x'' None demo_begun"
  have "finite_effects (eSDK (svEngine demo_service)) blen" by (simp add: demo_service_def demo_finite)
  from ServeHTTP_answers [OF this] obtain resp st'
    where run: "ServeHTTP demo_service demo_start ?st = Some (resp, st')" by blast
  have "Terminal (heap (mem ?st) 0)" by (simp add: Terminal_def)
  moreover have "0 < next_addr (mem ?st)" by (simp add: demo_begun_eq)
  ultimately have "heap (mem st') 0 = heap (mem ?st) 0"
    using finished_session_final [OF r_into_rtranclp [of "serves demo_service", OF serve [OF run]]] by blast
  with run show ?thesis by simp
qed

text \<open>
  Every request is answered. If each resumed effect brings the SDK to a handle of smaller rank,
  the handler of every route returns from every request and every state.
\<close>

theorem every_request_answered:
  assumes "finite_effects (eSDK (svEngine s)) rank"
  shows "\<exists>resp st'. ServeHTTP s r st = Some (resp, st')"
  using assms by (rule ServeHTTP_answers)

theorem every_request_answered_witness:
  "\<exists>resp st'. ServeHTTP demo_service demo_start demo_begun = Some (resp, st')"
  by (rule every_request_answered [of demo_service blen]) (simp add: demo_service_def demo_finite)

end
