(* ===== verification/Upstream_Client.thy ===== *)
theory Upstream_Client
  imports Flow_Contract
begin

text \<open>
  The upstream client of internal/upstream/client.go: it rewrites the host of an effect's URL in
  fixtures mode, builds the request, and reads a bounded response.

  What lies behind \<open>http.Client.Do\<close> (connections, redirects, the 30-second timeout, cancellation) is
  a parameter: a function from the request to either a failed round trip, with the URL it failed on
  and the cause, or a response. A response body is the bytes it delivers and how it ends: end of
  file, or a read error.
\<close>

section \<open>Requests and responses\<close>

definition maxResponseBytes :: nat where
  "maxResponseBytes = 4 * 1024 * 1024"

record client_request =
  rqMethod :: string
  rqURL :: url
  rqHeader :: "(string \<times> string) list"
  rqBody :: gobytes

record http_response =
  rspStatus :: int
  rspBody :: string
  rspEnd :: "go_error option"

type_synonym 'w network = "'w \<Rightarrow> client_request \<Rightarrow> (url \<times> go_error + http_response) \<times> 'w"

record 'w client =
  HTTP :: "'w network"
  RewriteTo :: string

definition NewClient :: "'w network \<Rightarrow> string \<Rightarrow> 'w client" where
  "NewClient net rewriteTo = \<lparr>HTTP = net, RewriteTo = rewriteTo\<rparr>"

section \<open>Rewriting\<close>

definition Rewrite :: "'w client \<Rightarrow> string \<Rightarrow> string" where
  "Rewrite c raw =
     (if RewriteTo c = [] then raw
      else case url_Parse raw of
             None \<Rightarrow> raw
           | Some u \<Rightarrow>
               (case url_Parse (RewriteTo c) of
                  None \<Rightarrow> raw
                | Some base \<Rightarrow>
                    if Host base = [] then raw
                    else url_String (u\<lparr>Scheme := Scheme base, Host := Host base\<rparr>)))"

section \<open>Building a request\<close>

text \<open>The token characters of RFC 9110, which a method and a header name are made of.\<close>

definition is_token_char :: "char \<Rightarrow> bool" where
  "is_token_char c = (is_alnum c \<or> c \<in> set ''!#$%&*+-.^_`|~'' \<or> ord c = 39)"

text \<open>\<open>textproto.CanonicalMIMEHeaderKey\<close>: a capital after each hyphen; a name that is no token is kept.\<close>

fun canonical_from :: "bool \<Rightarrow> string \<Rightarrow> string" where
  "canonical_from up [] = []"
| "canonical_from up (c # cs) =
     (if up \<and> is_lower c then upper_char c else if \<not> up \<and> is_upper c then lower_char c else c)
     # canonical_from (c = CHR ''-'') cs"

definition CanonicalHeaderKey :: "string \<Rightarrow> string" where
  "CanonicalHeaderKey k = (if list_all is_token_char k then canonical_from True k else k)"

text \<open>\<open>Header.Set\<close>: a repeated name replaces the value.\<close>

definition Header_Set :: "string \<times> string \<Rightarrow> (string \<times> string) list \<Rightarrow> (string \<times> string) list" where
  "Header_Set h hdr = AList.update (CanonicalHeaderKey (fst h)) (snd h) hdr"

text \<open>
  \<open>http.NewRequestWithContext\<close>: the method must be a token (an empty one is GET), the URL must
  parse, an empty port is dropped from its host, and an empty body is no body. The text of the
  parser's own complaint is one word here; the quoted URL before it is as the code has it.
\<close>

definition NewRequest :: "string \<Rightarrow> string \<Rightarrow> gobytes \<Rightarrow> go_error + client_request" where
  "NewRequest m target b =
     (let m1 = (if m = [] then ''GET'' else m)
      in if \<not> list_all is_token_char m1
         then Inl (ENew (''net/http: invalid method '' @ strconv_Quote m1))
         else case url_Parse target of
                None \<Rightarrow> Inl (EWrap (''parse '' @ strconv_Quote target) (ENew ''invalid''))
              | Some u \<Rightarrow>
                  Inr \<lparr>rqMethod = m1,
                       rqURL = (if strings_HasSuffix (Host u) '':'' then u\<lparr>Host := butlast (Host u)\<rparr> else u),
                       rqHeader = [], rqBody = append_nil b\<rparr>)"

section \<open>The errors of the HTTP client\<close>

text \<open>\<open>url.Error\<close>: the method with a capital, the quoted URL with its password masked, the cause.\<close>

definition urlErrorOp :: "string \<Rightarrow> string" where
  "urlErrorOp m = (case m of [] \<Rightarrow> ''Get'' | c # cs \<Rightarrow> c # map lower_char cs)"

definition replace_first :: "string \<Rightarrow> string \<Rightarrow> string \<Rightarrow> string" where
  "replace_first old new s =
     (case filter (\<lambda>i. take (length old) (drop i s) = old) [0..<Suc (length s)] of
        [] \<Rightarrow> s | i # _ \<Rightarrow> take i s @ new @ drop (i + length old) s)"

definition stripPassword :: "url \<Rightarrow> string" where
  "stripPassword u =
     (case User u of
        None \<Rightarrow> url_String u
      | Some ui \<Rightarrow>
          (case password ui of
             None \<Rightarrow> url_String u
           | Some _ \<Rightarrow> replace_first (userinfo_String ui @ ''@'') (username ui @ '':***@'') (url_String u)))"

definition url_Error :: "string \<Rightarrow> url \<Rightarrow> go_error \<Rightarrow> go_error" where
  "url_Error m u cause = EWrap (urlErrorOp m @ '' '' @ strconv_Quote (stripPassword u)) cause"

section \<open>Performing an effect\<close>

text \<open>
  \<open>io.ReadAll\<close> of \<open>io.LimitReader(body, n)\<close>: a body of \<open>n\<close> bytes or more is cut at \<open>n\<close>, a shorter one
  is read to its end. The result is never nil.
\<close>

definition read_limited :: "nat \<Rightarrow> http_response \<Rightarrow> go_error + gobytes" where
  "read_limited n rsp =
     (if length (rspBody rsp) < n
      then (case rspEnd rsp of Some err \<Rightarrow> Inl err | None \<Rightarrow> Inr (Some (rspBody rsp)))
      else Inr (Some (take n (rspBody rsp))))"

definition Do :: "'w client \<Rightarrow> 'w effector" where
  "Do c w m raw hs b =
     (case NewRequest m (Rewrite c raw) b of
        Inl err \<Rightarrow> (Inl err, w)
      | Inr req0 \<Rightarrow>
          (let req = req0\<lparr>rqHeader := fold Header_Set hs (rqHeader req0)\<rparr>
           in case HTTP c w req of
                (Inl (u, cause), w1) \<Rightarrow> (Inl (url_Error (rqMethod req) u cause), w1)
              | (Inr rsp, w1) \<Rightarrow>
                  (case read_limited (maxResponseBytes + 1) rsp of
                     Inl err \<Rightarrow> (Inl err, w1)
                   | Inr content \<Rightarrow>
                       (if blen content > maxResponseBytes
                        then (Inl (ENew (''upstream response exceeds '' @ show_nat maxResponseBytes @ '' bytes'')), w1)
                        else (Inr (rspStatus rsp, content), w1)))))"

section \<open>Facts\<close>

lemma Do_response:
  assumes "Do c w m raw hs b = (Inr (n, r), w')"
  obtains req rsp where "HTTP c w req = (Inr rsp, w')" "rspEnd rsp = None" "n = rspStatus rsp"
    "r = Some (rspBody rsp)" "length (rspBody rsp) \<le> maxResponseBytes"
  using assms
  by (auto simp: Do_def read_limited_def Let_def split: sum.splits prod.splits if_splits option.splits)

interpretation upstream: bounded_effector "Do c" maxResponseBytes for c
  by unfold_locales (auto elim!: Do_response)

text \<open>Rewriting replaces the scheme and the host and renders everything else as it was.\<close>

lemma url_String_rooted:
  assumes "Opaque u = []" "Host u \<noteq> []" "EscapedPath u = [] \<or> hd (EscapedPath u) = CHR ''/''"
  shows "url_String u =
    (if Scheme u \<noteq> [] then Scheme u @ '':'' else []) @ ''//''
    @ (case User u of None \<Rightarrow> [] | Some ui \<Rightarrow> userinfo_String ui @ ''@'') @ url_escape (Host u) EncodeHost
    @ EscapedPath u
    @ (if ForceQuery u \<or> RawQuery u \<noteq> [] then ''?'' @ RawQuery u else [])
    @ (if Fragment u \<noteq> [] then ''#'' @ EscapedFragment u else [])"
  using assms by (auto simp: url_String_def url_authority_def Let_def)

lemma EscapedPath_update [simp]:
  "EscapedPath (u\<lparr>Scheme := s, Host := h\<rparr>) = EscapedPath u"
  "EscapedFragment (u\<lparr>Scheme := s, Host := h\<rparr>) = EscapedFragment u"
  by (simp_all add: EscapedPath_def EscapedFragment_def)

section \<open>Properties\<close>

text \<open>
  C28: the SDK never sees an oversized response. A response \<open>Do\<close> returns is the complete body the
  upstream service sent, read to its end of file, with its status code, and at most 4 MiB long; a
  longer or broken body is an error.
\<close>

theorem Do_response_complete:
  assumes "Do c w m raw hs b = (Inr (n, r), w')"
  shows "blen r \<le> 4194304
    \<and> (\<exists>req rsp. HTTP c w req = (Inr rsp, w') \<and> rspEnd rsp = None \<and> n = rspStatus rsp
          \<and> r = Some (rspBody rsp))"
  using assms by (rule Do_response) (auto simp: maxResponseBytes_def)

lemma demo_parse: "url_Parse ''https://h/t?c=1'' =
    Some (empty_url\<lparr>Scheme := ''https'', Host := ''h'', Path := ''/t'', RawQuery := ''c=1''\<rparr>)"
  by code_simp

definition demo_net :: "int network" where
  "demo_net w req = (Inr \<lparr>rspStatus = 200, rspBody = ''token'', rspEnd = None\<rparr>, w + 1)"

theorem Do_response_complete_witness:
  "Do (NewClient demo_net []) 0 ''POST'' ''https://h/t?c=1'' [] None = (Inr (200, Some ''token''), 1)
   \<and> blen (Some ''token'') \<le> 4194304"
proof -
  have "Do (NewClient demo_net []) 0 ''POST'' ''https://h/t?c=1'' [] None = (Inr (200, Some ''token''), 1)"
    by (simp add: Do_def NewClient_def Rewrite_def NewRequest_def demo_parse is_token_char_def is_alnum_def
        is_upper_def strings_HasSuffix_def empty_url_def demo_net_def read_limited_def maxResponseBytes_def)
  with Do_response_complete [OF this] show ?thesis by simp
qed

text \<open>
  Bounded reading protects the SDK. With the gateway's own client as effector, \<open>drive\<close> behaves
  the same for any two SDKs that agree on bodies of at most 4 MiB, so what the SDK would do with a
  longer one never matters.
\<close>

theorem drive_only_bounded_bodies:
  assumes "eUp e = Do c"
    and "\<And>w h n r. blen r \<le> maxResponseBytes \<Longrightarrow>
      sdk_ResumeHTTP sd w h n r = sdk_ResumeHTTP (eSDK e) w h n r"
  shows "drive (e\<lparr>eSDK := sd\<rparr>) a res st = drive e a res st"
  using assms by (rule upstream.drive_bounded_bodies)

theorem drive_only_bounded_bodies_witness:
  "let e = demo_engine\<lparr>eUp := Do (NewClient demo_net [])\<rparr>;
       picky = demo_sdk\<lparr>sdk_ResumeHTTP := (\<lambda>w h n r.
         if blen r > maxResponseBytes then (Inl (ENew ''too long''), w) else sdk_ResumeHTTP demo_sdk w h n r)\<rparr>
   in drive (e\<lparr>eSDK := picky\<rparr>) 0 \<lparr>rHandle = Some ''h'', rStep = demo_http\<rparr> demo_begun
      = drive e 0 \<lparr>rHandle = Some ''h'', rStep = demo_http\<rparr> demo_begun"
  unfolding Let_def
  by (rule drive_only_bounded_bodies) (simp_all add: demo_engine_def)

text \<open>
  C29: what rewriting does to a URL. With a base that has a host, a URL with a rooted or empty path
  becomes the base's scheme and host followed by the URL's own user information, escaped path, query
  and fragment, each as it was; without a base, or with one that has no host, it is unchanged.
\<close>

theorem Rewrite_keeps_path_and_query:
  assumes "url_Parse raw = Some u" "url_Parse (RewriteTo c) = Some base"
    and "Opaque u = []" "EscapedPath u = [] \<or> hd (EscapedPath u) = CHR ''/''"
  shows "Rewrite (c\<lparr>RewriteTo := []\<rparr>) raw = raw
    \<and> (if RewriteTo c = [] \<or> Host base = [] then Rewrite c raw = raw
       else Rewrite c raw =
         (if Scheme base \<noteq> [] then Scheme base @ '':'' else []) @ ''//''
         @ (case User u of None \<Rightarrow> [] | Some ui \<Rightarrow> userinfo_String ui @ ''@'')
         @ url_escape (Host base) EncodeHost @ EscapedPath u
         @ (if ForceQuery u \<or> RawQuery u \<noteq> [] then ''?'' @ RawQuery u else [])
         @ (if Fragment u \<noteq> [] then ''#'' @ EscapedFragment u else []))"
  using assms by (auto simp: Rewrite_def url_String_rooted)

lemma demo_base: "url_Parse ''http://mock:9'' = Some (empty_url\<lparr>Scheme := ''http'', Host := ''mock:9''\<rparr>)"
  by code_simp

theorem Rewrite_keeps_path_and_query_witness:
  "Rewrite (NewClient demo_net ''http://mock:9'') ''https://h/t?c=1'' = ''http://mock:9/t?c=1''"
proof -
  let ?u = "empty_url\<lparr>Scheme := ''https'', Host := ''h'', Path := ''/t'', RawQuery := ''c=1''\<rparr>"
  have 1: "EscapedPath ?u = ''/t''" "url_escape ''mock:9'' EncodeHost = ''mock:9''" by code_simp+
  have 2: "Opaque ?u = []" "EscapedPath ?u = [] \<or> hd (EscapedPath ?u) = CHR ''/''"
    using 1 by (simp_all add: empty_url_def)
  have 3: "url_Parse (RewriteTo (NewClient demo_net ''http://mock:9'')) = Some (empty_url\<lparr>Scheme := ''http'', Host := ''mock:9''\<rparr>)"
    by (simp add: NewClient_def demo_base)
  from Rewrite_keeps_path_and_query [OF demo_parse 3 2] 1 show ?thesis
    by (simp add: NewClient_def empty_url_def)
qed

text \<open>
  C39: The text of a transport error names the whole URL. When the round trip fails on a URL without a
  password, the error of \<open>Do\<close> reads \<open>Method "URL": cause\<close> with the URL rendered in full, query
  included; this is the text that \<open>drive\<close> writes to its log under \<open>err\<close>, next to the redacted URL.
\<close>

theorem Do_error_names_url:
  assumes req: "NewRequest m (Rewrite c raw) b = Inr req0"
    and net: "HTTP c w (req0\<lparr>rqHeader := fold Header_Set hs (rqHeader req0)\<rparr>) = (Inl (u, cause), w')"
    and pw: "User u = None" and plain: "list_all plain_char (url_String u)"
  shows "\<exists>err. Do c w m raw hs b = (Inl err, w')
    \<and> error_text err = urlErrorOp (rqMethod req0) @ '' '' @ [chr 34] @ url_String u @ [chr 34]
        @ '': '' @ error_text cause"
  using req net pw
  by (simp add: Do_def Let_def url_Error_def stripPassword_def quote_plain [OF plain])

definition demo_down :: "int network" where
  "demo_down w req = (Inl (rqURL req, ENew ''connection refused''), w)"

theorem Do_error_names_url_witness:
  "\<exists>err. Do (NewClient demo_down []) 0 ''POST'' ''https://h/t?c=1'' [] None = (Inl err, 0)
     \<and> error_text err = ''Post '' @ [chr 34] @ ''https://h/t?c=1'' @ [chr 34] @ '': connection refused''"
proof -
  let ?u = "empty_url\<lparr>Scheme := ''https'', Host := ''h'', Path := ''/t'', RawQuery := ''c=1''\<rparr>"
  let ?req = "\<lparr>rqMethod = ''POST'', rqURL = ?u, rqHeader = [], rqBody = None\<rparr>"
  have u: "url_String ?u = ''https://h/t?c=1''" by code_simp
  have 1: "NewRequest ''POST'' (Rewrite (NewClient demo_down []) ''https://h/t?c=1'') None = Inr ?req"
    by (simp add: NewClient_def Rewrite_def NewRequest_def demo_parse is_token_char_def is_alnum_def
        is_upper_def strings_HasSuffix_def empty_url_def)
  have 2: "HTTP (NewClient demo_down []) 0 (?req\<lparr>rqHeader := fold Header_Set [] (rqHeader ?req)\<rparr>)
      = (Inl (?u, ENew ''connection refused''), 0)"
    by (simp add: NewClient_def demo_down_def)
  have 3: "User ?u = None" by (simp add: empty_url_def)
  have 4: "list_all plain_char (url_String ?u)" unfolding u by code_simp
  have 5: "urlErrorOp ''POST'' = ''Post''" by code_simp
  from Do_error_names_url [OF 1 2 3 4] show ?thesis by (simp only: u) (simp add: 5)
qed

end
