(* ===== verification/Cleverbase_Adapter.thy ===== *)
theory Cleverbase_Adapter
  imports Flow_Contract Config_Profile
begin

text \<open>
  The adapter of internal/cleverbase/adapter.go, which makes the SDK's Go binding an instance of the
  engine's SDK interface. The binding is not part of the repository: its entry points are a record of
  functions over the world, with the argument lists the adapter calls them with. The random source
  and the wall clock (in seconds) are functions of the world too.
\<close>

section \<open>The binding\<close>

record binding_config =
  bcEnvironment :: string
  bcCscAPI :: string
  bcClientID :: string
  bcClientSecret :: string
  bcRedirectURI :: string
  bcUpstreamBaseURL :: string
  bcTsaURL :: string
  bcTsaAuth :: string
  bcTsaPolicy :: string

text \<open>A request's options carry the expected signer: what to match on, and the value.\<close>

type_synonym binding_options = "string \<times> string"

record binding_session =
  bsHandle :: gobytes
  bsStep :: step_map

record binding_verification =
  bvIntegrity :: bool
  bvProfile :: "string option"
  bvSigner :: "pdf_signer option"
  bvReasons :: "string list option"

type_synonym entropy16 = string

record 'w bindings =
  b_Validate :: "binding_config \<Rightarrow> go_error option"
  b_BeginSigning :: "'w \<Rightarrow> gobytes \<Rightarrow> binding_config \<Rightarrow> string \<Rightarrow> binding_options option \<Rightarrow> int \<Rightarrow> entropy16
    \<Rightarrow> (go_error + binding_session) \<times> 'w"
  b_ResumeRedirect :: "'w \<Rightarrow> gobytes \<Rightarrow> string \<Rightarrow> string \<Rightarrow> int \<Rightarrow> entropy16 \<Rightarrow> (go_error + binding_session) \<times> 'w"
  b_ResumeRedirectError :: "'w \<Rightarrow> gobytes \<Rightarrow> string \<Rightarrow> string \<Rightarrow> int \<Rightarrow> entropy16 \<Rightarrow> (go_error + binding_session) \<times> 'w"
  b_ResumeHTTP :: "'w \<Rightarrow> gobytes \<Rightarrow> int \<Rightarrow> gobytes \<Rightarrow> int \<Rightarrow> entropy16 \<Rightarrow> (go_error + binding_session) \<times> 'w"
  b_VerifyPDF :: "'w \<Rightarrow> gobytes \<Rightarrow> (go_error + binding_verification) \<times> 'w"

text \<open>\<open>randRead n\<close> fills a buffer of \<open>n\<close> bytes or fails; \<open>unix_now\<close> reads the clock.\<close>

record 'w platform =
  randRead :: "nat \<Rightarrow> 'w \<Rightarrow> (go_error + string) \<times> 'w"
  unix_now :: "'w \<Rightarrow> int \<times> 'w"

section \<open>The adapter\<close>

definition NewAdapter :: "profile \<Rightarrow> binding_config" where
  "NewAdapter p =
     \<lparr>bcEnvironment = pEnvironment p, bcCscAPI = pCSCAPI p, bcClientID = pClientID p,
      bcClientSecret = pClientSecret p, bcRedirectURI = pRedirectURI p,
      bcUpstreamBaseURL = pSDKUpstreamBaseURL p, bcTsaURL = pTSAURL p, bcTsaAuth = pTSAAuth p,
      bcTsaPolicy = pTSAPolicy p\<rparr>"

definition adapter_Validate :: "'w bindings \<Rightarrow> binding_config \<Rightarrow> go_error option" where
  "adapter_Validate b cfg = b_Validate b cfg"

definition entropy :: "'w platform \<Rightarrow> 'w \<Rightarrow> (go_error + entropy16) \<times> 'w" where
  "entropy pl w =
     (case randRead pl 16 w of
        (Inl err, w1) \<Rightarrow> (Inl (EWrap ''generate signing entropy'' err), w1)
      | (Inr ent, w1) \<Rightarrow> (Inr ent, w1))"

definition toResult :: "binding_session \<Rightarrow> sdk_result" where
  "toResult s = \<lparr>rHandle = bsHandle s, rStep = bsStep s\<rparr>"

definition toBindingOptions :: "options option \<Rightarrow> binding_options option" where
  "toBindingOptions opts =
     (case opts of
        None \<Rightarrow> None
      | Some opt \<Rightarrow>
          if ExpectedSignerValue opt = [] then None
          else Some (ExpectedSignerMatchOn opt, ExpectedSignerValue opt))"

definition toVerification :: "binding_verification \<Rightarrow> pdf_verification" where
  "toVerification r =
     \<lparr>Integrity = bvIntegrity r, Profile = bvProfile r,
      Signer = map_option (\<lambda>s. \<lparr>Serial = Serial s, CN = CN s\<rparr>) (bvSigner r),
      Reasons = Some (case bvReasons r of None \<Rightarrow> [] | Some rs \<Rightarrow> rs)\<rparr>"

text \<open>The part the four signing calls share: entropy first, then the clock, then the binding.\<close>

definition with_entropy ::
  "'w platform \<Rightarrow> (int \<Rightarrow> entropy16 \<Rightarrow> 'w \<Rightarrow> (go_error + binding_session) \<times> 'w) \<Rightarrow> 'w
   \<Rightarrow> (go_error + sdk_result) \<times> 'w" where
  "with_entropy pl call w =
     (case entropy pl w of
        (Inl err, w1) \<Rightarrow> (Inl err, w1)
      | (Inr ent, w1) \<Rightarrow>
          (case unix_now pl w1 of (now, w2) \<Rightarrow>
             (case call now ent w2 of
                (Inl err, w3) \<Rightarrow> (Inl err, w3)
              | (Inr s, w3) \<Rightarrow> (Inr (toResult s), w3))))"

definition adapter_VerifyPDF :: "'w bindings \<Rightarrow> 'w \<Rightarrow> gobytes \<Rightarrow> (go_error + pdf_verification) \<times> 'w" where
  "adapter_VerifyPDF b w document =
     (case b_VerifyPDF b w document of
        (Inl err, w1) \<Rightarrow> (Inl err, w1)
      | (Inr r, w1) \<Rightarrow> (Inr (toVerification r), w1))"

definition adapter_Begin ::
  "'w bindings \<Rightarrow> 'w platform \<Rightarrow> binding_config \<Rightarrow> 'w \<Rightarrow> gobytes \<Rightarrow> string \<Rightarrow> options option
   \<Rightarrow> (go_error + sdk_result) \<times> 'w" where
  "adapter_Begin b pl cfg w document conformance opts =
     (case options_Validate opts of
        Some err \<Rightarrow> (Inl err, w)
      | None \<Rightarrow>
          with_entropy pl (\<lambda>now ent w1. b_BeginSigning b w1 document cfg conformance (toBindingOptions opts) now ent) w)"

definition adapter_ResumeRedirect ::
  "'w bindings \<Rightarrow> 'w platform \<Rightarrow> 'w \<Rightarrow> gobytes \<Rightarrow> string \<Rightarrow> string \<Rightarrow> (go_error + sdk_result) \<times> 'w" where
  "adapter_ResumeRedirect b pl w handle code state =
     with_entropy pl (\<lambda>now ent w1. b_ResumeRedirect b w1 handle code state now ent) w"

definition adapter_ResumeRedirectError ::
  "'w bindings \<Rightarrow> 'w platform \<Rightarrow> 'w \<Rightarrow> gobytes \<Rightarrow> string \<Rightarrow> string \<Rightarrow> (go_error + sdk_result) \<times> 'w" where
  "adapter_ResumeRedirectError b pl w handle oauthError state =
     with_entropy pl (\<lambda>now ent w1. b_ResumeRedirectError b w1 handle oauthError state now ent) w"

definition adapter_ResumeHTTP ::
  "'w bindings \<Rightarrow> 'w platform \<Rightarrow> 'w \<Rightarrow> gobytes \<Rightarrow> int \<Rightarrow> gobytes \<Rightarrow> (go_error + sdk_result) \<times> 'w" where
  "adapter_ResumeHTTP b pl w handle status content =
     with_entropy pl (\<lambda>now ent w1. b_ResumeHTTP b w1 handle status content now ent) w"

text \<open>The adapter as the engine's SDK.\<close>

definition adapter_sdk :: "'w bindings \<Rightarrow> 'w platform \<Rightarrow> binding_config \<Rightarrow> 'w sdk" where
  "adapter_sdk b pl cfg =
     \<lparr>sdk_Begin = adapter_Begin b pl cfg, sdk_ResumeRedirect = adapter_ResumeRedirect b pl,
      sdk_ResumeRedirectError = adapter_ResumeRedirectError b pl, sdk_ResumeHTTP = adapter_ResumeHTTP b pl,
      sdk_VerifyPDF = adapter_VerifyPDF b\<rparr>"

section \<open>Facts\<close>

lemma adapter_sdk_simps [simp]:
  "sdk_Begin (adapter_sdk b pl cfg) = adapter_Begin b pl cfg"
  "sdk_ResumeRedirect (adapter_sdk b pl cfg) = adapter_ResumeRedirect b pl"
  "sdk_ResumeRedirectError (adapter_sdk b pl cfg) = adapter_ResumeRedirectError b pl"
  "sdk_ResumeHTTP (adapter_sdk b pl cfg) = adapter_ResumeHTTP b pl"
  "sdk_VerifyPDF (adapter_sdk b pl cfg) = adapter_VerifyPDF b"
  by (simp_all add: adapter_sdk_def)

lemma with_entropy_fails:
  "randRead pl 16 w = (Inl err, w1) \<Longrightarrow>
   with_entropy pl call w = (Inl (EWrap ''generate signing entropy'' err), w1)"
  by (simp add: with_entropy_def entropy_def)

lemmas adapter_defs = adapter_Begin_def adapter_ResumeRedirect_def adapter_ResumeRedirectError_def
  adapter_ResumeHTTP_def

text \<open>The random source fills the buffer it is given: a successful read has the length asked for.\<close>

definition rand_fills :: "'w platform \<Rightarrow> bool" where
  "rand_fills pl \<longleftrightarrow> (\<forall>n w ent w1. randRead pl n w = (Inr ent, w1) \<longrightarrow> length ent = n)"

text \<open>Then only calls with 16 bytes of entropy matter.\<close>

lemma with_entropy_16:
  assumes "rand_fills pl" "\<And>now ent w. length ent = 16 \<Longrightarrow> call now ent w = call' now ent w"
  shows "with_entropy pl call w = with_entropy pl call' w"
proof (cases "randRead pl 16 w")
  case (Pair r w1)
  obtain now w2 where "unix_now pl w1 = (now, w2)" by (cases "unix_now pl w1")
  moreover have "length ent = 16" if "r = Inr ent" for ent
    using Pair that assms(1) by (auto simp: rand_fills_def)
  ultimately show ?thesis
    using Pair assms(2) by (cases r) (simp_all add: with_entropy_def entropy_def)
qed

section \<open>Properties\<close>

text \<open>
  C22: a degraded random source never signs. If the random read fails, a completion that won its
  session ends at once: it returns the wrapped error, the session is failed with \<open>resume_error\<close> and
  sealed, and nothing was called on the binding (the world is the one the failed read left). A start
  and an HTTP resume fail with the same error.
\<close>

theorem entropy_failure_never_signs:
  assumes sdk: "eSDK e = adapter_sdk b pl cfg"
    and rng: "randRead pl 16 w = (Inl err, w1)"
    and won: "eClock e (world st) = (now, w)" "claimable now (heap (mem st) a)"
  shows "(\<exists>st'. Complete e a code state st = Some (([], [], [], Some (EWrap ''generate signing entropy'' err)), st')
      \<and> sealed (mem st') a \<and> Reason (heap (mem st') a) = ''resume_error'' \<and> world st' = w1)
    \<and> (\<exists>st'. CompleteError e a oauthError state st = Some (([], [], [], Some (EWrap ''generate signing entropy'' err)), st')
      \<and> sealed (mem st') a \<and> Reason (heap (mem st') a) = ''resume_error'' \<and> world st' = w1)
    \<and> adapter_ResumeHTTP b pl w handle status content = (Inl (EWrap ''generate signing entropy'' err), w1)
    \<and> (options_Validate opts = None \<longrightarrow>
        adapter_Begin b pl cfg w doc conf opts = (Inl (EWrap ''generate signing entropy'' err), w1))"
  using won
  by (simp add: Complete_def CompleteError_def complete_with_won sdk adapter_defs
      with_entropy_fails [OF rng] engine_fail_sealed) (simp add: reasonResumeError_def)

definition broken_rng :: "int platform" where
  "broken_rng = \<lparr>randRead = (\<lambda>n w. (Inl (ENew ''no entropy''), w)), unix_now = (\<lambda>w. (w, w))\<rparr>"

definition idle_bindings :: "int bindings" where
  "idle_bindings =
     \<lparr>b_Validate = (\<lambda>_. None),
      b_BeginSigning = (\<lambda>w d c cf o' n e. (Inr \<lparr>bsHandle = Some e, bsStep = demo_redirect\<rparr>, w + 1)),
      b_ResumeRedirect = (\<lambda>w h c s n e. (Inr \<lparr>bsHandle = h, bsStep = demo_done\<rparr>, w + 1)),
      b_ResumeRedirectError = (\<lambda>w h c s n e. (Inr \<lparr>bsHandle = h, bsStep = demo_declined\<rparr>, w + 1)),
      b_ResumeHTTP = (\<lambda>w h c s n e. (Inr \<lparr>bsHandle = h, bsStep = demo_done\<rparr>, w + 1)),
      b_VerifyPDF = (\<lambda>w d. (Inr \<lparr>bvIntegrity = True, bvProfile = Some ''B-T'', bvSigner = None, bvReasons = None\<rparr>, w))\<rparr>"

definition demo_cfg :: binding_config where
  "demo_cfg = \<lparr>bcEnvironment = ''acceptance'', bcCscAPI = ''v1_rsa'', bcClientID = ''id'', bcClientSecret = ''x'',
     bcRedirectURI = ''https://gw.test/cb'', bcUpstreamBaseURL = [], bcTsaURL = ''https://tsa.test'',
     bcTsaAuth = [], bcTsaPolicy = []\<rparr>"

theorem entropy_failure_never_signs_witness:
  "\<exists>st'. Complete (demo_engine\<lparr>eSDK := adapter_sdk idle_bindings broken_rng demo_cfg\<rparr>) 0 ''code'' ''s1'' demo_begun
      = Some (([], [], [], Some (EWrap ''generate signing entropy'' (ENew ''no entropy''))), st')
    \<and> sealed (mem st') 0"
proof -
  let ?e = "demo_engine\<lparr>eSDK := adapter_sdk idle_bindings broken_rng demo_cfg\<rparr>"
  have 1: "eSDK ?e = adapter_sdk idle_bindings broken_rng demo_cfg" by simp
  have 2: "randRead broken_rng 16 3 = (Inl (ENew ''no entropy''), 3)" by (simp add: broken_rng_def)
  have 3: "eClock ?e (world demo_begun) = (2, 3)" by (simp add: demo_engine_def demo_begun_eq)
  from entropy_failure_never_signs [OF 1 2 3 demo_claimable, of "''code''" "''s1''"] show ?thesis by blast
qed

text \<open>
  Every signing call gets its own 16 bytes. With a random source that fills its buffer, the
  adapter behaves the same for two bindings that agree on 16-byte entropy: no call reaches the
  binding with less, with zeroes put in its place, or with none.
\<close>

theorem binding_gets_16_bytes:
  assumes fills: "rand_fills pl"
    and "\<And>w d c cf o' n e. length e = 16 \<Longrightarrow> b_BeginSigning b w d c cf o' n e = b_BeginSigning b' w d c cf o' n e"
    and "\<And>w h x s n e. length e = 16 \<Longrightarrow> b_ResumeRedirect b w h x s n e = b_ResumeRedirect b' w h x s n e"
    and "\<And>w h x s n e. length e = 16 \<Longrightarrow> b_ResumeRedirectError b w h x s n e = b_ResumeRedirectError b' w h x s n e"
    and "\<And>w h k c n e. length e = 16 \<Longrightarrow> b_ResumeHTTP b w h k c n e = b_ResumeHTTP b' w h k c n e"
  shows "adapter_Begin b pl cfg w doc conf opts = adapter_Begin b' pl cfg w doc conf opts
    \<and> adapter_ResumeRedirect b pl w handle code state = adapter_ResumeRedirect b' pl w handle code state
    \<and> adapter_ResumeRedirectError b pl w handle oauthError state = adapter_ResumeRedirectError b' pl w handle oauthError state
    \<and> adapter_ResumeHTTP b pl w handle status content = adapter_ResumeHTTP b' pl w handle status content"
  using assms(2-)
  by (auto simp: adapter_defs intro!: with_entropy_16 [OF fills] split: option.split)

definition steady_rng :: "int platform" where
  "steady_rng = \<lparr>randRead = (\<lambda>n w. (Inr (replicate n (chr 7)), w + 1)), unix_now = (\<lambda>w. (w, w))\<rparr>"

theorem binding_gets_16_bytes_witness:
  "adapter_ResumeRedirect (idle_bindings\<lparr>b_ResumeRedirect := (\<lambda>w h c s n e.
      if length e \<noteq> 16 then (Inl (ENew ''short entropy''), w)
      else b_ResumeRedirect idle_bindings w h c s n e)\<rparr>) steady_rng 0 None ''c'' ''s''
   = adapter_ResumeRedirect idle_bindings steady_rng 0 None ''c'' ''s''"
proof -
  have "rand_fills steady_rng" by (simp add: rand_fills_def steady_rng_def)
  from binding_gets_16_bytes [OF this, of "idle_bindings\<lparr>b_ResumeRedirect := (\<lambda>w h c s n e.
      if length e \<noteq> 16 then (Inl (ENew ''short entropy''), w)
      else b_ResumeRedirect idle_bindings w h c s n e)\<rparr>" idle_bindings]
  show ?thesis by simp
qed

text \<open>
  The binding never sees half a signer. A start with exactly one of match field and value fails
  before any entropy is drawn; otherwise the options passed on are absent or carry both parts.
\<close>

theorem expected_signer_all_or_nothing:
  "(if (ExpectedSignerMatchOn opt = []) \<noteq> (ExpectedSignerValue opt = [])
    then adapter_Begin b pl cfg w doc conf (Some opt)
         = (Inl (ENew ''expectedSigner requires both matchOn and value''), w)
    else adapter_Begin b pl cfg w doc conf (Some opt)
         = with_entropy pl (\<lambda>now ent w1. b_BeginSigning b w1 doc cfg conf
             (if ExpectedSignerMatchOn opt \<noteq> [] \<and> ExpectedSignerValue opt \<noteq> []
              then Some (ExpectedSignerMatchOn opt, ExpectedSignerValue opt) else None) now ent) w)"
  by (auto simp: adapter_Begin_def options_Validate_def toBindingOptions_def)

end
