(* ===== verification/Gateway_Server.thy ===== *)
theory Gateway_Server
  imports Service_Runs Upstream_Client Cleverbase_Adapter
begin

text \<open>
  The command cmd/server/main.go: how the parts are wired from the environment, the order of the
  start-up checks, the serve loop, and the exit code. The operating system is a record of functions
  over the world: the environment, the listener, the signal context, the server's Serve and Shutdown.
  The requests that reach the handler while Serve runs are a list, served in that order.
\<close>

section \<open>The host\<close>

definition requestBudget :: time where
  "requestBudget = 150 * 1000000000"

text \<open>How the select statement wakes: Serve returned an error (nil is None), or the context is done.\<close>

datatype wake = ServeReturned "go_error option" | ContextDone

record http_server =
  srvAddr :: string
  srvReadHeaderTimeout :: time
  srvReadTimeout :: time
  srvWriteTimeout :: time
  srvIdleTimeout :: time

text \<open>
  \<open>listenTCP\<close> gives the listener's address or an error; \<open>hClose\<close> closes the listener; \<open>hWake\<close> is
  the end of the select; \<open>hShutdown\<close> gets the server and its deadline; \<open>hServeResult\<close> is what
  Serve's channel delivers after a shutdown.
\<close>

record 'w host =
  hEnv :: environment
  hClock :: "'w \<Rightarrow> time \<times> 'w"
  listenTCP :: "string \<Rightarrow> 'w \<Rightarrow> (go_error + string) \<times> 'w"
  hCanceled :: "'w \<Rightarrow> bool \<times> 'w"
  hClose :: "'w \<Rightarrow> go_error option \<times> 'w"
  hRequests :: "request list"
  hWake :: "'w \<Rightarrow> wake \<times> 'w"
  shutdownHTTP :: "http_server \<Rightarrow> time \<Rightarrow> 'w \<Rightarrow> go_error option \<times> 'w"
  hServeResult :: "'w \<Rightarrow> go_error option \<times> 'w"

text \<open>\<open>fmt.Errorf("...: %w", err)\<close> where err may be nil.\<close>

definition wrap_nil :: "string \<Rightarrow> go_error option \<Rightarrow> go_error" where
  "wrap_nil m err = (case err of Some e \<Rightarrow> EWrap m e | None \<Rightarrow> ENew (m @ '': %!w(<nil>)''))"

definition is_closed :: "go_error option \<Rightarrow> bool" where
  "is_closed err = (case err of Some e \<Rightarrow> errors_Is e ErrServerClosed | None \<Rightarrow> False)"

section \<open>Wiring\<close>

text \<open>The parts that come with the process: the binding, the random source and clock, the network, the sample.\<close>

record 'w parts =
  ptBindings :: "'w bindings"
  ptPlatform :: "'w platform"
  ptNetwork :: "'w network"
  ptSample :: gobytes

definition upstream_bases :: "profile \<Rightarrow> string \<times> string" where
  "upstream_bases p = (if pMode p = ModeFixtures then (pUpstreamBaseURL p, pPublicUpstreamBaseURL p) else ([], []))"

definition build_engine :: "'w host \<Rightarrow> 'w parts \<Rightarrow> profile \<Rightarrow> 'w engine" where
  "build_engine h pt p =
     (case upstream_bases p of (internalRewrite, publicRewrite) \<Rightarrow>
        \<lparr>eSDK = adapter_sdk (ptBindings pt) (ptPlatform pt) (NewAdapter p),
         eUp = Do (NewClient (ptNetwork pt) internalRewrite), eTTL = pSessionTTL p,
         eRewrite = Some (Rewrite (NewClient (ptNetwork pt) publicRewrite)), eClock = hClock h\<rparr>)"

definition build_service :: "'w host \<Rightarrow> 'w parts \<Rightarrow> profile \<Rightarrow> 'w service" where
  "build_service h pt p =
     \<lparr>svEngine = build_engine h pt p, svProfile = p, svSample = ptSample pt, svHasLog = True,
      svRand = randRead (ptPlatform pt)\<rparr>"

definition build_server :: "profile \<Rightarrow> http_server" where
  "build_server p =
     \<lparr>srvAddr = pListen p, srvReadHeaderTimeout = 10 * 1000000000, srvReadTimeout = 15 * 1000000000,
      srvWriteTimeout = requestBudget, srvIdleTimeout = 120 * 1000000000\<rparr>"

section \<open>Running\<close>

definition log_to :: "log_level \<Rightarrow> string \<Rightarrow> (string \<times> log_value) list \<Rightarrow> 'w gstate \<Rightarrow> 'w gstate" where
  "log_to lvl msg attrs st = st\<lparr>logs := logs st @ [(lvl, msg, attrs)]\<rparr>"

definition startup_warnings :: "profile \<Rightarrow> 'w gstate \<Rightarrow> 'w gstate" where
  "startup_warnings p st =
     (let st1 = (if \<not> pAuthEnabled p
                 then log_to LWarn ''API authentication is disabled; /v1/sign/* and /v1/verify must be network-isolated''
                        [(''mode'', LStr (pMode p))] st
                 else st)
      in if pSDKUpstreamBaseURL p \<noteq> []
         then log_to LWarn ''Cleverbase upstream endpoint is overridden; production use is refused''
                [(''environment'', LStr (pEnvironment p))] st1
         else st1)"

text \<open>The requests that Serve hands to the handler, with their responses.\<close>

fun serve_requests :: "'w service \<Rightarrow> request list \<Rightarrow> 'w gstate \<Rightarrow> (response list \<times> 'w gstate) option" where
  "serve_requests s [] st = Some ([], st)"
| "serve_requests s (r # rs) st =
     (case ServeHTTP s r st of
        None \<Rightarrow> None
      | Some (resp, st1) \<Rightarrow>
          (case serve_requests s rs st1 of
             None \<Rightarrow> None
           | Some (resps, st2) \<Rightarrow> Some (resp # resps, st2)))"

text \<open>The end of \<open>run\<close>: the select, the shutdown, and Serve's last word.\<close>

definition await_end :: "'w host \<Rightarrow> http_server \<Rightarrow> 'w gstate \<Rightarrow> go_error option \<times> 'w gstate" where
  "await_end h srv st =
     (case hWake h (world st) of
        (ServeReturned err, w) \<Rightarrow>
          ((if is_closed err then None else Some (wrap_nil ''serve'' err)), st\<lparr>world := w\<rparr>)
      | (ContextDone, w) \<Rightarrow>
          (case shutdownHTTP h srv requestBudget w of
             (Some err, w1) \<Rightarrow> (Some (EWrap ''shutdown'' err), st\<lparr>world := w1\<rparr>)
           | (None, w1) \<Rightarrow>
               (case hServeResult h w1 of (err, w2) \<Rightarrow>
                  ((case err of
                      Some e \<Rightarrow> if errors_Is e ErrServerClosed then None
                                else Some (EWrap ''serve during shutdown'' e)
                    | None \<Rightarrow> None), st\<lparr>world := w2\<rparr>))))"

text \<open>\<open>run\<close>: the error it returns, the responses sent, and the state. None is a handler that does not return.\<close>

definition run_server ::
  "'w host \<Rightarrow> 'w parts \<Rightarrow> 'w \<Rightarrow> (go_error option \<times> response list \<times> 'w gstate) option" where
  "run_server h pt w =
     (let st = \<lparr>mem = NewMemory, logs = [], world = w\<rparr>
      in case Load (hEnv h) of
           Inl err \<Rightarrow> Some (Some (EWrap ''config'' err), [], st)
         | Inr p \<Rightarrow>
             (case adapter_Validate (ptBindings pt) (NewAdapter p) of
                Some err \<Rightarrow> Some (Some (EWrap ''SDK config'' err), [], st)
              | None \<Rightarrow>
                  (let st1 = startup_warnings p st;
                       srv = build_server p
                   in case listenTCP h (pListen p) (world st1) of
                        (Inl err, w1) \<Rightarrow> Some (Some (EWrap ''listen'' err), [], st1\<lparr>world := w1\<rparr>)
                      | (Inr addr, w1) \<Rightarrow>
                          (case hCanceled h w1 of
                             (True, w2) \<Rightarrow>
                               (case hClose h w2 of
                                  (Some err, w3) \<Rightarrow>
                                    Some (Some (EWrap ''close canceled listener'' err), [], st1\<lparr>world := w3\<rparr>)
                                | (None, w3) \<Rightarrow> Some (None, [], st1\<lparr>world := w3\<rparr>))
                           | (False, w2) \<Rightarrow>
                               (case serve_requests (build_service h pt p) (hRequests h)
                                       (log_to LInfo ''listening''
                                          [(''addr'', LStr addr), (''mode'', LStr (pMode p)),
                                           (''auth'', LBool (pAuthEnabled p))] (st1\<lparr>world := w2\<rparr>)) of
                                  None \<Rightarrow> None
                                | Some (resps, st2) \<Rightarrow>
                                    (case await_end h srv st2 of (err, st3) \<Rightarrow> Some (err, resps, st3)))))))"

text \<open>\<open>runMain\<close>: the exit code.\<close>

definition runMain :: "'w host \<Rightarrow> 'w parts \<Rightarrow> 'w \<Rightarrow> (int \<times> response list \<times> 'w gstate) option" where
  "runMain h pt w =
     (case run_server h pt w of
        None \<Rightarrow> None
      | Some (Some err, resps, st) \<Rightarrow>
          Some (1, resps, log_to LError ''gateway stopped'' [(''err'', LStr (error_text err))] st)
      | Some (None, resps, st) \<Rightarrow> Some (0, resps, log_to LInfo ''stopped'' [] st))"

section \<open>Facts\<close>

lemma log_to_simps [simp]: "mem (log_to l m a st) = mem st" "world (log_to l m a st) = world st"
  by (simp_all add: log_to_def)

lemma startup_warnings_simps [simp]:
  "mem (startup_warnings p st) = mem st" "world (startup_warnings p st) = world st"
  by (simp_all add: startup_warnings_def Let_def)

lemma build_service_simps [simp]:
  "svProfile (build_service h pt p) = p" "svEngine (build_service h pt p) = build_engine h pt p"
  by (simp_all add: build_service_def)

lemma build_engine_simps [simp]:
  "eTTL (build_engine h pt p) = pSessionTTL p" "eClock (build_engine h pt p) = hClock h"
  "eSDK (build_engine h pt p) = adapter_sdk (ptBindings pt) (ptPlatform pt) (NewAdapter p)"
  by (simp_all add: build_engine_def upstream_bases_def)

lemma serve_requests_steps:
  assumes "serve_requests s rs st = Some (resps, st')"
  shows "length resps = length rs" "(serves s)\<^sup>*\<^sup>* st st'"
proof -
  have "length resps = length rs \<and> (serves s)\<^sup>*\<^sup>* st st'"
    using assms
  proof (induction rs arbitrary: st resps)
    case Nil
    then show ?case by simp
  next
    case (Cons r rs)
    then obtain resp st1 resps1 where one: "ServeHTTP s r st = Some (resp, st1)"
      and rest: "serve_requests s rs st1 = Some (resps1, st')" and resps: "resps = resp # resps1"
      by (auto split: option.splits)
    from Cons.IH [OF rest] resps converse_rtranclp_into_rtranclp [of "serves s", OF serve [OF one]] show ?case
      by simp
  qed
  then show "length resps = length rs" "(serves s)\<^sup>*\<^sup>* st st'" by simp_all
qed

lemma serve_requests_nth:
  assumes "serve_requests s rs st = Some (resps, st')" "i < length rs"
  shows "\<exists>sti sti'. ServeHTTP s (rs ! i) sti = Some (resps ! i, sti')"
  using assms
proof (induction rs arbitrary: st resps i)
  case Nil
  then show ?case by simp
next
  case (Cons r rs)
  then obtain resp st1 resps1 where one: "ServeHTTP s r st = Some (resp, st1)"
    and rest: "serve_requests s rs st1 = Some (resps1, st')" and resps: "resps = resp # resps1"
    by (auto split: option.splits)
  show ?case
  proof (cases i)
    case 0
    with one resps show ?thesis by auto
  next
    case (Suc j)
    with Cons.IH [OF rest, of j] Cons.prems(2) resps show ?thesis by simp
  qed
qed

text \<open>A run that got as far as serving.\<close>

definition serving :: "'w host \<Rightarrow> 'w parts \<Rightarrow> 'w \<Rightarrow> profile \<Rightarrow> 'w gstate \<Rightarrow> bool" where
  "serving h pt w p st \<longleftrightarrow>
     Load (hEnv h) = Inr p \<and> adapter_Validate (ptBindings pt) (NewAdapter p) = None
     \<and> (\<exists>addr w1 w2. listenTCP h (pListen p) w = (Inr addr, w1) \<and> hCanceled h w1 = (False, w2)
          \<and> mem st = NewMemory \<and> world st = w2
          \<and> logs st = logs (startup_warnings p \<lparr>mem = NewMemory, logs = [], world = w\<rparr>)
              @ [(LInfo, ''listening'', [(''addr'', LStr addr), (''mode'', LStr (pMode p)),
                  (''auth'', LBool (pAuthEnabled p))])])"

text \<open>\<open>run\<close> by cases: it stops before serving, without a response and with an empty store, or it serves.\<close>

lemma run_server_cases:
  assumes "run_server h pt w = Some (err, resps, st')"
  obtains (stopped) "resps = []" "mem st' = NewMemory"
      "case Load (hEnv h) of Inl e \<Rightarrow> err = Some (EWrap ''config'' e)
       | Inr p \<Rightarrow> (case adapter_Validate (ptBindings pt) (NewAdapter p) of
           Some e \<Rightarrow> err = Some (EWrap ''SDK config'' e)
         | None \<Rightarrow> (case listenTCP h (pListen p) w of
             (Inl e, w1) \<Rightarrow> err = Some (EWrap ''listen'' e)
           | (Inr addr, w1) \<Rightarrow> fst (hCanceled h w1)
               \<and> err = map_option (EWrap ''close canceled listener'') (fst (hClose h (snd (hCanceled h w1))))))"
  | (served) p st st1 where "serving h pt w p st"
      "serve_requests (build_service h pt p) (hRequests h) st = Some (resps, st1)"
      "await_end h (build_server p) st1 = (err, st')"
proof (cases "Load (hEnv h)")
  case (Inl e)
  with assms show thesis by (auto simp: run_server_def intro!: that(1))
next
  case (Inr p)
  note l = Inr
  show thesis
  proof (cases "adapter_Validate (ptBindings pt) (NewAdapter p)")
    case (Some e)
    with assms l show thesis by (auto simp: run_server_def intro!: that(1))
  next
    case None
    obtain a w1 where a: "listenTCP h (pListen p) w = (a, w1)" by (cases "listenTCP h (pListen p) w")
    show thesis
    proof (cases a)
      case (Inl e)
      with assms l None a show thesis by (auto simp: run_server_def Let_def intro!: that(1))
    next
      case (Inr addr)
      obtain c w2 where c: "hCanceled h w1 = (c, w2)" by (cases "hCanceled h w1")
      show thesis
      proof (cases c)
        case True
        obtain ce w3 where "hClose h w2 = (ce, w3)" by (cases "hClose h w2")
        with assms l None a Inr c True show thesis
          by (cases ce) (auto simp: run_server_def Let_def intro!: that(1))
      next
        case False
        let ?st = "log_to LInfo ''listening'' [(''addr'', LStr addr), (''mode'', LStr (pMode p)),
            (''auth'', LBool (pAuthEnabled p))]
          ((startup_warnings p \<lparr>mem = NewMemory, logs = [], world = w\<rparr>)\<lparr>world := w2\<rparr>)"
        obtain st1 where s: "serve_requests (build_service h pt p) (hRequests h) ?st = Some (resps, st1)"
          "await_end h (build_server p) st1 = (err, st')"
          using assms l None a Inr c False by (auto simp: run_server_def Let_def split: option.splits prod.splits)
        have "serving h pt w p ?st" using l None a Inr c False by (simp add: serving_def log_to_def)
        from that(2) [OF this s] show thesis .
      qed
    qed
  qed
qed

lemma await_end_mem: "await_end h srv st = (err, st') \<Longrightarrow> mem st' = mem st"
  by (auto simp: await_end_def split: wake.splits prod.splits option.splits)

lemma refused_without_key:
  assumes "pAuthEnabled (svProfile s)" "\<not> key_ok (svProfile s) r" "\<not> open_request (svProfile s) r"
  shows "ServeHTTP s r st = Some (writeErr (base_header r) 401 ''unauthorized'' ''missing or invalid API key'', st)"
  using assms by (simp add: ServeHTTP_def authMiddleware_def)

lemma with_entropy_Inr:
  assumes "with_entropy pl call w = (Inr res, w')"
  obtains now ent w1 ses where "call now ent w1 = (Inr ses, w')" "res = toResult ses"
  using assms by (auto simp: with_entropy_def split: prod.splits sum.splits)

text \<open>The documented bound on the binding's effects, as the engine's loop needs it.\<close>

definition binding_finite :: "'w bindings \<Rightarrow> (gobytes \<Rightarrow> nat) \<Rightarrow> bool" where
  "binding_finite b rank \<longleftrightarrow>
     (\<forall>w h n body now ent ses w'. b_ResumeHTTP b w h n body now ent = (Inr ses, w') \<longrightarrow> rank (bsHandle ses) < rank h)"

lemma adapter_finite:
  assumes "binding_finite b rank"
  shows "finite_effects (adapter_sdk b pl cfg) rank"
  unfolding finite_effects_def
proof (intro allI impI)
  fix w h n body res w'
  assume "sdk_ResumeHTTP (adapter_sdk b pl cfg) w h n body = (Inr res, w')"
  then obtain now ent w1 ses where "b_ResumeHTTP b w1 h n body now ent = (Inr ses, w')" "res = toResult ses"
    by (auto simp: adapter_ResumeHTTP_def elim!: with_entropy_Inr)
  then show "rank (rHandle res) < rank h"
    using assms unfolding binding_finite_def by (simp add: toResult_def) blast
qed

lemma serve_requests_answers:
  assumes "finite_effects (eSDK (svEngine s)) rank"
  shows "\<exists>resps st'. serve_requests s rs st = Some (resps, st')"
proof (induction rs arbitrary: st)
  case Nil
  then show ?case by simp
next
  case (Cons r rs)
  obtain resp st1 where "ServeHTTP s r st = Some (resp, st1)" using ServeHTTP_answers [OF assms] by blast
  moreover obtain resps st2 where "serve_requests s rs st1 = Some (resps, st2)" using Cons.IH by blast
  ultimately show ?case by simp
qed

section \<open>A gateway to apply the theorems to\<close>

text \<open>A production gateway that needs a key and gets one request, then a signal.\<close>

definition keyed_env :: environment where
  "keyed_env = map_str
     [(''TRUST_GATEWAY_MODE'', ''live''), (''TRUST_GATEWAY_ENV'', ''production''),
      (''TRUST_GATEWAY_CLIENT_ID'', ''id''), (''TRUST_GATEWAY_CLIENT_SECRET'', ''secret''),
      (''TRUST_GATEWAY_REDIRECT_URI'', ''https://gw.test/oauth/cleverbase/callback''),
      (''TRUST_GATEWAY_RETURN_URL'', ''https://app.test/done''),
      (''TRUST_GATEWAY_TSA_URL'', ''https://tsa.test''), (''TRUST_GATEWAY_API_KEY'', ''key'')]"

definition demo_bad_request :: request where
  "demo_bad_request = demo_request ''POST'' ''/v1/sign/start'' [] [(''Authorization'', ''Bearer guess'')] ''{}''"

definition demo_host :: "environment \<Rightarrow> int host" where
  "demo_host e =
     \<lparr>hEnv = e, hClock = (\<lambda>w. (w, w + 1)), listenTCP = (\<lambda>a w. (Inr ''[::]:8080'', w)),
      hCanceled = (\<lambda>w. (False, w)), hClose = (\<lambda>w. (None, w)), hRequests = [demo_bad_request],
      hWake = (\<lambda>w. (ContextDone, w)), shutdownHTTP = (\<lambda>s d w. (None, w)),
      hServeResult = (\<lambda>w. (Some (ESentinel ErrServerClosed), w))\<rparr>"

definition demo_parts :: "int parts" where
  "demo_parts = \<lparr>ptBindings = idle_bindings, ptPlatform = broken_rng, ptNetwork = demo_net, ptSample = Some ''%PDF''\<rparr>"

lemma keyed_loads: obtains p where "Load keyed_env = Inr p" "pMode p = ''live''"
proof -
  have "case Load keyed_env of Inl _ \<Rightarrow> False | Inr p \<Rightarrow> pMode p = ''live''" by code_simp
  then show thesis using that by (cases "Load keyed_env") auto
qed

section \<open>Properties\<close>

text \<open>
  C35: a gateway that is not configured does not serve. If the environment is rejected by \<open>Load\<close> or
  the SDK rejects the configuration, the process exits with 1 after one error line; it opens no
  listener, handles no request and does not touch the world.
\<close>

theorem misconfigured_never_serves:
  assumes "(\<exists>e. Load (hEnv h) = Inl e \<and> err = EWrap ''config'' e)
    \<or> (\<exists>p e. Load (hEnv h) = Inr p \<and> adapter_Validate (ptBindings pt) (NewAdapter p) = Some e
            \<and> err = EWrap ''SDK config'' e)"
  shows "runMain h pt w = Some (1, [],
    \<lparr>mem = NewMemory, logs = [(LError, ''gateway stopped'', [(''err'', LStr (error_text err))])], world = w\<rparr>)"
  using assms by (auto simp: runMain_def run_server_def log_to_def)

theorem misconfigured_never_serves_witness:
  "\<exists>e. runMain (demo_host (\<lambda>_. [])) demo_parts 0 = Some (1, [],
     \<lparr>mem = NewMemory, logs = [(LError, ''gateway stopped'', [(''err'', LStr (error_text (EWrap ''config'' e)))])],
      world = 0\<rparr>)"
proof -
  have "case Load (\<lambda>_. []) of Inl e \<Rightarrow> True | Inr _ \<Rightarrow> False" by code_simp
  then obtain e where "Load (hEnv (demo_host (\<lambda>_. []))) = Inl e"
    by (cases "Load (\<lambda>_. [])") (auto simp: demo_host_def)
  with misconfigured_never_serves [of "demo_host (\<lambda>_. [])" "EWrap ''config'' e" demo_parts 0] show ?thesis by blast
qed

text \<open>
  C36: how the process ends. A gateway that served exits with 0 exactly if Serve ended with
  \<open>ErrServerClosed\<close>, or the signal arrived, Shutdown (given the same 150 seconds as the write
  timeout) succeeded, and Serve's last result was nil or \<open>ErrServerClosed\<close>; otherwise with 1. All
  requests were answered, in order, and the store is the one they left.
\<close>

theorem exit_code_of_a_serving_gateway:
  assumes up: "serving h pt w p st"
    and reqs: "serve_requests (build_service h pt p) (hRequests h) st = Some (resps, st1)"
  shows "\<exists>code st'. runMain h pt w = Some (code, resps, st') \<and> mem st' = mem st1
    \<and> length resps = length (hRequests h) \<and> srvWriteTimeout (build_server p) = 150000000000
    \<and> code = (case hWake h (world st1) of
         (ServeReturned err, _) \<Rightarrow> if is_closed err then 0 else 1
       | (ContextDone, w1) \<Rightarrow>
           (case shutdownHTTP h (build_server p) 150000000000 w1 of
              (Some _, _) \<Rightarrow> 1
            | (None, w2) \<Rightarrow> if fst (hServeResult h w2) = None \<or> is_closed (fst (hServeResult h w2)) then 0 else 1))"
proof -
  obtain err st2 where e: "await_end h (build_server p) st1 = (err, st2)"
    by (cases "await_end h (build_server p) st1")
  obtain addr w1 w2 where l: "listenTCP h (pListen p) w = (Inr addr, w1)" "hCanceled h w1 = (False, w2)"
    "Load (hEnv h) = Inr p" "adapter_Validate (ptBindings pt) (NewAdapter p) = None" "mem st = NewMemory" "world st = w2"
    "logs st = logs (startup_warnings p \<lparr>mem = NewMemory, logs = [], world = w\<rparr>)
      @ [(LInfo, ''listening'', [(''addr'', LStr addr), (''mode'', LStr (pMode p)), (''auth'', LBool (pAuthEnabled p))])]"
    using up unfolding serving_def by blast
  have st: "log_to LInfo ''listening'' [(''addr'', LStr addr), (''mode'', LStr (pMode p)),
      (''auth'', LBool (pAuthEnabled p))] ((startup_warnings p \<lparr>mem = NewMemory, logs = [], world = w\<rparr>)\<lparr>world := w2\<rparr>) = st"
    using l by (cases st) (simp add: log_to_def)
  have run: "run_server h pt w = Some (err, resps, st2)"
    using l reqs e by (simp add: run_server_def Let_def st)
  have code: "(case err of None \<Rightarrow> (0::int) | Some _ \<Rightarrow> 1) = (case hWake h (world st1) of
         (ServeReturned err, _) \<Rightarrow> if is_closed err then 0 else 1
       | (ContextDone, w1) \<Rightarrow>
           (case shutdownHTTP h (build_server p) 150000000000 w1 of
              (Some _, _) \<Rightarrow> 1
            | (None, w2) \<Rightarrow> if fst (hServeResult h w2) = None \<or> is_closed (fst (hServeResult h w2)) then 0 else 1))"
    using e by (auto simp: await_end_def requestBudget_def is_closed_def split: prod.splits wake.splits option.splits if_splits)
  have main: "runMain h pt w = Some (case err of None \<Rightarrow> 0 | Some _ \<Rightarrow> 1, resps,
      case err of None \<Rightarrow> log_to LInfo ''stopped'' [] st2
      | Some e \<Rightarrow> log_to LError ''gateway stopped'' [(''err'', LStr (error_text e))] st2)"
    by (simp add: runMain_def run split: option.split)
  show ?thesis
    unfolding code [symmetric]
    by (rule exI, rule exI, intro conjI, rule main)
      (use await_end_mem [OF e] serve_requests_steps(1) [OF reqs] in
        \<open>auto simp: build_server_def requestBudget_def split: option.splits\<close>)
qed

text \<open>The demonstration gateway serves its request, and then stops cleanly.\<close>

lemma demo_serving:
  obtains p st where "Load keyed_env = Inr p" "serving (demo_host keyed_env) demo_parts 0 p st"
proof -
  obtain p where p: "Load keyed_env = Inr p" by (rule keyed_loads)
  let ?st = "log_to LInfo ''listening'' [(''addr'', LStr ''[::]:8080''), (''mode'', LStr (pMode p)),
      (''auth'', LBool (pAuthEnabled p))] (startup_warnings p \<lparr>mem = NewMemory, logs = [], world = 0\<rparr>)"
  have "serving (demo_host keyed_env) demo_parts 0 p ?st"
    using p by (simp add: serving_def demo_host_def demo_parts_def idle_bindings_def adapter_Validate_def log_to_def)
  with p that show thesis by blast
qed

lemma demo_refused:
  assumes p: "Load keyed_env = Inr p"
  shows "ServeHTTP (build_service h pt p) demo_bad_request st
    = Some (writeErr (base_header demo_bad_request) 401 ''unauthorized'' ''missing or invalid API key'', st)"
proof (rule refused_without_key)
  have "pAPIKey p = ''key''" using Load_auth(1) [OF p] by (simp add: keyed_env_def map_str_def envAPIKey_def)
  then show "pAuthEnabled (svProfile (build_service h pt p))"
    "\<not> key_ok (svProfile (build_service h pt p)) demo_bad_request"
    using Load_auth(2) [OF p]
    by (simp_all add: key_ok_iff demo_bad_request_def demo_request_def Header_Get_def map_str_def)
  show "\<not> open_request (svProfile (build_service h pt p)) demo_bad_request"
    using \<open>pAPIKey p = ''key''\<close> Load_auth(2) [OF p]
    by (simp add: open_request_def demo_bad_request_def demo_request_def OAuthCallbackPath_def Let_def)
qed

theorem exit_code_of_a_serving_gateway_witness:
  "\<exists>resps st'. runMain (demo_host keyed_env) demo_parts 0 = Some (0, resps, st') \<and> length resps = 1"
proof -
  obtain p st where p: "Load keyed_env = Inr p" and up: "serving (demo_host keyed_env) demo_parts 0 p st"
    by (rule demo_serving)
  have "serve_requests (build_service (demo_host keyed_env) demo_parts p) (hRequests (demo_host keyed_env)) st
      = Some ([writeErr (base_header demo_bad_request) 401 ''unauthorized'' ''missing or invalid API key''], st)"
    by (simp add: demo_host_def demo_refused [OF p])
  from exit_code_of_a_serving_gateway [OF up this] show ?thesis
    by (auto simp: demo_host_def is_closed_def)
qed

text \<open>
  C9: from the environment to the 401. If the operator did not set the opt-out, then in any run of
  the process every request it answered for a private path (neither a health path nor a GET or HEAD
  of the callback path) without the configured key got exactly the 401 answer.
\<close>

theorem gateway_requires_key:
  assumes run: "runMain h pt w = Some (code, resps, st')"
    and opt: "\<not> strings_EqualFold (hEnv h ''TRUST_GATEWAY_AUTH_DISABLED'') ''true''"
    and i: "i < length resps" and r: "r = hRequests h ! i"
    and key: "Header_Get (rHeader r) ''Authorization'' \<noteq> ''Bearer '' @ hEnv h ''TRUST_GATEWAY_API_KEY''"
    and path: "Path (rURL r) \<notin> {''/healthz'', ''/readyz''}"
      "Path (rURL r) = ''/oauth/cleverbase/callback'' \<Longrightarrow> rMethod r \<notin> {''GET'', ''HEAD''}"
  shows "hEnv h ''TRUST_GATEWAY_API_KEY'' \<noteq> []
    \<and> resps ! i = writeErr (base_header r) 401 ''unauthorized'' ''missing or invalid API key''"
proof -
  obtain err st2 where rs: "run_server h pt w = Some (err, resps, st2)"
    using run by (auto simp: runMain_def split: option.splits)
  then show ?thesis
  proof (cases rule: run_server_cases)
    case stopped
    with i show ?thesis by simp
  next
    case (served p st st1)
    have p: "Load (hEnv h) = Inr p" using served(1) by (simp add: serving_def)
    note a = Load_auth [OF p]
    have k: "pAPIKey p \<noteq> []" "pAuthEnabled p" using a opt by (auto simp: envAuthDisabled_def)
    have "i < length (hRequests h)" using i serve_requests_steps(1) [OF served(2)] by simp
    from serve_requests_nth [OF served(2) this] obtain sti sti' where
      one: "ServeHTTP (build_service h pt p) r sti = Some (resps ! i, sti')" using r by blast
    have "\<not> key_ok p r" using key a(1) by (simp add: key_ok_iff envAPIKey_def)
    moreover have "\<not> open_request p r"
      using path k by (auto simp: open_request_def OAuthCallbackPath_def Let_def)
    ultimately have "resps ! i = writeErr (base_header r) 401 ''unauthorized'' ''missing or invalid API key''"
      using one refused_without_key [of "build_service h pt p" r sti] k by simp
    with k a(1) show ?thesis by (simp add: envAPIKey_def)
  qed
qed

theorem gateway_requires_key_witness:
  "\<exists>code resps st'. runMain (demo_host keyed_env) demo_parts 0 = Some (code, resps, st')
     \<and> map rsCode resps = [401]"
proof -
  obtain p st where p: "Load keyed_env = Inr p" and up: "serving (demo_host keyed_env) demo_parts 0 p st"
    by (rule demo_serving)
  have s: "serve_requests (build_service (demo_host keyed_env) demo_parts p) [demo_bad_request] st
      = Some ([writeErr (base_header demo_bad_request) 401 ''unauthorized'' ''missing or invalid API key''], st)" for st
    by (simp add: demo_refused [OF p])
  obtain code resps st' where run: "runMain (demo_host keyed_env) demo_parts 0 = Some (code, resps, st')"
    and one: "length resps = 1"
    using p s by (simp add: runMain_def run_server_def demo_host_def demo_parts_def idle_bindings_def adapter_Validate_def
        Let_def await_end_def)
  let ?k = "hEnv (demo_host keyed_env) ''TRUST_GATEWAY_AUTH_DISABLED''"
  have "\<not> strings_EqualFold ?k ''true''" unfolding demo_host_def keyed_env_def by code_simp
  moreover have "Header_Get (rHeader demo_bad_request) ''Authorization''
      \<noteq> ''Bearer '' @ hEnv (demo_host keyed_env) ''TRUST_GATEWAY_API_KEY''"
    by (simp add: demo_bad_request_def demo_request_def Header_Get_def map_str_def demo_host_def keyed_env_def)
  ultimately have "resps ! 0 = writeErr (base_header demo_bad_request) 401 ''unauthorized'' ''missing or invalid API key''"
    using gateway_requires_key [OF run, of 0 demo_bad_request] one
    by (simp add: demo_host_def) (simp add: demo_bad_request_def demo_request_def)
  with run one show ?thesis by (auto simp: length_Suc_conv)
qed

text \<open>
  No environment variable can redirect a live gateway. For two environments that both load as
  live profiles with the same SDK configuration, the effects are performed by the same function, the
  redirects are handed to the browser as the SDK made them, and no rewriting takes place.
\<close>

theorem live_gateway_never_rewrites:
  assumes "Load e1 = Inr p1" "pMode p1 = ''live''" and "Load e2 = Inr p2" "pMode p2 = ''live''"
  shows "eUp (build_engine h pt p1) = eUp (build_engine h pt p2)
    \<and> (\<forall>u. rewriteRedirect (build_engine h pt p1) u = u)
    \<and> (\<forall>w m raw hs b. eUp (build_engine h pt p1) w m raw hs b
          = Do (NewClient (ptNetwork pt) []) w m raw hs b)"
  using assms
  by (simp add: build_engine_def upstream_bases_def ModeFixtures_def rewriteRedirect_def Rewrite_def NewClient_def)

theorem live_gateway_never_rewrites_witness:
  "\<exists>p. Load keyed_env = Inr p
     \<and> rewriteRedirect (build_engine (demo_host keyed_env) demo_parts p) ''https://idp.test/a?b'' = ''https://idp.test/a?b''"
proof -
  obtain p where p: "Load keyed_env = Inr p" "pMode p = ''live''" by (rule keyed_loads)
  with live_gateway_never_rewrites [OF p p] show ?thesis by blast
qed

text \<open>
  C24: the process ends. If the binding brings each resumed effect to a handle of smaller rank, every
  run of the process over any list of requests ends with an exit code.
\<close>

theorem gateway_terminates:
  assumes "binding_finite (ptBindings pt) rank"
  shows "\<exists>code resps st'. runMain h pt w = Some (code, resps, st') \<and> code \<in> {0, 1}"
proof -
  have "\<exists>resps st'. serve_requests (build_service h pt p) rs st = Some (resps, st')" for p rs st
    by (rule serve_requests_answers [where rank = rank]) (simp add: adapter_finite [OF assms])
  then have "serve_requests (build_service h pt p) rs st \<noteq> None" for p rs st by force
  then have "run_server h pt w \<noteq> None"
    by (auto simp del: not_None_eq simp: run_server_def Let_def
        split: sum.splits option.splits prod.splits bool.splits)
  then obtain err resps st where "run_server h pt w = Some (err, resps, st)" by auto
  then show ?thesis by (cases err) (simp_all add: runMain_def)
qed

definition countdown_bindings :: "int bindings" where
  "countdown_bindings = idle_bindings\<lparr>b_ResumeHTTP := (\<lambda>w h n body now ent.
     case bytes_of h of
       [] \<Rightarrow> (Inl (ENew ''no effect pending''), w)
     | c # cs \<Rightarrow> (Inr \<lparr>bsHandle = Some cs, bsStep = (if cs = [] then demo_done else demo_http)\<rparr>, w + 1))\<rparr>"

theorem gateway_terminates_witness:
  "\<exists>code resps st'. runMain (demo_host keyed_env) (demo_parts\<lparr>ptBindings := countdown_bindings\<rparr>) 0
     = Some (code, resps, st')"
proof -
  have "binding_finite (ptBindings (demo_parts\<lparr>ptBindings := countdown_bindings\<rparr>)) blen"
    by (auto simp: binding_finite_def countdown_bindings_def blen_def split: list.splits)
  from gateway_terminates [OF this] show ?thesis by blast
qed

end
