(* ===== verification/Interleaving.thy ===== *)
theory Interleaving
  imports Service_Runs
begin

text \<open>
  Completions that run at the same time. In the other theories \<open>Complete\<close> is one function; here it
  is a thread that takes one step per lock acquisition or external call, in the order of flow.go, and
  the steps of several threads, of lookups and of new sessions interleave over one store. A thread
  running alone is the function of Flow_Engine (both directions); in every interleaving at most one
  thread holds the claim on a session.
\<close>

section \<open>Threads\<close>

text \<open>
  The writes at the end of a run of \<open>drive\<close>: calls of \<open>Update\<close>, \<open>SetState\<close> and \<open>Finalize\<close>, each
  of which takes the lock, and log lines.
\<close>

datatype op =
    OUpdate "session \<Rightarrow> session"
  | OSetState string
  | OFinalize
  | OLog "memory \<Rightarrow> log_entry"

text \<open>
  The program counter: before the claim; before the SDK's resume; at the head of the loop; at its
  switch; before the upstream call; before the SDK gets the answer; writing; returned.
\<close>

datatype pc =
    PClaim
  | PResume gobytes
  | PLoop sdk_result
  | PSwitch sdk_result
  | PEffect sdk_result http_effect
  | PAnswer sdk_result int gobytes
  | PWrite "op list" drive_result
  | PDone drive_result

type_synonym 'w resume = "'w \<Rightarrow> gobytes \<Rightarrow> (go_error + sdk_result) \<times> 'w"

fun apply_op :: "addr \<Rightarrow> op \<Rightarrow> 'w gstate \<Rightarrow> 'w gstate" where
  "apply_op a (OUpdate f) st = st\<lparr>mem := Update a f (mem st)\<rparr>"
| "apply_op a (OSetState state) st = st\<lparr>mem := SetState a state (mem st)\<rparr>"
| "apply_op a OFinalize st = st\<lparr>mem := Finalize a (mem st)\<rparr>"
| "apply_op a (OLog l) st = st\<lparr>logs := logs st @ [l (mem st)]\<rparr>"

definition fail_ops :: "status \<Rightarrow> string \<Rightarrow> gobytes \<Rightarrow> op list" where
  "fail_ops status reason evidence = [OUpdate (fail_session status reason evidence), OFinalize]"

definition log_corr :: "log_level \<Rightarrow> string \<Rightarrow> addr \<Rightarrow> op" where
  "log_corr lvl msg a = OLog (\<lambda>m. (lvl, msg, [(''correlation_id'', LStr (CorrelationID (heap m a)))]))"

text \<open>The switch of the loop.\<close>

definition redirect_pc :: "'w engine \<Rightarrow> addr \<Rightarrow> sdk_result \<Rightarrow> pc" where
  "redirect_pc e a res =
     (case stepRedirect (rStep res) of
        Inl perr \<Rightarrow> PWrite (fail_ops StatusFailed reasonResumeError None)
          ([], [], [], Some (EWrap ''malformed redirect step'' perr))
      | Inr (u, state) \<Rightarrow>
          PWrite [OSetState state, OUpdate (\<lambda>s. s\<lparr>Status := StatusAuthorizing\<rparr>), log_corr LInfo ''transition.redirect'' a]
            (StatusAuthorizing, rewriteRedirect e u, [], None))"

definition done_pc :: "addr \<Rightarrow> sdk_result \<Rightarrow> pc" where
  "done_pc a res =
     (case stepDone (rStep res) of
        Inl perr \<Rightarrow> PWrite (fail_ops StatusFailed reasonResumeError None @ [log_corr LError ''transition.done_invalid'' a])
          (StatusFailed, [], reasonResumeError, Some (EWrap ''malformed done step'' perr))
      | Inr (pdf, evidence) \<Rightarrow>
          PWrite [OUpdate (\<lambda>s. s\<lparr>Status := StatusCompleted, ResultPDF := pdf, Evidence := evidence\<rparr>), OFinalize,
                  OLog (\<lambda>_. (LInfo, ''transition.done'', [(''pdf_bytes'', LNum (int (blen pdf)))]))]
            (StatusCompleted, [], [], None))"

definition failed_pc :: "addr \<Rightarrow> sdk_result \<Rightarrow> pc" where
  "failed_pc a res =
     (case mapFailed (rStep res) of (failStatus, failReason) \<Rightarrow>
        (case stepEvidence (rStep res) of
           Inl evidenceErr \<Rightarrow>
             PWrite (fail_ops StatusFailed reasonResumeError None @ [log_corr LError ''transition.failed_invalid'' a])
               (StatusFailed, [], reasonResumeError, Some (EWrap ''malformed failed step'' evidenceErr))
         | Inr evidence \<Rightarrow>
             PWrite (fail_ops failStatus failReason evidence
                     @ [OLog (\<lambda>_. (LInfo, ''transition.failed'', [(''reason'', LStr failReason)]))])
               (failStatus, [], failReason, None)))"

definition switch_pc :: "'w engine \<Rightarrow> addr \<Rightarrow> sdk_result \<Rightarrow> 'w gstate \<Rightarrow> pc \<times> 'w gstate" where
  "switch_pc e a res st =
     (let kind = stepKind (rStep res)
      in if kind = stepKindPerformHTTP
         then (case stepHTTP (rStep res) of
                 Inl perr \<Rightarrow> (PWrite (fail_ops StatusFailed reasonResumeError None)
                   ([], [], [], Some (EWrap ''malformed perform_http step'' perr)), st)
               | Inr ef \<Rightarrow> (PEffect res ef,
                   log_info ''effect.perform_http'' [(''method'', LStr (effectMethod ef)), (''url'', LStr (redact (rawURL ef)))] st))
         else if kind = stepKindRedirect then (redirect_pc e a res, st)
         else if kind = stepKindDone then (done_pc a res, st)
         else if kind = stepKindFailed then (failed_pc a res, st)
         else (PWrite (fail_ops StatusFailed reasonResumeError None)
                 ([], [], [], Some (ENew (''unexpected step kind '' @ strconv_Quote kind))), st))"

text \<open>One step of a thread on the session \<open>a\<close>. A thread that has returned does not move.\<close>

fun thread_step :: "'w resume \<Rightarrow> 'w engine \<Rightarrow> addr \<Rightarrow> pc \<Rightarrow> 'w gstate \<Rightarrow> pc \<times> 'w gstate" where
  "thread_step resume e a PClaim st =
     (case consume e a st of
        (Inl err, st1) \<Rightarrow> (PDone ([], [], [], Some err), st1)
      | (Inr handle, st1) \<Rightarrow> (PResume handle, st1))"
| "thread_step resume e a (PResume handle) st =
     (case resume (world st) handle of
        (Inl err, w) \<Rightarrow> (PWrite (fail_ops StatusFailed reasonResumeError None) ([], [], [], Some err), st\<lparr>world := w\<rparr>)
      | (Inr res, w) \<Rightarrow> (PLoop res, st\<lparr>world := w\<rparr>))"
| "thread_step resume e a (PLoop res) st =
     (PSwitch res, st\<lparr>mem := Update a (\<lambda>s. s\<lparr>Handle := rHandle res\<rparr>) (mem st)\<rparr>)"
| "thread_step resume e a (PSwitch res) st = switch_pc e a res st"
| "thread_step resume e a (PEffect res ef) st =
     (case eUp e (world st) (effectMethod ef) (rawURL ef) (headers ef) (body ef) of
        (Inl doErr, w) \<Rightarrow>
          (PWrite (fail_ops StatusFailed reasonUpstreamError None
                   @ [OLog (\<lambda>_. (LError, ''effect.http_error'',
                        [(''url'', LStr (redact (rawURL ef))), (''err'', LStr (error_text doErr))]))])
             (StatusFailed, [], reasonUpstreamError, None), st\<lparr>world := w\<rparr>)
      | (Inr (httpStatus, respBody), w) \<Rightarrow>
          (PAnswer res httpStatus respBody,
           log_info ''effect.http_result'' [(''status'', LNum httpStatus)] (st\<lparr>world := w\<rparr>)))"
| "thread_step resume e a (PAnswer res httpStatus respBody) st =
     (case sdk_ResumeHTTP (eSDK e) (world st) (rHandle res) httpStatus respBody of
        (Inl resumeErr, w) \<Rightarrow>
          (PWrite (fail_ops StatusFailed reasonResumeError None)
             ([], [], [], Some (EWrap ''resume http'' resumeErr)), st\<lparr>world := w\<rparr>)
      | (Inr next, w) \<Rightarrow> (PLoop next, st\<lparr>world := w\<rparr>))"
| "thread_step resume e a (PWrite [] r) st = (PDone r, st)"
| "thread_step resume e a (PWrite (op # ops) r) st = (PWrite ops r, apply_op a op st)"
| "thread_step resume e a (PDone r) st = (PDone r, st)"

text \<open>The branches of the switch beside the branches of the loop they come from.\<close>

lemmas switch_defs [flow_simps] = drive_round_def switch_pc_def Let_def redirect_pc_def drive_redirect_def
  done_pc_def drive_done_def failed_pc_def drive_failed_def log_corr_def log_info_def log_error_def

section \<open>A thread running alone\<close>

text \<open>What is left to do from a program counter, as a function; each step of the thread keeps it.\<close>

definition writes :: "addr \<Rightarrow> op list \<Rightarrow> 'w gstate \<Rightarrow> 'w gstate" where
  "writes a ops st = fold (apply_op a) ops st"

definition then_drive ::
  "'w engine \<Rightarrow> addr \<Rightarrow> (drive_result + sdk_result) \<times> 'w gstate \<Rightarrow> (drive_result \<times> 'w gstate) option" where
  "then_drive e a x = (case x of (Inl r, st) \<Rightarrow> Some (r, st) | (Inr next, st) \<Rightarrow> drive e a next st)"

lemma drive_unfold: "drive e a res st = then_drive e a (drive_round e a res st)"
  by (simp add: then_drive_def drive.simps [of e a res st])

fun answer_rest :: "'w engine \<Rightarrow> addr \<Rightarrow> sdk_result \<Rightarrow> int \<Rightarrow> gobytes \<Rightarrow> 'w gstate \<Rightarrow> (drive_result \<times> 'w gstate) option" where
  "answer_rest e a res n b st =
     (case sdk_ResumeHTTP (eSDK e) (world st) (rHandle res) n b of
        (Inl err, w) \<Rightarrow> Some (([], [], [], Some (EWrap ''resume http'' err)),
           engine_fail a StatusFailed reasonResumeError None (st\<lparr>world := w\<rparr>))
      | (Inr next, w) \<Rightarrow> drive e a next (st\<lparr>world := w\<rparr>))"

fun effect_rest :: "'w engine \<Rightarrow> addr \<Rightarrow> sdk_result \<Rightarrow> http_effect \<Rightarrow> 'w gstate \<Rightarrow> (drive_result \<times> 'w gstate) option" where
  "effect_rest e a res ef st =
     (case eUp e (world st) (effectMethod ef) (rawURL ef) (headers ef) (body ef) of
        (Inl err, w) \<Rightarrow> Some ((StatusFailed, [], reasonUpstreamError, None),
           log_error ''effect.http_error'' [(''url'', LStr (redact (rawURL ef))), (''err'', LStr (error_text err))]
             (engine_fail a StatusFailed reasonUpstreamError None (st\<lparr>world := w\<rparr>)))
      | (Inr (n, b), w) \<Rightarrow>
          answer_rest e a res n b (log_info ''effect.http_result'' [(''status'', LNum n)] (st\<lparr>world := w\<rparr>)))"

fun rest :: "'w resume \<Rightarrow> 'w engine \<Rightarrow> addr \<Rightarrow> pc \<times> 'w gstate \<Rightarrow> (drive_result \<times> 'w gstate) option" where
  "rest resume e a (PClaim, st) = complete_with resume e a st"
| "rest resume e a (PResume handle, st) =
     (case resume (world st) handle of
        (Inl err, w) \<Rightarrow> Some (([], [], [], Some err), engine_fail a StatusFailed reasonResumeError None (st\<lparr>world := w\<rparr>))
      | (Inr res, w) \<Rightarrow> drive e a res (st\<lparr>world := w\<rparr>))"
| "rest resume e a (PLoop res, st) = drive e a res st"
| "rest resume e a (PSwitch res, st) =
     (case switch_pc e a res st of
        (PEffect res' ef, st') \<Rightarrow> effect_rest e a res' ef st'
      | (PWrite ops r, st') \<Rightarrow> Some (r, writes a ops st')
      | _ \<Rightarrow> None)"
| "rest resume e a (PEffect res ef, st) = effect_rest e a res ef st"
| "rest resume e a (PAnswer res n b, st) = answer_rest e a res n b st"
| "rest resume e a (PWrite ops r, st) = Some (r, writes a ops st)"
| "rest resume e a (PDone r, st) = Some (r, st)"

lemma writes_simps [simp]:
  "writes a [] st = st" "writes a (op # ops) st = writes a ops (apply_op a op st)"
  by (simp_all add: writes_def)

lemma writes_append [simp]: "writes a (ops @ ops') st = writes a ops' (writes a ops st)"
  by (simp add: writes_def)

lemma writes_fail [simp]: "writes a (fail_ops s r ev) st = engine_fail a s r ev st"
  by (simp add: fail_ops_def engine_fail_def)

lemma switch_rest:
  "rest resume e a (PSwitch res, st\<lparr>mem := Update a (\<lambda>s. s\<lparr>Handle := rHandle res\<rparr>) (mem st)\<rparr>) = drive e a res st"
proof -
  let ?st = "st\<lparr>mem := Update a (\<lambda>s. s\<lparr>Handle := rHandle res\<rparr>) (mem st)\<rparr>"
  let ?k = "stepKind (rStep res)"
  note kinds = stepKindPerformHTTP_def stepKindRedirect_def stepKindDone_def stepKindFailed_def
  show ?thesis
  proof (cases "?k = stepKindPerformHTTP")
    case True
    show ?thesis
    proof (cases "stepHTTP (rStep res)")
      case (Inl err)
      with True show ?thesis
        by (simp add: drive_unfold [of e a res] then_drive_def drive_round_def switch_pc_def drive_http_def)
    next
      case (Inr ef)
      with True show ?thesis
        by (simp add: drive_unfold [of e a res] then_drive_def drive_round_def switch_pc_def drive_http_def Let_def
            split: prod.splits sum.splits)
    qed
  next
    case False
    then show ?thesis
      by (auto simp: drive_unfold [of e a res] then_drive_def flow_simps split: prod.splits sum.splits)
  qed
qed

lemma ending_pcs:
  "\<exists>ops r. redirect_pc e a res = PWrite ops r" "\<exists>ops r. done_pc a res = PWrite ops r"
  "\<exists>ops r. failed_pc a res = PWrite ops r"
  by (auto simp: redirect_pc_def done_pc_def failed_pc_def split: sum.split prod.split)

lemma switch_pc_shape:
  obtains (effect) ef where "switch_pc e a res st = (PEffect res ef,
        log_info ''effect.perform_http'' [(''method'', LStr (effectMethod ef)), (''url'', LStr (redact (rawURL ef)))] st)"
      "stepKind (rStep res) = stepKindPerformHTTP" "stepHTTP (rStep res) = Inr ef"
  | (ending) ops r where "switch_pc e a res st = (PWrite ops r, st)"
proof (cases "stepKind (rStep res) = stepKindPerformHTTP")
  case True
  then show thesis
    by (cases "stepHTTP (rStep res)") (simp_all add: effect ending switch_pc_def)
next
  case False
  then have "\<exists>ops r. switch_pc e a res st = (PWrite ops r, st)"
    using ending_pcs(1) [of e a res] ending_pcs(2,3) [of a res] by (auto simp: switch_pc_def Let_def)
  then show thesis using ending by blast
qed

lemma thread_step_rest: "rest resume e a (thread_step resume e a pc st) = rest resume e a (pc, st)"
proof (cases pc)
  case (PSwitch res)
  then show ?thesis by (cases rule: switch_pc_shape [of e a res st]) simp_all
next
  case (PLoop res)
  then show ?thesis using switch_rest [of resume e a res st] by simp
next
  case (PWrite ops r)
  then show ?thesis by (cases ops) simp_all
qed (auto simp: complete_with_def Let_def log_error_def split: sum.splits prod.splits)

inductive solo :: "'w resume \<Rightarrow> 'w engine \<Rightarrow> addr \<Rightarrow> pc \<times> 'w gstate \<Rightarrow> pc \<times> 'w gstate \<Rightarrow> bool"
  for resume e a where
  solo_refl: "solo resume e a x x"
| solo_step: "solo resume e a (thread_step resume e a pc st) y \<Longrightarrow> solo resume e a (pc, st) y"

lemma solo_trans: "solo resume e a x y \<Longrightarrow> solo resume e a y z \<Longrightarrow> solo resume e a x z"
  by (induction rule: solo.induct) (auto intro: solo.intros)

lemma solo_one: "thread_step resume e a pc st = y \<Longrightarrow> solo resume e a (pc, st) y"
  by (auto intro: solo.intros)

lemma solo_rest: "solo resume e a x y \<Longrightarrow> rest resume e a x = rest resume e a y"
  by (induction rule: solo.induct) (simp_all add: thread_step_rest)

lemma solo_writes: "solo resume e a (PWrite ops r, st) (PDone r, writes a ops st)"
proof (induction ops arbitrary: st)
  case Nil
  show ?case by (rule solo_step) (simp add: solo_refl)
next
  case (Cons op ops)
  show ?case by (rule solo_step) (simp add: Cons.IH)
qed

text \<open>From the head of the loop a thread gets to its end, or to the head again with the SDK's next step.\<close>

lemma solo_round:
  assumes "drive_round e a res st = (x, st')"
  shows "solo resume e a (PLoop res, st) (case x of Inl r \<Rightarrow> (PDone r, st') | Inr nxt \<Rightarrow> (PLoop nxt, st'))"
proof -
  let ?st = "st\<lparr>mem := Update a (\<lambda>s. s\<lparr>Handle := rHandle res\<rparr>) (mem st)\<rparr>"
  have "solo resume e a (PSwitch res, ?st) (case x of Inl r \<Rightarrow> (PDone r, st') | Inr nxt \<Rightarrow> (PLoop nxt, st'))"
  proof (cases rule: switch_pc_shape [of e a res ?st])
    case (ending ops r)
    have w: "solo resume e a (PSwitch res, ?st) (PDone r, writes a ops ?st)"
      by (rule solo_step) (simp add: ending solo_writes)
    have "(x, st') = (Inl r, writes a ops ?st)"
      using ending assms
      by (auto simp: flow_simps drive_http_def split: prod.splits sum.splits if_splits)
    with w show ?thesis by simp
  next
    case (effect ef)
    note k = effect(2,3)
    let ?st1 = "log_info ''effect.perform_http'' [(''method'', LStr (effectMethod ef)), (''url'', LStr (redact (rawURL ef)))] ?st"
    have h: "drive_http e a res ?st = (x, st')" using assms k(1) by (simp add: drive_round_def)
    have s1: "solo resume e a (PSwitch res, ?st) (PEffect res ef, ?st1)" by (rule solo_one) (simp add: effect(1))
    obtain q w1 where q: "eUp e (world st) (effectMethod ef) (rawURL ef) (headers ef) (body ef) = (q, w1)"
      by (cases "eUp e (world st) (effectMethod ef) (rawURL ef) (headers ef) (body ef)")
    have "solo resume e a (PEffect res ef, ?st1) (case x of Inl r \<Rightarrow> (PDone r, st') | Inr nxt \<Rightarrow> (PLoop nxt, st'))"
    proof (cases q)
      case (Inl err)
      let ?ops = "fail_ops StatusFailed reasonUpstreamError None
          @ [OLog (\<lambda>_. (LError, ''effect.http_error'',
               [(''url'', LStr (redact (rawURL ef))), (''err'', LStr (error_text err))]))]"
      let ?r = "(StatusFailed, [], reasonUpstreamError, None)"
      have "thread_step resume e a (PEffect res ef) ?st1 = (PWrite ?ops ?r, ?st1\<lparr>world := w1\<rparr>)"
        by (simp add: q Inl)
      then have "solo resume e a (PEffect res ef, ?st1) (PDone ?r, writes a ?ops (?st1\<lparr>world := w1\<rparr>))"
        using solo_trans [OF solo_one solo_writes] by blast
      moreover have "x = Inl ?r"
        using h k q Inl by (simp add: drive_http_def Let_def)
      moreover have "st' = writes a ?ops (?st1\<lparr>world := w1\<rparr>)"
      proof -
        have "st' = log_error ''effect.http_error'' [(''url'', LStr (redact (rawURL ef))), (''err'', LStr (error_text err))]
            (engine_fail a StatusFailed reasonUpstreamError None (?st1\<lparr>world := w1\<rparr>))"
          using h k q Inl by (simp add: drive_http_def Let_def)
        then show ?thesis by (simp add: log_error_def)
      qed
      ultimately show ?thesis by (simp only: sum.case)
    next
      case (Inr ans)
      obtain n b where ans: "ans = (n, b)" by (cases ans)
      let ?st2 = "log_info ''effect.http_result'' [(''status'', LNum n)] (?st1\<lparr>world := w1\<rparr>)"
      obtain p w2 where p: "sdk_ResumeHTTP (eSDK e) w1 (rHandle res) n b = (p, w2)"
        by (cases "sdk_ResumeHTTP (eSDK e) w1 (rHandle res) n b")
      have s2: "solo resume e a (PEffect res ef, ?st1) (PAnswer res n b, ?st2)"
        by (rule solo_one) (simp add: q Inr ans)
      have s3: "solo resume e a (PAnswer res n b, ?st2) (case p of
          Inl err \<Rightarrow> (PDone ([], [], [], Some (EWrap ''resume http'' err)),
                      engine_fail a StatusFailed reasonResumeError None (?st2\<lparr>world := w2\<rparr>))
        | Inr nxt \<Rightarrow> (PLoop nxt, ?st2\<lparr>world := w2\<rparr>))"
        using solo_writes [of resume e a "fail_ops StatusFailed reasonResumeError None" _ "?st2\<lparr>world := w2\<rparr>"]
        by (intro solo_step) (simp add: p solo_refl split: sum.split)
      have "(x, st') = (case p of
          Inl err \<Rightarrow> (Inl ([], [], [], Some (EWrap ''resume http'' err)),
                      engine_fail a StatusFailed reasonResumeError None (?st2\<lparr>world := w2\<rparr>))
        | Inr nxt \<Rightarrow> (Inr nxt, ?st2\<lparr>world := w2\<rparr>))"
        using h k q Inr ans p by (cases p) (simp_all add: drive_http_def Let_def)
      then show ?thesis using solo_trans [OF s2 s3] by (cases p) simp_all
    qed
    then show ?thesis using solo_trans [OF s1] by simp
  qed
  then show ?thesis using solo_step [of resume e a "PLoop res" st] by simp
qed

lemma solo_drive:
  assumes "drive e a res st = Some (r, st')"
  shows "solo resume e a (PLoop res, st) (PDone r, st')"
  using assms
proof (induction rule: drive_induct)
  case (stop res st r st')
  then show ?case using solo_round by fastforce
next
  case (step res st nxt st1 r st')
  have "solo resume e a (PLoop res, st) (PLoop nxt, st1)" using solo_round [OF step(1), of resume] by simp
  then show ?case using step(3) by (rule solo_trans)
qed

lemma solo_complete:
  assumes "complete_with resume e a st = Some (r, st')"
  shows "solo resume e a (PClaim, st) (PDone r, st')"
proof -
  obtain x st1 where x: "consume e a st = (x, st1)" by (cases "consume e a st")
  show ?thesis
  proof (rule solo_step, cases x)
    case (Inl err)
    with x assms show "solo resume e a (thread_step resume e a PClaim st) (PDone r, st')"
      by (simp add: complete_with_def solo_refl)
  next
    case (Inr handle)
    obtain y w where y: "resume (world st1) handle = (y, w)" by (cases "resume (world st1) handle")
    have "solo resume e a (PResume handle, st1) (PDone r, st')"
    proof (rule solo_step, cases y)
      case (Inl err)
      with x y Inr assms solo_writes [of resume e a "fail_ops StatusFailed reasonResumeError None"]
      show "solo resume e a (thread_step resume e a (PResume handle) st1) (PDone r, st')"
        by (auto simp: complete_with_def Let_def)
    next
      case inr: (Inr res)
      with x y Inr assms
      show "solo resume e a (thread_step resume e a (PResume handle) st1) (PDone r, st')"
        by (auto simp: complete_with_def Let_def intro: solo_drive)
    qed
    with x Inr show "solo resume e a (thread_step resume e a PClaim st) (PDone r, st')" by simp
  qed
qed

section \<open>Many threads over one store\<close>

text \<open>
  A configuration: which thread works on which session at which program counter, and the shared
  state. \<open>res\<close> gives each thread its SDK call (a code or an OAuth error).
\<close>

record 'w config =
  threads :: "nat \<Rightarrow> (addr \<times> pc) option"
  shared :: "'w gstate"

text \<open>
  The steps: a thread looks a session up by its state and, if it finds one, will try to claim it; a
  thread takes a step; a thread that has returned is gone; someone reads a session; a start creates a
  session and will store its handle; the world moves on.
\<close>

inductive interleaves :: "(nat \<Rightarrow> 'w resume) \<Rightarrow> 'w engine \<Rightarrow> 'w config \<Rightarrow> 'w config \<Rightarrow> bool" for res e where
  found: "threads c i = None \<Longrightarrow> eClock e (world (shared c)) = (now, w)
    \<Longrightarrow> GetByState state now (mem (shared c)) = (Inr a, m) \<Longrightarrow>
    interleaves res e c
      (c\<lparr>threads := (threads c)(i \<mapsto> (a, PClaim)), shared := (shared c)\<lparr>mem := m, world := w\<rparr>\<rparr>)"
| missed: "eClock e (world (shared c)) = (now, w) \<Longrightarrow> GetByState state now (mem (shared c)) = (Inl err, m) \<Longrightarrow>
    interleaves res e c (c\<lparr>shared := (shared c)\<lparr>mem := m, world := w\<rparr>\<rparr>)"
| moves: "threads c i = Some (a, pc) \<Longrightarrow> thread_step (res i) e a pc (shared c) = (pc', st') \<Longrightarrow>
    interleaves res e c (c\<lparr>threads := (threads c)(i \<mapsto> (a, pc')), shared := st'\<rparr>)"
| returned: "threads c i = Some (a, PDone r) \<Longrightarrow>
    interleaves res e c (c\<lparr>threads := (threads c)(i := None)\<rparr>)"
| views: "eClock e (world (shared c)) = (now, w) \<Longrightarrow> ViewByID corr now (mem (shared c)) = (r, m) \<Longrightarrow>
    interleaves res e c (c\<lparr>shared := (shared c)\<lparr>mem := m, world := w\<rparr>\<rparr>)"
| starts: "threads c i = None \<Longrightarrow> eClock e (world (shared c)) = (t0, w0) \<Longrightarrow> eClock e w0 = (t1, w1)
    \<Longrightarrow> NewSession corr state cs conf (eTTL e) t0 t1 (mem (shared c)) = (a, m) \<Longrightarrow>
    interleaves res e c
      (c\<lparr>threads := (threads c)(i \<mapsto>
           (a, PWrite [OUpdate (\<lambda>s. s\<lparr>Handle := h, Status := StatusAuthorizing\<rparr>)] r)),
         shared := (shared c)\<lparr>mem := m, world := w1\<rparr>\<rparr>)"
| ticks: "interleaves res e c (c\<lparr>shared := (shared c)\<lparr>world := w\<rparr>\<rparr>)"

section \<open>Mutual exclusion\<close>

text \<open>A thread holds the claim from the moment it won it until it has let it go.\<close>

fun is_release :: "op \<Rightarrow> bool" where
  "is_release (OSetState _) = True"
| "is_release OFinalize = True"
| "is_release _ = False"

definition releases :: "op list \<Rightarrow> bool" where
  "releases ops = list_ex is_release ops"

fun holds :: "pc \<Rightarrow> bool" where
  "holds PClaim = False"
| "holds (PWrite ops r) = releases ops"
| "holds (PDone r) = False"
| "holds _ = True"

text \<open>
  The pending writes keep the claim flag, but for the one that lets it go, and what the store indexes
  a session by.
\<close>

definition keeps_claim :: "op \<Rightarrow> bool" where
  "keeps_claim op = (case op of OUpdate f \<Rightarrow> (\<forall>s. resuming (f s) = resuming s \<and> OAuthState (f s) = OAuthState s
     \<and> CorrelationID (f s) = CorrelationID s \<and> ExpiresAt (f s) = ExpiresAt s) | _ \<Rightarrow> True)"

definition writes_ok :: "op list \<Rightarrow> bool" where
  "writes_ok ops = (list_all keeps_claim ops \<and> length (filter is_release ops) \<le> 1)"

fun pc_ok :: "pc \<Rightarrow> bool" where
  "pc_ok (PWrite ops r) = writes_ok ops"
| "pc_ok _ = True"

definition claims_ok :: "'w config \<Rightarrow> bool" where
  "claims_ok c \<longleftrightarrow>
     (\<forall>a \<in> snd ` set (byID (mem (shared c))). a < next_addr (mem (shared c)))
     \<and> (\<forall>i a pc. threads c i = Some (a, pc) \<longrightarrow>
          a < next_addr (mem (shared c)) \<and> pc_ok pc
          \<and> (holds pc \<longrightarrow> resuming (heap (mem (shared c)) a)))
     \<and> (\<forall>i j a pc pc'. i \<noteq> j \<longrightarrow> threads c i = Some (a, pc) \<longrightarrow> threads c j = Some (a, pc')
          \<longrightarrow> \<not> (holds pc \<and> holds pc'))"

text \<open>No claim is orphaned: a marked session is held by a thread that has yet to let it go.\<close>

definition claims_owned :: "'w config \<Rightarrow> bool" where
  "claims_owned c \<longleftrightarrow>
     (\<forall>a < next_addr (mem (shared c)). resuming (heap (mem (shared c)) a)
        \<longrightarrow> (\<exists>i pc. threads c i = Some (a, pc) \<and> holds pc))"

definition claims_inv :: "'w config \<Rightarrow> bool" where
  "claims_inv c \<longleftrightarrow> claims_ok c \<and> claims_owned c"

text \<open>What a step of one thread does to the claim flags.\<close>

lemma fail_session_keeps [simp]:
  "CorrelationID (fail_session s r ev ss) = CorrelationID ss" "ExpiresAt (fail_session s r ev ss) = ExpiresAt ss"
  by (simp_all add: fail_session_def Let_def)

lemma fail_ops_ok [simp]: "writes_ok (fail_ops s r ev)" "releases (fail_ops s r ev)"
  "writes_ok (fail_ops s r ev @ [OLog l])" "releases (fail_ops s r ev @ [OLog l])"
  by (simp_all add: fail_ops_def keeps_claim_def releases_def writes_ok_def)

lemma ending_ok:
  "holds (redirect_pc e a res) \<and> pc_ok (redirect_pc e a res)"
  "holds (done_pc a res) \<and> pc_ok (done_pc a res)"
  "holds (failed_pc a res) \<and> pc_ok (failed_pc a res)"
proof -
  show "holds (redirect_pc e a res) \<and> pc_ok (redirect_pc e a res)"
    by (simp add: redirect_pc_def log_corr_def split: sum.split prod.split)
      (simp add: keeps_claim_def releases_def writes_ok_def)
  show "holds (done_pc a res) \<and> pc_ok (done_pc a res)"
    by (simp add: done_pc_def log_corr_def split: sum.split prod.split)
      (simp add: keeps_claim_def releases_def writes_ok_def)
  show "holds (failed_pc a res) \<and> pc_ok (failed_pc a res)"
    by (simp add: failed_pc_def log_corr_def split: sum.split prod.split)
qed

lemma switch_ok:
  "switch_pc e a res st = (pc', st') \<Longrightarrow> holds pc' \<and> pc_ok pc' \<and> mem st' = mem st"
  using ending_ok(1) [of e a res] ending_ok(2,3) [of a res]
  by (auto simp: switch_pc_def Let_def split: if_splits sum.splits)

text \<open>
  A step on the session \<open>a\<close>: the claim flags of other sessions stay; the session's flag is set
  whenever the thread holds afterwards, and cleared when it lets go; a step that does not change who holds does not change the flag.
\<close>

definition claim_step :: "addr \<Rightarrow> memory \<Rightarrow> memory \<Rightarrow> bool \<Rightarrow> bool \<Rightarrow> bool" where
  "claim_step a m m' before after \<longleftrightarrow>
     byID m' = byID m \<and> next_addr m' = next_addr m
     \<and> (\<forall>b. b \<noteq> a \<longrightarrow> resuming (heap m' b) = resuming (heap m b))
     \<and> (after \<longrightarrow> resuming (heap m' a))
     \<and> (\<not> before \<and> after \<longrightarrow> \<not> resuming (heap m a))
     \<and> (before \<and> \<not> after \<longrightarrow> \<not> resuming (heap m' a))
     \<and> (before = after \<longrightarrow> resuming (heap m' a) = resuming (heap m a))"

lemma claim_step_same: "resuming (heap m a) \<Longrightarrow> claim_step a m m True True"
  by (simp add: claim_step_def)

lemma consume_claim:
  assumes "consume e a st = (r, st')"
  shows "claim_step a (mem st) (mem st') False (\<not> isl r)"
proof -
  obtain now w where clk: "eClock e (world st) = (now, w)" by (cases "eClock e (world st)")
  show ?thesis
  proof (cases "claimable now (heap (mem st) a)")
    case True
    with assms consume_won [OF clk True] show ?thesis
      by (auto simp: claim_step_def claimed_def claimable_def)
  next
    case False
    with assms consume_lost [OF clk False] show ?thesis by (auto simp: claim_step_def)
  qed
qed

lemma write_claim:
  assumes ok: "pc_ok (PWrite (op # ops) r)" and h: "releases (op # ops) \<Longrightarrow> resuming (heap (mem st) a)"
  shows "claim_step a (mem st) (mem (apply_op a op st)) (releases (op # ops)) (releases ops) \<and> pc_ok (PWrite ops r)"
proof -
  have none: "\<not> releases ops" if "is_release op"
    using ok that by (auto simp: writes_ok_def releases_def list_ex_iff filter_empty_conv)
  show ?thesis
    using ok h none by (cases op) (auto simp: claim_step_def keeps_claim_def releases_def writes_ok_def)
qed

lemma thread_claim:
  assumes step: "thread_step resume e a pc st = (pc', st')" and ok: "pc_ok pc"
    and h: "holds pc \<Longrightarrow> resuming (heap (mem st) a)"
  shows "claim_step a (mem st) (mem st') (holds pc) (holds pc') \<and> pc_ok pc'"
proof (cases pc)
  case PClaim
  obtain r st1 where c: "consume e a st = (r, st1)" by (cases "consume e a st")
  with step PClaim consume_claim [OF c] show ?thesis by (cases r) auto
next
  case (PResume handle)
  with step h show ?thesis
    by (cases "resume (world st) handle") (auto simp: claim_step_same split: sum.splits)
next
  case (PLoop r)
  with step h show ?thesis by (auto simp: claim_step_def)
next
  case (PSwitch r)
  with step h switch_ok [of e a r st pc' st'] show ?thesis by (auto simp: claim_step_same)
next
  case (PEffect r ef)
  with step h show ?thesis
    by (cases "eUp e (world st) (effectMethod ef) (rawURL ef) (headers ef) (body ef)")
      (auto simp: claim_step_same split: sum.splits)
next
  case (PAnswer r n b)
  with step h show ?thesis
    by (cases "sdk_ResumeHTTP (eSDK e) (world st) (rHandle r) n b") (auto simp: claim_step_same split: sum.splits)
next
  case (PWrite ops r)
  show ?thesis
  proof (cases ops)
    case Nil
    with PWrite step show ?thesis by (auto simp: releases_def claim_step_def)
  next
    case (Cons op ops')
    with PWrite step ok h write_claim [of op ops' r st a] show ?thesis by auto
  qed
next
  case (PDone r)
  with step show ?thesis by (auto simp: claim_step_def)
qed

text \<open>What the steps of the environment do: they may add sessions, and leave the claim flags alone.\<close>

definition env_step :: "memory \<Rightarrow> memory \<Rightarrow> bool" where
  "env_step m m' \<longleftrightarrow>
     next_addr m \<le> next_addr m' \<and> (\<forall>a \<in> snd ` set (byID m'). a < next_addr m')
     \<and> (\<forall>a < next_addr m. resuming (heap m' a) = resuming (heap m a))
     \<and> (\<forall>a < next_addr m'. next_addr m \<le> a \<longrightarrow> \<not> resuming (heap m' a))"

definition ids_below :: "memory \<Rightarrow> bool" where
  "ids_below m \<longleftrightarrow> (\<forall>a \<in> snd ` set (byID m). a < next_addr m)"

lemma env_step_expire: "ids_below m \<Longrightarrow> env_step m (expireLocked now a m)"
  by (simp add: env_step_def ids_below_def)

lemma env_step_refl: "ids_below m \<Longrightarrow> env_step m m"
  by (simp add: env_step_def ids_below_def)

lemma env_step_GetByState: "ids_below m \<Longrightarrow> GetByState state now m = (r, m') \<Longrightarrow> env_step m m'"
  by (auto simp: GetByState_def Let_def env_step_expire env_step_refl split: option.splits if_splits)

lemma env_step_ViewByID: "ids_below m \<Longrightarrow> ViewByID c now m = (r, m') \<Longrightarrow> env_step m m'"
  by (auto simp: ViewByID_def Let_def env_step_expire env_step_refl split: option.splits)

lemma byID_evict_subset: "set (byID (fold (evict_entry now) es m)) \<subseteq> set (byID m)"
proof (induction es arbitrary: m)
  case Nil
  then show ?case by simp
next
  case (Cons x es)
  have "set (byID (evict_entry now x m)) \<subseteq> set (byID m)"
    using delete_keys [of "fst x" "byID m"] by (auto simp: evict_entry_def Let_def AList.delete_eq)
  with Cons.IH [of "evict_entry now x m"] show ?case by auto
qed

lemma env_step_NewSession:
  assumes "ids_below m" "NewSession corr state cs conf ttl t0 t1 m = (a, m')"
  shows "env_step m m'" "a = next_addr m" "a < next_addr m'" "\<not> resuming (heap m' a)"
proof -
  have s: "set (byID (evictExpiredLocked t0 m)) \<subseteq> set (byID m)"
    unfolding evictExpiredLocked_def by (rule byID_evict_subset)
  have u: "set (AList.update corr x l) \<subseteq> insert (corr, x) (set l)" for x and l :: "(string \<times> addr) list"
    by (induction l) auto
  show "env_step m m'" "a = next_addr m" "a < next_addr m'" "\<not> resuming (heap m' a)"
    using assms s u [of "next_addr m" "byID (evictExpiredLocked t0 m)"]
    by (fastforce simp: NewSession_unfold Let_def env_step_def ids_below_def new_session_def)+
qed

lemma GetByState_below:
  "ids_below m \<Longrightarrow> GetByState state now m = (Inr a, m') \<Longrightarrow> a < next_addr m'"
  by (force simp: GetByState_def Let_def ids_below_def dest: map_of_SomeD split: option.splits if_splits)

lemma claims_ok_env:
  assumes "claims_ok c" "env_step (mem (shared c)) m"
  shows "claims_ok (c\<lparr>shared := (shared c)\<lparr>mem := m\<rparr>\<rparr>)"
proof -
  have n: "next_addr (mem (shared c)) \<le> next_addr m" using assms(2) by (simp add: env_step_def)
  have "a < next_addr m \<and> (holds pc \<longrightarrow> resuming (heap m a))" "pc_ok pc" if "threads c i = Some (a, pc)" for i a pc
  proof -
    have t: "a < next_addr (mem (shared c))" "pc_ok pc" "holds pc \<longrightarrow> resuming (heap (mem (shared c)) a)"
      using assms(1) that unfolding claims_ok_def by blast+
    then show "a < next_addr m \<and> (holds pc \<longrightarrow> resuming (heap m a))" "pc_ok pc"
      using assms(2) n by (auto simp: env_step_def)
  qed
  then show ?thesis using assms unfolding claims_ok_def env_step_def by simp
qed

lemma claims_owned_env:
  assumes "claims_owned c" "env_step (mem (shared c)) m"
  shows "claims_owned (c\<lparr>shared := (shared c)\<lparr>mem := m\<rparr>\<rparr>)"
  unfolding claims_owned_def
proof (intro allI impI)
  fix a assume a: "a < next_addr (mem (shared (c\<lparr>shared := (shared c)\<lparr>mem := m\<rparr>\<rparr>)))"
    "resuming (heap (mem (shared (c\<lparr>shared := (shared c)\<lparr>mem := m\<rparr>\<rparr>))) a)"
  then have "a < next_addr (mem (shared c))" using assms(2) by (auto simp: env_step_def not_le [symmetric])
  with a assms show "\<exists>i pc. threads (c\<lparr>shared := (shared c)\<lparr>mem := m\<rparr>\<rparr>) i = Some (a, pc) \<and> holds pc"
    by (simp add: env_step_def claims_owned_def)
qed

lemma claims_inv_world: "claims_inv c \<Longrightarrow> claims_inv (c\<lparr>shared := (shared c)\<lparr>world := w\<rparr>\<rparr>)"
  by (simp add: claims_inv_def claims_ok_def claims_owned_def)

lemma claims_inv_env:
  assumes "claims_inv c" "env_step (mem (shared c)) m"
  shows "claims_inv (c\<lparr>shared := (shared c)\<lparr>mem := m, world := w\<rparr>\<rparr>)"
proof -
  have "claims_inv (c\<lparr>shared := (shared c)\<lparr>mem := m\<rparr>\<rparr>)"
    using assms unfolding claims_inv_def using claims_ok_env claims_owned_env by blast
  from claims_inv_world [OF this, of w] show ?thesis by simp
qed

lemma config_swap: "c\<lparr>shared := x, threads := y\<rparr> = c\<lparr>threads := y, shared := x\<rparr>"
  by (cases c) simp

text \<open>A new thread that holds nothing.\<close>

lemma claims_ok_enter:
  assumes "claims_ok c" "\<not> holds pc" "pc_ok pc" "a < next_addr (mem (shared c))"
  shows "claims_ok (c\<lparr>threads := (threads c)(i \<mapsto> (a, pc))\<rparr>)"
  using assms unfolding claims_ok_def by auto

lemma claims_owned_enter:
  assumes "claims_owned c" "threads c i = None"
  shows "claims_owned (c\<lparr>threads := (threads c)(i \<mapsto> (a, pc))\<rparr>)"
  unfolding claims_owned_def
proof (intro allI impI)
  fix b assume "b < next_addr (mem (shared (c\<lparr>threads := (threads c)(i \<mapsto> (a, pc))\<rparr>)))"
    "resuming (heap (mem (shared (c\<lparr>threads := (threads c)(i \<mapsto> (a, pc))\<rparr>))) b)"
  then obtain j q where j: "threads c j = Some (b, q)" "holds q" using assms(1) by (auto simp: claims_owned_def)
  with assms(2) have "j \<noteq> i" by auto
  with j show "\<exists>j q. threads (c\<lparr>threads := (threads c)(i \<mapsto> (a, pc))\<rparr>) j = Some (b, q) \<and> holds q"
    by (intro exI [of _ j] exI [of _ q]) simp
qed

lemma claims_inv_enter:
  "claims_inv c \<Longrightarrow> \<not> holds pc \<Longrightarrow> pc_ok pc \<Longrightarrow> a < next_addr (mem (shared c)) \<Longrightarrow> threads c i = None
   \<Longrightarrow> claims_inv (c\<lparr>threads := (threads c)(i \<mapsto> (a, pc))\<rparr>)"
  unfolding claims_inv_def using claims_ok_enter claims_owned_enter by blast

text \<open>A thread that has returned holds nothing.\<close>

lemma claims_inv_leave:
  assumes "claims_inv c" "threads c i = Some (a, pc)" "\<not> holds pc"
  shows "claims_inv (c\<lparr>threads := (threads c)(i := None)\<rparr>)"
proof -
  have "claims_ok (c\<lparr>threads := (threads c)(i := None)\<rparr>)"
    using assms(1) by (auto simp: claims_inv_def claims_ok_def split: if_splits)
  moreover have "claims_owned (c\<lparr>threads := (threads c)(i := None)\<rparr>)"
    unfolding claims_owned_def
  proof (intro allI impI)
    fix b assume "b < next_addr (mem (shared (c\<lparr>threads := (threads c)(i := None)\<rparr>)))"
      "resuming (heap (mem (shared (c\<lparr>threads := (threads c)(i := None)\<rparr>))) b)"
    then obtain j q where j: "threads c j = Some (b, q)" "holds q"
      using assms(1) by (auto simp: claims_inv_def claims_owned_def)
    with assms(2,3) have "j \<noteq> i" by auto
    with j show "\<exists>j q. threads (c\<lparr>threads := (threads c)(i := None)\<rparr>) j = Some (b, q) \<and> holds q"
      by (intro exI [of _ j] exI [of _ q]) simp
  qed
  ultimately show ?thesis by (simp add: claims_inv_def)
qed

lemma claims_ok_thread:
  assumes ok: "claims_ok c" and t: "threads c i = Some (a, pc)"
    and step: "thread_step (res i) e a pc (shared c) = (pc', st')"
  shows "claims_ok (c\<lparr>threads := (threads c)(i \<mapsto> (a, pc')), shared := st'\<rparr>)"
proof -
  let ?m = "mem (shared c)" and ?m' = "mem st'"
  have own: "a < next_addr ?m" "pc_ok pc" "holds pc \<Longrightarrow> resuming (heap ?m a)"
    using ok t unfolding claims_ok_def by blast+
  have "claim_step a ?m ?m' (holds pc) (holds pc') \<and> pc_ok pc'"
    using step own(2,3) by (rule thread_claim)
  then have m: "byID ?m' = byID ?m" "next_addr ?m' = next_addr ?m"
    "\<And>b. b \<noteq> a \<Longrightarrow> resuming (heap ?m' b) = resuming (heap ?m b)"
    "holds pc' \<Longrightarrow> resuming (heap ?m' a)" "\<not> holds pc \<Longrightarrow> holds pc' \<Longrightarrow> \<not> resuming (heap ?m a)"
    "holds pc = holds pc' \<Longrightarrow> resuming (heap ?m' a) = resuming (heap ?m a)" "pc_ok pc'"
    by (auto simp: claim_step_def)
  have other: "b < next_addr ?m \<and> pc_ok q \<and> (holds q \<longrightarrow> resuming (heap ?m b))"
    if "threads c j = Some (b, q)" for j b q
    using ok that unfolding claims_ok_def by blast
  have excl: "\<not> (holds pc \<and> holds q)" if "j \<noteq> i" "threads c j = Some (a, q)" for j q
    using ok t that unfolding claims_ok_def by blast
  have excl': "\<not> (holds pc' \<and> holds q)" if "j \<noteq> i" "threads c j = Some (a, q)" for j q
    using excl [OF that] other [OF that(2)] m(5) by blast
  have still: "resuming (heap ?m' b)" if "j \<noteq> i" "threads c j = Some (b, q)" "holds q" for j b q
  proof (cases "b = a")
    case False
    with other [OF that(2)] that(3) m(3) show ?thesis by simp
  next
    case True
    have "\<not> holds pc" using excl that True by blast
    moreover have "\<not> holds pc'" using excl' that True by blast
    ultimately show ?thesis using other [OF that(2)] that(3) True m(6) by simp
  qed
  show ?thesis
    unfolding claims_ok_def
  proof (intro conjI allI impI)
    show "\<forall>b \<in> snd ` set (byID (mem (shared (c\<lparr>threads := (threads c)(i \<mapsto> (a, pc')), shared := st'\<rparr>)))).
        b < next_addr (mem (shared (c\<lparr>threads := (threads c)(i \<mapsto> (a, pc')), shared := st'\<rparr>)))"
      using ok m by (simp add: claims_ok_def)
    fix j b q assume j: "threads (c\<lparr>threads := (threads c)(i \<mapsto> (a, pc')), shared := st'\<rparr>) j = Some (b, q)"
    show "b < next_addr (mem (shared (c\<lparr>threads := (threads c)(i \<mapsto> (a, pc')), shared := st'\<rparr>)))" "pc_ok q"
      using j own other [of j b q] m by (auto split: if_splits)
    assume "holds q"
    then show "resuming (heap (mem (shared (c\<lparr>threads := (threads c)(i \<mapsto> (a, pc')), shared := st'\<rparr>))) b)"
      using j still [of j b q] m(4) by (auto split: if_splits)
  next
    fix j k b q q'
    assume "j \<noteq> k" "threads (c\<lparr>threads := (threads c)(i \<mapsto> (a, pc')), shared := st'\<rparr>) j = Some (b, q)"
      "threads (c\<lparr>threads := (threads c)(i \<mapsto> (a, pc')), shared := st'\<rparr>) k = Some (b, q')"
    then show "\<not> (holds q \<and> holds q')"
      using excl' [of j q] excl' [of k q'] ok unfolding claims_ok_def by (auto split: if_splits)
  qed
qed

lemma claims_owned_thread:
  assumes inv: "claims_inv c" and t: "threads c i = Some (a, pc)"
    and step: "thread_step (res i) e a pc (shared c) = (pc', st')"
  shows "claims_owned (c\<lparr>threads := (threads c)(i \<mapsto> (a, pc')), shared := st'\<rparr>)"
  unfolding claims_owned_def
proof (intro allI impI)
  let ?m = "mem (shared c)" and ?m' = "mem st'"
  let ?c = "c\<lparr>threads := (threads c)(i \<mapsto> (a, pc')), shared := st'\<rparr>"
  have own: "pc_ok pc" "holds pc \<Longrightarrow> resuming (heap ?m a)"
    using inv t unfolding claims_inv_def claims_ok_def by blast+
  then have s: "claim_step a ?m ?m' (holds pc) (holds pc')" using thread_claim [OF step] by blast
  fix b assume b: "b < next_addr (mem (shared ?c))" "resuming (heap (mem (shared ?c)) b)"
  show "\<exists>j q. threads ?c j = Some (b, q) \<and> holds q"
  proof (cases "b = a \<and> holds pc'")
    case True
    then show ?thesis by (intro exI [of _ i] exI [of _ pc']) simp
  next
    case False
    then have old: "resuming (heap ?m b)" "b = a \<Longrightarrow> \<not> holds pc" using s b by (auto simp: claim_step_def)
    moreover have "b < next_addr ?m" using s b(1) by (simp add: claim_step_def)
    ultimately obtain j q where j: "threads c j = Some (b, q)" "holds q"
      using inv unfolding claims_inv_def claims_owned_def by blast
    with old(2) t have "j \<noteq> i" by auto
    with j show ?thesis by (intro exI [of _ j] exI [of _ q]) simp
  qed
qed

definition quiet :: "'w config \<Rightarrow> bool" where
  "quiet c \<longleftrightarrow>
     (\<forall>i. threads c i = None) \<and> ids_below (mem (shared c))
     \<and> (\<forall>a < next_addr (mem (shared c)). \<not> resuming (heap (mem (shared c)) a))"

interpretation mutex: transition_system quiet "interleaves res e" claims_inv for res e
proof unfold_locales
  fix c c' :: "'a config"
  show "claims_inv c" if "quiet c"
    using that by (simp add: quiet_def claims_inv_def claims_ok_def claims_owned_def ids_below_def)
  assume ok: "claims_inv c" and step: "interleaves res e c c'"
  have below: "ids_below (mem (shared c))" using ok by (simp add: claims_inv_def claims_ok_def ids_below_def)
  from step show "claims_inv c'"
  proof cases
    case (found i now w state a m)
    note e = claims_inv_env [OF ok env_step_GetByState [OF below found(4)], of w]
    have "claims_inv ((c\<lparr>shared := (shared c)\<lparr>mem := m, world := w\<rparr>\<rparr>)\<lparr>threads := (threads c)(i \<mapsto> (a, PClaim))\<rparr>)"
      using claims_inv_enter [OF e, of PClaim a i] GetByState_below [OF below found(4)] found(2) by simp
    with found(1) show ?thesis by (simp add: config_swap)
  next
    case missed
    with claims_inv_env [OF ok env_step_GetByState [OF below]] show ?thesis by blast
  next
    case moves
    with ok claims_ok_thread claims_owned_thread [OF ok] show ?thesis unfolding claims_inv_def by blast
  next
    case returned
    with claims_inv_leave [OF ok] show ?thesis by simp
  next
    case views
    with claims_inv_env [OF ok env_step_ViewByID [OF below]] show ?thesis by blast
  next
    case (starts i t0 w0 t1 w1 corr state cs conf a m h r)
    let ?pc = "PWrite [OUpdate (\<lambda>s. s\<lparr>Handle := h, Status := StatusAuthorizing\<rparr>)] r"
    note n = env_step_NewSession [OF below starts(5)]
    have "claims_inv ((c\<lparr>shared := (shared c)\<lparr>mem := m, world := w1\<rparr>\<rparr>)\<lparr>threads := (threads c)(i \<mapsto> (a, ?pc))\<rparr>)"
      using claims_inv_enter [OF claims_inv_env [OF ok n(1), of w1], of ?pc a i] n(3) starts(2)
      by (simp add: releases_def writes_ok_def keeps_claim_def)
    with starts(1) show ?thesis by (simp add: config_swap)
  next
    case ticks
    with claims_inv_world [OF ok] show ?thesis by simp
  qed
qed

text \<open>A thread's own steps are steps of the configuration.\<close>

lemma solo_interleaves:
  assumes "solo (res i) e a x y" "threads c i = Some (a, fst x)" "shared c = snd x"
  shows "(interleaves res e)\<^sup>*\<^sup>* c (c\<lparr>threads := (threads c)(i \<mapsto> (a, fst y)), shared := snd y\<rparr>)"
  using assms
proof (induction arbitrary: c rule: solo.induct)
  case (solo_refl x)
  then have "c\<lparr>threads := (threads c)(i \<mapsto> (a, fst x)), shared := snd x\<rparr> = c"
    by (cases c) (simp add: fun_upd_idem)
  then show ?case by (simp only: rtranclp.rtrancl_refl)
next
  case (solo_step pc st y)
  obtain pc' st' where s: "thread_step (res i) e a pc st = (pc', st')" by (cases "thread_step (res i) e a pc st")
  let ?c = "c\<lparr>threads := (threads c)(i \<mapsto> (a, pc')), shared := st'\<rparr>"
  have "interleaves res e c ?c" using solo_step(3,4) s by (auto intro: moves)
  moreover have "(interleaves res e)\<^sup>*\<^sup>* ?c (?c\<lparr>threads := (threads ?c)(i \<mapsto> (a, fst y)), shared := snd y\<rparr>)"
    by (rule solo_step.IH) (simp_all add: s)
  moreover have "?c\<lparr>threads := (threads ?c)(i \<mapsto> (a, fst y)), shared := snd y\<rparr>
      = c\<lparr>threads := (threads c)(i \<mapsto> (a, fst y)), shared := snd y\<rparr>"
    by (cases c) (auto simp: fun_eq_iff)
  ultimately show ?case by (metis converse_rtranclp_into_rtranclp)
qed

text \<open>
  Two callbacks at once, on the session of \<open>demo_begun\<close>: both find it, thread 0 claims it. The SDK
  here finishes at once.
\<close>

definition quick_engine :: "int engine" where
  "quick_engine = demo_engine\<lparr>eSDK := demo_sdk\<lparr>sdk_ResumeRedirect :=
     (\<lambda>w h code state. (Inr \<lparr>rHandle = h, rStep = demo_done\<rparr>, w))\<rparr>\<rparr>"

definition quick_resume :: "nat \<Rightarrow> int resume" where
  "quick_resume i w h = sdk_ResumeRedirect (eSDK quick_engine) w h ''code'' ''s1''"

definition quick_claimed :: "int config" where
  "quick_claimed =
     \<lparr>threads = [0 \<mapsto> (0, PResume (Some ''ab'')), 1 \<mapsto> (0, PClaim)],
      shared = claimed quick_engine 0 (demo_begun\<lparr>world := 4\<rparr>)\<rparr>"

lemma quick_find: "now < 800 \<Longrightarrow> GetByState ''s1'' now (mem demo_begun) = (Inr 0, mem demo_begun)"
  by (simp add: demo_begun_eq store_simps map_str_def begun_def new_session_def Terminal_def)

definition quick_waiting :: "nat \<Rightarrow> int config" where
  "quick_waiting n =
     \<lparr>threads = (\<lambda>i. if i < n then Some (0, PClaim) else None), shared = demo_begun\<lparr>world := 2 + int n\<rparr>\<rparr>"

lemma quick_clock: "eClock quick_engine w = (w, w + 1)"
  by (simp add: quick_engine_def demo_engine_def)

lemma quick_start: "quiet (quick_waiting 0)"
  by (simp add: quick_waiting_def quiet_def ids_below_def demo_begun_eq begun_def new_session_def)

lemma quick_steps:
  "n < 700 \<Longrightarrow> interleaves quick_resume quick_engine (quick_waiting n) (quick_waiting (Suc n))"
  "interleaves quick_resume quick_engine (quick_waiting 2) quick_claimed"
proof -
  assume n: "n < 700"
  have "(threads (quick_waiting n))(n \<mapsto> (0, PClaim)) = threads (quick_waiting (Suc n))"
    by (auto simp: quick_waiting_def fun_eq_iff)
  with n show "interleaves quick_resume quick_engine (quick_waiting n) (quick_waiting (Suc n))"
    using found [of "quick_waiting n" n quick_engine "2 + int n" "3 + int n" "''s1''" 0 "mem demo_begun" quick_resume]
    by (simp add: quick_waiting_def quick_find quick_clock add_ac)
next
  have clk: "eClock quick_engine (world (demo_begun\<lparr>world := 4\<rparr>)) = (4, 5)" by (simp add: quick_clock)
  have "claimable 4 (heap (mem (demo_begun\<lparr>world := 4\<rparr>)) 0)"
    by (simp add: demo_begun_eq claimable_def begun_def new_session_def Terminal_def)
  from consume_won [of quick_engine, OF clk this]
  have c: "consume quick_engine 0 (demo_begun\<lparr>world := 4\<rparr>)
      = (Inr (Some ''ab''), claimed quick_engine 0 (demo_begun\<lparr>world := 4\<rparr>))"
    by (simp add: demo_begun_eq begun_def)
  have "(threads (quick_waiting 2))(0 \<mapsto> (0, PResume (Some ''ab''))) = threads quick_claimed"
    by (auto simp: quick_waiting_def quick_claimed_def fun_eq_iff)
  with c show "interleaves quick_resume quick_engine (quick_waiting 2) quick_claimed"
    using moves [of "quick_waiting 2" 0 0 PClaim quick_resume quick_engine "PResume (Some ''ab'')"
        "claimed quick_engine 0 (demo_begun\<lparr>world := 4\<rparr>)"]
    by (simp add: quick_waiting_def quick_claimed_def)
qed

lemma quick_reachable: "reachable quiet (interleaves quick_resume quick_engine) quick_claimed"
proof -
  have "reachable quiet (interleaves quick_resume quick_engine) (quick_waiting 2)"
    using quick_steps(1) [of 0] quick_steps(1) [of "Suc 0"] reach_init [of quiet, OF quick_start]
    by (simp add: numeral_2_eq_2) (metis reach_step)
  then show ?thesis using quick_steps(2) by (rule reach_step)
qed

text \<open>A status read long after the deadline, while thread 0 holds the claim, and thread 0's way to its end.\<close>

definition quick_expired :: "int config" where
  "quick_expired = quick_claimed\<lparr>shared :=
     (shared quick_claimed)\<lparr>mem := snd (ViewByID ''c1'' 1000 (mem (shared quick_claimed)))\<rparr>\<rparr>"

lemma quick_view:
  "\<exists>v. ViewByID ''c1'' 1000 (mem (shared quick_claimed)) = (Inr v, mem (shared quick_expired))
     \<and> vStatus v = ''failed'' \<and> vReason v = ''session_expired''"
  "byID (mem (shared quick_expired)) = [(''c1'', 0)]"
  by (simp_all add: quick_expired_def quick_claimed_def claimed_def demo_begun_eq ViewByID_def Let_def expire_session_def
      expired_def begun_def new_session_def Terminal_def session_view_def reasonSessionExpired_def StatusFailed_def)

lemma quick_finish:
  obtains st where "solo (quick_resume 0) quick_engine 0 (PResume (Some ''ab''), shared quick_expired)
      (PDone (StatusCompleted, [], [], None), st)"
    "Status (heap (mem st) 0) = StatusCompleted" "byID (mem st) = [(''c1'', 0)]"
proof -
  have kinds: "stepKind demo_done = stepKindDone" "stepDone demo_done = Inr (Some ''PDF'', None)"
    by (simp_all add: demo_done_def step_readers stepDone_def step_pdf_def stepEvidence_def)
  obtain st where d: "drive quick_engine 0 \<lparr>rHandle = Some ''ab'', rStep = demo_done\<rparr> (shared quick_expired)
      = Some ((StatusCompleted, [], [], None), st)"
    and st: "Status (heap (mem st) 0) = StatusCompleted" "byID (mem st) = [(''c1'', 0)]"
    using kinds quick_view(2)
    by (simp add: drive_unfold then_drive_def drive_round_def drive_done_def Let_def step_kind_defs)
  have "thread_step (quick_resume 0) quick_engine 0 (PResume (Some ''ab'')) (shared quick_expired)
      = (PLoop \<lparr>rHandle = Some ''ab'', rStep = demo_done\<rparr>, shared quick_expired)"
    by (simp add: quick_resume_def quick_engine_def)
  then have "solo (quick_resume 0) quick_engine 0 (PResume (Some ''ab''), shared quick_expired)
      (PDone (StatusCompleted, [], [], None), st)"
    using solo_drive [OF d] by (metis solo_step)
  with st that show thesis by blast
qed

section \<open>Properties\<close>

text \<open>
  C3: the step-by-step engine is the engine. A thread running alone from its claim, one lock
  acquisition or external call at a time, returns a result in a state exactly if \<open>Complete\<close> (or
  \<open>CompleteError\<close>) returns that result in that state; so it returns exactly if they do.
\<close>

theorem thread_alone_is_complete:
  "(solo (\<lambda>w h. sdk_ResumeRedirect (eSDK e) w h code state) e a (PClaim, st) (PDone r, st')
      \<longleftrightarrow> Complete e a code state st = Some (r, st'))
   \<and> (solo (\<lambda>w h. sdk_ResumeRedirectError (eSDK e) w h code state) e a (PClaim, st) (PDone r, st')
      \<longleftrightarrow> CompleteError e a code state st = Some (r, st'))"
proof -
  have "solo resume e a (PClaim, st) (PDone r, st') \<longleftrightarrow> complete_with resume e a st = Some (r, st')" for resume
    using solo_complete [of resume e a st r st'] solo_rest [of resume e a "(PClaim, st)" "(PDone r, st')"] by auto
  then show ?thesis by (simp add: Complete_def CompleteError_def)
qed

text \<open>
  C1: at most one callback drives a session, and no claim is orphaned. In every interleaving of any
  number of callbacks with lookups, status reads and new sessions, a session is marked as resuming
  exactly while a thread is between winning the claim on it and letting it go; that thread is the only
  one, so at most one calls the SDK or the upstream service for the session; and meanwhile any other
  claim is refused before the SDK is reached.
\<close>

theorem one_thread_per_session:
  assumes "reachable quiet (interleaves res e) c" "a < next_addr (mem (shared c))"
  shows "(resuming (heap (mem (shared c)) a) \<longleftrightarrow> (\<exists>!i. \<exists>pc. threads c i = Some (a, pc) \<and> holds pc))
    \<and> (\<forall>i j pc pc'. threads c i = Some (a, pc) \<and> holds pc \<and> threads c j = Some (a, pc') \<and> holds pc' \<longrightarrow> i = j)
    \<and> (resuming (heap (mem (shared c)) a) \<longrightarrow>
        (\<forall>now. \<exists>err. fst (ConsumeForResume a now (mem (shared c))) = Inl err)
        \<and> (\<forall>resume. \<exists>err st'. thread_step resume e a PClaim (shared c) = (PDone ([], [], [], Some err), st')))"
proof -
  have inv: "claims_ok c" "claims_owned c" using mutex.reachable_inv [OF assms(1)] by (simp_all add: claims_inv_def)
  have one: "i = j" if "threads c i = Some (a, pc)" "holds pc" "threads c j = Some (a, pc')" "holds pc'" for i j pc pc'
    using inv(1) that unfolding claims_ok_def by blast
  have "resuming (heap (mem (shared c)) a)" if "threads c i = Some (a, pc)" "holds pc" for i pc
    using inv(1) that unfolding claims_ok_def by blast
  moreover have "\<exists>i pc. threads c i = Some (a, pc) \<and> holds pc" if "resuming (heap (mem (shared c)) a)"
    using inv(2) assms(2) that unfolding claims_owned_def by blast
  ultimately have "resuming (heap (mem (shared c)) a) \<longleftrightarrow> (\<exists>!i. \<exists>pc. threads c i = Some (a, pc) \<and> holds pc)"
    using one by blast
  moreover have "\<exists>err st'. thread_step resume e a PClaim (shared c) = (PDone ([], [], [], Some err), st')"
    if r: "resuming (heap (mem (shared c)) a)" for resume
  proof -
    obtain now w where clk: "eClock e (world (shared c)) = (now, w)" by (cases "eClock e (world (shared c))")
    have "\<not> claimable now (heap (mem (shared c)) a)" using r by (simp add: claimable_def)
    from consume_lost [OF clk this] show ?thesis by simp
  qed
  moreover have "\<exists>err. fst (ConsumeForResume a now (mem (shared c))) = Inl err"
    if "resuming (heap (mem (shared c)) a)" for now
    using store.claim_excludes [OF that] by metis
  ultimately show ?thesis using one by blast
qed

theorem one_thread_per_session_witness:
  "resuming (heap (mem (shared quick_claimed)) 0)
   \<and> (\<exists>!i. \<exists>pc. threads quick_claimed i = Some (0, pc) \<and> holds pc)
   \<and> (\<exists>err st'. thread_step (quick_resume 1) quick_engine 0 PClaim (shared quick_claimed)
        = (PDone ([], [], [], Some err), st'))"
proof -
  have "0 < next_addr (mem (shared quick_claimed))" and r: "resuming (heap (mem (shared quick_claimed)) 0)"
    by (simp_all add: quick_claimed_def claimed_def demo_begun_eq)
  from one_thread_per_session [OF quick_reachable this(1)] r show ?thesis by blast
qed

text \<open>
  C40: an expired session can still complete. There is an interleaving in which a client reads the
  status \<open>failed\<close> with the reason \<open>session_expired\<close>, and later, because the callback that holds the
  claim goes on to its end, reads \<open>completed\<close> for the same correlation ID.
\<close>

theorem expired_session_can_complete:
  "\<exists>c v m c' v' m'. reachable quiet (interleaves quick_resume quick_engine) c
     \<and> ViewByID ''c1'' 1000 (mem (shared c)) = (Inr v, m)
     \<and> vStatus v = ''failed'' \<and> vReason v = ''session_expired''
     \<and> (interleaves quick_resume quick_engine)\<^sup>*\<^sup>* (c\<lparr>shared := (shared c)\<lparr>mem := m\<rparr>\<rparr>) c'
     \<and> ViewByID ''c1'' 1001 (mem (shared c')) = (Inr v', m') \<and> vStatus v' = ''completed''"
proof -
  obtain v where v: "ViewByID ''c1'' 1000 (mem (shared quick_claimed)) = (Inr v, mem (shared quick_expired))"
    "vStatus v = ''failed''" "vReason v = ''session_expired''" using quick_view(1) by blast
  obtain st where s: "solo (quick_resume 0) quick_engine 0 (PResume (Some ''ab''), shared quick_expired)
      (PDone (StatusCompleted, [], [], None), st)"
    and st: "Status (heap (mem st) 0) = StatusCompleted" "byID (mem st) = [(''c1'', 0)]" by (rule quick_finish)
  let ?c = "quick_claimed\<lparr>shared := (shared quick_claimed)\<lparr>mem := mem (shared quick_expired)\<rparr>\<rparr>"
  let ?c' = "?c\<lparr>threads := (threads ?c)(0 \<mapsto> (0, PDone (StatusCompleted, [], [], None))), shared := st\<rparr>"
  have at: "threads ?c 0 = Some (0, fst (PResume (Some ''ab''), shared quick_expired))" by (simp add: quick_claimed_def)
  have sh: "shared ?c = snd (PResume (Some ''ab''), shared quick_expired)" by (simp add: quick_expired_def)
  have "(interleaves quick_resume quick_engine)\<^sup>*\<^sup>* ?c ?c'"
    using solo_interleaves [of quick_resume 0, OF s at sh] by (simp only: fst_conv snd_conv)
  moreover have "fst (ViewByID ''c1'' 1001 (mem st)) = Inr (session_view (heap (mem st) 0))"
    using st by (simp add: ViewByID_def Let_def expire_session_def expired_def Terminal_def)
  then obtain m' where "ViewByID ''c1'' 1001 (mem (shared ?c')) = (Inr (session_view (heap (mem st) 0)), m')"
    by (cases "ViewByID ''c1'' 1001 (mem st)") auto
  moreover have "vStatus (session_view (heap (mem st) 0)) = ''completed''"
    using st by (simp add: session_view_def StatusCompleted_def)
  ultimately show ?thesis using quick_reachable v by (intro exI conjI)
qed

end
