(* ===== verification/Interleaved_Store.thy ===== *)
theory Interleaved_Store
  imports Interleaving
begin

text \<open>
  The store under concurrent requests. Session_Store shows that each operation keeps the store well
  formed, Service_Runs that requests served one after another do. Here the steps of many threads
  interleave as in Interleaving, under a clock that does not run backwards and fresh correlation IDs:
  the store stays well formed between any two steps, and while a thread holds a session the store
  keeps it indexed and no OAuth state leads to it.
\<close>

section \<open>Paced interleavings\<close>

text \<open>\<open>wt\<close> observes the time of a world; a reading of the clock lies between the worlds around it.\<close>

definition clock_ok :: "('w \<Rightarrow> time) \<Rightarrow> 'w engine \<Rightarrow> bool" where
  "clock_ok wt e \<longleftrightarrow> (\<forall>w now w'. eClock e w = (now, w') \<longrightarrow> wt w \<le> now \<and> now \<le> wt w')"

text \<open>A step of the configuration in which time does not go back and a new session has a fresh ID.\<close>

definition fresh_id :: "memory \<Rightarrow> memory \<Rightarrow> bool" where
  "fresh_id m m' \<longleftrightarrow>
     (case CorrelationID (heap m' (next_addr m)) of corr \<Rightarrow> corr \<noteq> [] \<and> map_of (byID m) corr = None)"

definition paced :: "('w \<Rightarrow> time) \<Rightarrow> (nat \<Rightarrow> 'w resume) \<Rightarrow> 'w engine \<Rightarrow> 'w config \<Rightarrow> 'w config \<Rightarrow> bool" where
  "paced wt res e c c' \<longleftrightarrow>
     interleaves res e c c' \<and> wt (world (shared c)) \<le> wt (world (shared c'))
     \<and> (next_addr (mem (shared c)) < next_addr (mem (shared c')) \<longrightarrow> fresh_id (mem (shared c)) (mem (shared c')))"

section \<open>The invariant of the memory\<close>

text \<open>No OAuth state is pending for a session that is being resumed.\<close>

definition closed_claims :: "memory \<Rightarrow> bool" where
  "closed_claims m \<longleftrightarrow> (\<forall>a < next_addr m. resuming (heap m a) \<longrightarrow> OAuthState (heap m a) = [])"

definition mem_ok :: "time \<Rightarrow> memory \<Rightarrow> bool" where
  "mem_ok T m \<longleftrightarrow> wf_memory T m \<and> closed_claims m"

lemma mem_ok_mono: "mem_ok T m \<Longrightarrow> T \<le> T' \<Longrightarrow> mem_ok T' m"
  unfolding mem_ok_def using wf_mono by blast

lemma closed_expire: "closed_claims m \<Longrightarrow> closed_claims (expireLocked now a m)"
  by (auto simp: closed_claims_def expire_session_def)

lemma mem_ok_GetByState: "mem_ok T m \<Longrightarrow> T \<le> now \<Longrightarrow> GetByState state now m = (r, m') \<Longrightarrow> mem_ok now m'"
  using wf_GetByState [of T m now state] closed_expire [of m now]
  by (auto simp: mem_ok_def GetByState_def Let_def split: option.splits if_splits)

lemma mem_ok_ViewByID: "mem_ok T m \<Longrightarrow> T \<le> now \<Longrightarrow> ViewByID c now m = (r, m') \<Longrightarrow> mem_ok now m'"
  using wf_ViewByID [of T m now c] closed_expire [of m now]
  by (auto simp: mem_ok_def ViewByID_def Let_def split: option.splits)

lemma mem_ok_NewSession:
  assumes "mem_ok T m" "T \<le> t0" "t0 \<le> t1" and n: "NewSession corr state cs conf ttl t0 t1 m = (a, m')"
    and fresh: "next_addr m < next_addr m' \<Longrightarrow> fresh_id m m'"
  shows "mem_ok t1 m'"
proof -
  have h: "heap m' = (heap m)(next_addr m := new_session corr state cs conf ttl t1)" "next_addr m' = Suc (next_addr m)"
    using n by (auto simp: NewSession_unfold Let_def)
  then have "corr \<noteq> []" "map_of (byID m) corr = None"
    using fresh by (simp_all add: fresh_id_def new_session_def)
  then have "wf_memory t1 m'"
    using wf_NewSession [of T m t0 t1 corr state cs conf ttl] assms(1-3) n by (simp add: mem_ok_def)
  moreover have "closed_claims m'"
    using assms(1) h by (auto simp: mem_ok_def closed_claims_def new_session_def less_Suc_eq)
  ultimately show ?thesis by (simp add: mem_ok_def)
qed

lemma mem_ok_claim:
  assumes "mem_ok T m" "T \<le> now" "a < next_addr m"
  shows "mem_ok now (snd (ConsumeForResume a now m))"
proof -
  have "closed_claims (snd (ConsumeForResume a now m))"
    using assms(1) by (cases rule: ConsumeForResume_cases [of a now m])
      (auto simp: mem_ok_def closed_claims_def expire_session_def)
  then show ?thesis using wf_ConsumeForResume [OF _ assms(2,3)] assms(1) by (simp add: mem_ok_def)
qed

text \<open>The writes at the end of a run. Only the holder of a session sets its next state, and a held session is indexed.\<close>

lemma mem_ok_write:
  assumes ok: "mem_ok T (mem st)" and k: "keeps_claim op" and a: "a < next_addr (mem st)"
    and h: "is_release op \<Longrightarrow> resuming (heap (mem st) a)"
  shows "mem_ok T (mem (apply_op a op st))"
proof -
  have wf: "wf_memory T (mem st)" and cl: "closed_claims (mem st)" using ok by (simp_all add: mem_ok_def)
  show ?thesis
  proof (cases op)
    case (OUpdate f)
    with k have "wf_memory T (Update a f (mem st))" by (intro wf_Update [OF wf]) (auto simp: keeps_claim_def)
    moreover have "closed_claims (Update a f (mem st))"
      using OUpdate k cl by (auto simp: keeps_claim_def closed_claims_def)
    ultimately show ?thesis using OUpdate by (simp add: mem_ok_def)
  next
    case (OSetState state)
    with h have "indexed (mem st) a" using wf_live_indexed [OF wf a] by simp
    with wf have "wf_memory T (SetState a state (mem st))" by (rule wf_SetState)
    moreover have "closed_claims (SetState a state (mem st))" using cl by (auto simp: closed_claims_def)
    ultimately show ?thesis using OSetState by (simp add: mem_ok_def)
  next
    case OFinalize
    with wf_Finalize [OF wf, of a] cl show ?thesis by (auto simp: mem_ok_def closed_claims_def)
  next
    case (OLog l)
    with ok show ?thesis by simp
  qed
qed

lemma mem_ok_thread:
  assumes step: "thread_step resume e a pc st = (pc', st')" and ok: "mem_ok (wt (world st)) (mem st)"
    and p: "pc_ok pc" and a: "a < next_addr (mem st)" and h: "holds pc \<Longrightarrow> resuming (heap (mem st) a)"
    and le: "wt (world st) \<le> wt (world st')" and clk: "clock_ok wt e"
  shows "mem_ok (wt (world st')) (mem st')"
proof -
  have same: "mem_ok (wt (world st')) (mem st')" if "mem st' = mem st"
    using mem_ok_mono [OF ok le] that by simp
  show ?thesis
  proof (cases pc)
    case PClaim
    obtain now w where c: "eClock e (world st) = (now, w)" by (cases "eClock e (world st)")
    then have t: "wt (world st) \<le> now" "now \<le> wt w" using clk by (auto simp: clock_ok_def)
    have "mem st' = snd (ConsumeForResume a now (mem st)) \<and> world st' = w"
      using step PClaim c by (auto simp: consume_def Let_def split: prod.splits sum.splits if_splits)
    then show ?thesis using mem_ok_mono [OF mem_ok_claim [OF ok t(1) a] t(2)] by simp
  next
    case (PResume handle)
    with step have "mem st' = mem st" by (auto split: prod.splits sum.splits)
    then show ?thesis by (rule same)
  next
    case (PLoop res)
    have "mem_ok (wt (world st)) (mem (apply_op a (OUpdate (\<lambda>s. s\<lparr>Handle := rHandle res\<rparr>)) st))"
      by (rule mem_ok_write [OF ok _ a]) (simp_all add: keeps_claim_def)
    with step PLoop show ?thesis by auto
  next
    case (PSwitch res)
    with step have "mem st' = mem st" using switch_ok [of e a res st pc' st'] by simp
    then show ?thesis by (rule same)
  next
    case (PEffect res ef)
    with step have "mem st' = mem st" by (auto split: prod.splits sum.splits)
    then show ?thesis by (rule same)
  next
    case (PAnswer res n b)
    with step have "mem st' = mem st" by (auto split: prod.splits sum.splits)
    then show ?thesis by (rule same)
  next
    case (PWrite ops r)
    show ?thesis
    proof (cases ops)
      case Nil
      with PWrite step have "mem st' = mem st" by auto
      then show ?thesis by (rule same)
    next
      case (Cons op ops')
      have "mem_ok (wt (world st)) (mem (apply_op a op st))"
        using PWrite Cons p h by (intro mem_ok_write [OF ok _ a]) (simp_all add: writes_ok_def releases_def)
      moreover have "world (apply_op a op st) = world st" by (cases op) simp_all
      ultimately show ?thesis using PWrite Cons step by auto
    qed
  next
    case (PDone r)
    with step have "mem st' = mem st" by auto
    then show ?thesis by (rule same)
  qed
qed

section \<open>Every paced interleaving keeps the store well formed\<close>

definition paced_inv :: "('w \<Rightarrow> time) \<Rightarrow> 'w engine \<Rightarrow> 'w config \<Rightarrow> bool" where
  "paced_inv wt e c \<longleftrightarrow> clock_ok wt e \<and> claims_inv c \<and> mem_ok (wt (world (shared c))) (mem (shared c))"

text \<open>It starts with no request in flight and a well-formed store without claims, the empty one for example.\<close>

definition paced_start :: "('w \<Rightarrow> time) \<Rightarrow> 'w engine \<Rightarrow> 'w config \<Rightarrow> bool" where
  "paced_start wt e c \<longleftrightarrow> clock_ok wt e \<and> quiet c \<and> wf_memory (wt (world (shared c))) (mem (shared c))"

lemma paced_keeps_mem:
  assumes inv: "paced_inv wt e c" and step: "paced wt res e c c'"
  shows "mem_ok (wt (world (shared c'))) (mem (shared c'))"
proof -
  have clk: "clock_ok wt e" and ok: "mem_ok (wt (world (shared c))) (mem (shared c))" and cl: "claims_ok c"
    using inv by (simp_all add: paced_inv_def claims_inv_def)
  have t: "wt w \<le> now \<and> now \<le> wt w'" if "eClock e w = (now, w')" for w now w'
    using clk that by (auto simp: clock_ok_def)
  have le: "wt (world (shared c)) \<le> wt (world (shared c'))"
    and fresh: "next_addr (mem (shared c)) < next_addr (mem (shared c')) \<Longrightarrow> fresh_id (mem (shared c)) (mem (shared c'))"
    and "interleaves res e c c'"
    using step by (simp_all add: paced_def)
  from this(3) show ?thesis
  proof cases
    case (found i now w state a m)
    with mem_ok_GetByState [OF ok _ found(4)] t [OF found(3)] show ?thesis by (auto intro: mem_ok_mono)
  next
    case (missed now w state err m)
    with mem_ok_GetByState [OF ok _ missed(3)] t [OF missed(2)] show ?thesis by (auto intro: mem_ok_mono)
  next
    case (moves i a pc pc' st')
    have "pc_ok pc" "a < next_addr (mem (shared c))" "holds pc \<Longrightarrow> resuming (heap (mem (shared c)) a)"
      using cl moves(2) unfolding claims_ok_def by blast+
    from mem_ok_thread [OF moves(3) ok this _ clk] le moves(1) show ?thesis by simp
  next
    case returned
    with ok show ?thesis by simp
  next
    case (views now w corr r m)
    with mem_ok_ViewByID [OF ok _ views(3)] t [OF views(2)] show ?thesis by (auto intro: mem_ok_mono)
  next
    case (starts i t0 w0 t1 w1 corr state cs conf a m h r)
    have "mem_ok t1 m"
      using mem_ok_NewSession [OF ok _ _ starts(5)] t [OF starts(3)] t [OF starts(4)] fresh starts(1) by force
    with starts t [OF starts(4)] show ?thesis by (auto intro: mem_ok_mono)
  next
    case ticks
    with ok le show ?thesis by (auto intro: mem_ok_mono)
  qed
qed

interpretation paced: transition_system "paced_start wt e" "paced wt res e" "paced_inv wt e" for wt res e
proof unfold_locales
  fix c c' :: "'a config"
  show "paced_inv wt e c" if "paced_start wt e c"
    using that mutex.inv_init [of c]
    by (auto simp: paced_start_def paced_inv_def mem_ok_def closed_claims_def quiet_def)
  show "paced_inv wt e c'" if "paced_inv wt e c" "paced wt res e c c'"
    using that paced_keeps_mem [OF that] mutex.inv_step [of c res e c'] by (simp add: paced_inv_def paced_def)
qed

section \<open>Properties\<close>

text \<open>
  C4: the store is consistent under concurrency. In every state that callbacks, status reads and
  starts reach in any interleaving of their steps, each correlation ID in the index leads to the
  session that carries it and each OAuth state to the session that waits for it, so no two states lead
  to one session; and while a thread holds a session, the index keeps it (it is not evicted) and no
  lookup by an OAuth state finds it, so a used state is dead during the resume. The clock is assumed
  not to run backwards and correlation IDs to be fresh.
\<close>

theorem store_consistent_under_concurrency:
  assumes "reachable (paced_start wt e) (paced wt res e) c"
  shows "(\<forall>k a. map_of (byID (mem (shared c))) k = Some a \<longrightarrow>
        a < next_addr (mem (shared c)) \<and> CorrelationID (heap (mem (shared c)) a) = k)
    \<and> (\<forall>s k. map_of (byState (mem (shared c))) s = Some k \<longrightarrow>
        (\<exists>a. map_of (byID (mem (shared c))) k = Some a \<and> OAuthState (heap (mem (shared c)) a) = s))
    \<and> (\<forall>i a pc. threads c i = Some (a, pc) \<and> holds pc \<longrightarrow>
        map_of (byID (mem (shared c))) (CorrelationID (heap (mem (shared c)) a)) = Some a
        \<and> (\<forall>state now m. GetByState state now (mem (shared c)) \<noteq> (Inr a, m)))"
proof -
  let ?m = "mem (shared c)"
  have inv: "paced_inv wt e c" using assms by (rule paced.reachable_inv)
  then have wf: "wf_memory (wt (world (shared c))) ?m" and cl: "closed_claims ?m" and ok: "claims_ok c"
    by (simp_all add: paced_inv_def mem_ok_def claims_inv_def)
  have held: "map_of (byID ?m) (CorrelationID (heap ?m a)) = Some a
      \<and> (\<forall>state now m. GetByState state now ?m \<noteq> (Inr a, m))"
    if "threads c i = Some (a, pc)" "holds pc" for i a pc
  proof -
    have a: "a < next_addr ?m" "resuming (heap ?m a)" using ok that unfolding claims_ok_def by blast+
    then have "indexed ?m a" using wf_live_indexed [OF wf] by blast
    moreover have "GetByState state now ?m \<noteq> (Inr a, m)" for state now m
      using cl a wf_state [OF wf, of state] GetByState_waits [OF wf, of state now a m] by (fastforce simp: closed_claims_def)
    ultimately show ?thesis by (simp add: indexed_def)
  qed
  moreover have "a < next_addr ?m \<and> CorrelationID (heap ?m a) = k" if "map_of (byID ?m) k = Some a" for k a
    using wf_id [OF wf that] by blast
  moreover have "\<exists>a. map_of (byID ?m) k = Some a \<and> OAuthState (heap ?m a) = s" if "map_of (byState ?m) s = Some k" for s k
    using wf_state [OF wf that] by blast
  ultimately show ?thesis by blast
qed

lemma quick_paced: "reachable (paced_start (\<lambda>w. w) quick_engine) (paced (\<lambda>w. w) quick_resume quick_engine) quick_claimed"
proof -
  have "paced_start (\<lambda>w. w) quick_engine (quick_waiting 0)"
    using quick_start wf_mono [OF demo_wf, of 2]
    by (simp add: paced_start_def clock_ok_def quick_clock quick_waiting_def)
  moreover have s: "paced (\<lambda>w. w) quick_resume quick_engine (quick_waiting n) (quick_waiting (Suc n))" if "n < 700" for n
    using quick_steps(1) [OF that] by (simp add: paced_def quick_waiting_def)
  moreover have "paced (\<lambda>w. w) quick_resume quick_engine (quick_waiting 0) (quick_waiting 1)"
    "paced (\<lambda>w. w) quick_resume quick_engine (quick_waiting 1) (quick_waiting 2)"
    using s [of 0] s [of 1] by (simp_all add: numeral_2_eq_2)
  moreover have "paced (\<lambda>w. w) quick_resume quick_engine (quick_waiting 2) quick_claimed"
    using quick_steps(2) by (simp add: paced_def quick_waiting_def quick_claimed_def claimed_def quick_clock)
  ultimately show ?thesis by (meson reach_init reach_step)
qed

theorem store_consistent_under_concurrency_witness:
  "map_of (byID (mem (shared quick_claimed))) ''c1'' = Some 0
   \<and> fst (GetByState ''s1'' 5 (mem (shared quick_claimed))) \<noteq> Inr 0"
proof -
  have "threads quick_claimed 0 = Some (0, PResume (Some ''ab''))" "holds (PResume (Some ''ab''))"
    "CorrelationID (heap (mem (shared quick_claimed)) 0) = ''c1''"
    by (simp_all add: quick_claimed_def claimed_def demo_begun_eq begun_def new_session_def)
  with store_consistent_under_concurrency [OF quick_paced] show ?thesis
    by (metis prod.collapse)
qed

end
