(* ===== verification/Fair_Runs.thy ===== *)
theory Fair_Runs
  imports Interleaving
begin

text \<open>
  Infinite runs of the interleaved threads. Each step of a thread lowers a rank of its program
  counter, whatever the other threads do in between, if the SDK asks for finitely many HTTP effects in
  a row; so a thread that keeps being scheduled returns, and lets its claim go on the way.
\<close>

section \<open>Runs\<close>

text \<open>A step of the configuration that is a step of thread \<open>i\<close>.\<close>

definition own_step :: "(nat \<Rightarrow> 'w resume) \<Rightarrow> 'w engine \<Rightarrow> nat \<Rightarrow> 'w config \<Rightarrow> 'w config \<Rightarrow> bool" where
  "own_step res e i c c' \<longleftrightarrow>
     (\<exists>a pc pc' st'. threads c i = Some (a, pc) \<and> thread_step (res i) e a pc (shared c) = (pc', st')
        \<and> c' = c\<lparr>threads := (threads c)(i \<mapsto> (a, pc')), shared := st'\<rparr>)"

definition run :: "(nat \<Rightarrow> 'w resume) \<Rightarrow> 'w engine \<Rightarrow> (nat \<Rightarrow> 'w config) \<Rightarrow> bool" where
  "run res e f \<longleftrightarrow> (\<forall>n. interleaves res e (f n) (f (Suc n)))"

text \<open>The scheduler is fair to thread \<open>i\<close>: while it has not returned, it is scheduled again.\<close>

definition fair :: "(nat \<Rightarrow> 'w resume) \<Rightarrow> 'w engine \<Rightarrow> nat \<Rightarrow> (nat \<Rightarrow> 'w config) \<Rightarrow> bool" where
  "fair res e i f \<longleftrightarrow>
     (\<forall>n a pc. threads (f n) i = Some (a, pc) \<longrightarrow> (\<forall>r. pc \<noteq> PDone r) \<longrightarrow>
        (\<exists>m \<ge> n. own_step res e i (f m) (f (Suc m))))"

lemma own_step_interleaves: "own_step res e i c c' \<Longrightarrow> interleaves res e c c'"
  by (auto simp: own_step_def intro: moves)

text \<open>Only its own steps move a thread that has not returned.\<close>

lemma own_or_still:
  assumes "interleaves res e c c'" "threads c i = Some (a, pc)" "\<And>r. pc \<noteq> PDone r" "\<not> own_step res e i c c'"
  shows "threads c' i = Some (a, pc)"
  using assms(1)
proof cases
  case (moves j b q q' st')
  with assms(4) have "j \<noteq> i" unfolding own_step_def by blast
  with moves assms(2) show ?thesis by simp
qed (use assms(2,3) in auto)

section \<open>The rank of a program counter\<close>

fun pc_rank :: "(gobytes \<Rightarrow> nat) \<Rightarrow> pc \<Rightarrow> nat \<times> nat \<times> nat" where
  "pc_rank rank PClaim = (3, 0, 0)"
| "pc_rank rank (PResume h) = (2, 0, 0)"
| "pc_rank rank (PLoop res) = (1, rank (rHandle res), 3)"
| "pc_rank rank (PSwitch res) = (1, rank (rHandle res), 2)"
| "pc_rank rank (PEffect res ef) = (1, rank (rHandle res), 1)"
| "pc_rank rank (PAnswer res n b) = (1, rank (rHandle res), 0)"
| "pc_rank rank (PWrite ops r) = (0, Suc (length ops), 0)"
| "pc_rank rank (PDone r) = (0, 0, 0)"

definition earlier :: "(gobytes \<Rightarrow> nat) \<Rightarrow> (pc \<times> pc) set" where
  "earlier rank = inv_image (less_than <*lex*> (less_than <*lex*> less_than)) (pc_rank rank)"

lemma wf_earlier: "wf (earlier rank)"
  by (simp add: earlier_def wf_inv_image wf_lex_prod)

lemma thread_step_earlier:
  assumes fin: "finite_effects (eSDK e) rank" and step: "thread_step resume e a pc st = (pc', st')"
    and live: "\<And>r. pc \<noteq> PDone r"
  shows "(pc', pc) \<in> earlier rank"
proof (cases pc)
  case PClaim
  with step show ?thesis by (auto simp: earlier_def split: prod.splits sum.splits)
next
  case (PResume h)
  with step show ?thesis by (auto simp: earlier_def split: prod.splits sum.splits)
next
  case (PLoop res)
  with step show ?thesis by (auto simp: earlier_def)
next
  case (PSwitch res)
  with step show ?thesis by (cases rule: switch_pc_shape [of e a res st]) (auto simp: earlier_def)
next
  case (PEffect res ef)
  with step show ?thesis by (auto simp: earlier_def split: prod.splits sum.splits)
next
  case (PAnswer res n b)
  have "rank (rHandle nxt) < rank (rHandle res)"
    if "sdk_ResumeHTTP (eSDK e) (world st) (rHandle res) n b = (Inr nxt, w)" for nxt w
    using fin that unfolding finite_effects_def by blast
  with PAnswer step show ?thesis by (auto simp: earlier_def split: prod.splits sum.splits)
next
  case (PWrite ops r)
  with step show ?thesis by (cases ops) (auto simp: earlier_def)
next
  case (PDone r)
  with live show ?thesis by blast
qed

section \<open>A scheduled thread returns\<close>

lemma next_own_step:
  assumes run: "run res e f" and fair: "fair res e i f"
    and at: "threads (f n) i = Some (a, pc)" and live: "\<And>r. pc \<noteq> PDone r"
  obtains m pc' st' where "n \<le> m" "threads (f m) i = Some (a, pc)"
    "thread_step (res i) e a pc (shared (f m)) = (pc', st')"
    "f (Suc m) = (f m)\<lparr>threads := (threads (f m))(i \<mapsto> (a, pc')), shared := st'\<rparr>"
proof -
  have "\<exists>k. own_step res e i (f (n + k)) (f (Suc (n + k)))"
    using fair at live unfolding fair_def by (metis le_iff_add)
  then obtain k where k: "own_step res e i (f (n + k)) (f (Suc (n + k)))"
    and first: "\<And>j. j < k \<Longrightarrow> \<not> own_step res e i (f (n + j)) (f (Suc (n + j)))"
    using exists_least_iff [of "\<lambda>k. own_step res e i (f (n + k)) (f (Suc (n + k)))"] by blast
  have "j \<le> k \<Longrightarrow> threads (f (n + j)) i = Some (a, pc)" for j
  proof (induction j)
    case 0
    show ?case using at by simp
  next
    case (Suc j)
    then have "threads (f (n + j)) i = Some (a, pc)" "\<not> own_step res e i (f (n + j)) (f (Suc (n + j)))"
      using first by simp_all
    then have "threads (f (Suc (n + j))) i = Some (a, pc)"
      using own_or_still run live unfolding run_def by blast
    then show ?case by simp
  qed
  then have t: "threads (f (n + k)) i = Some (a, pc)" by simp
  with k that [of "n + k"] show thesis by (auto simp: own_step_def)
qed

lemma scheduled_thread_returns:
  assumes run: "run res e f" and fair: "fair res e i f" and fin: "finite_effects (eSDK e) rank"
    and at: "threads (f n) i = Some (a, pc)"
  shows "\<exists>m \<ge> n. \<exists>r. threads (f m) i = Some (a, PDone r)"
  using wf_earlier [of rank] at
proof (induction pc arbitrary: n rule: wf_induct_rule)
  case (less pc)
  show ?case
  proof (cases "\<exists>r. pc = PDone r")
    case True
    with less(2) show ?thesis by blast
  next
    case False
    then have live: "\<And>r. pc \<noteq> PDone r" by blast
    obtain m pc' st' where m: "n \<le> m" "thread_step (res i) e a pc (shared (f m)) = (pc', st')"
      "f (Suc m) = (f m)\<lparr>threads := (threads (f m))(i \<mapsto> (a, pc')), shared := st'\<rparr>"
      using next_own_step [OF run fair less(2) live] by metis
    have "threads (f (Suc m)) i = Some (a, pc')" by (simp add: m(3))
    from less(1) [OF thread_step_earlier [OF fin m(2) live] this] m(1) show ?thesis by (meson Suc_leD le_trans)
  qed
qed

text \<open>At the step after which it no longer holds the session, the mark is gone.\<close>

lemma scheduled_holder_lets_go:
  assumes run: "run res e f" and fair: "fair res e i f" and fin: "finite_effects (eSDK e) rank"
    and inv: "\<And>n. claims_ok (f n)"
    and at: "threads (f n) i = Some (a, pc)" "holds pc"
  shows "\<exists>m \<ge> n. \<exists>pc'. threads (f m) i = Some (a, pc') \<and> \<not> resuming (heap (mem (shared (f m))) a)"
  using wf_earlier [of rank] at
proof (induction pc arbitrary: n rule: wf_induct_rule)
  case (less pc)
  have live: "pc \<noteq> PDone r" for r using less(3) by auto
  obtain m pc' st' where m: "n \<le> m" "threads (f m) i = Some (a, pc)"
    "thread_step (res i) e a pc (shared (f m)) = (pc', st')"
    "f (Suc m) = (f m)\<lparr>threads := (threads (f m))(i \<mapsto> (a, pc')), shared := st'\<rparr>"
    using next_own_step [OF run fair less(2) live] by metis
  have at': "threads (f (Suc m)) i = Some (a, pc')" by (simp add: m(4))
  have le: "n \<le> Suc m" using m(1) by simp
  show ?case
  proof (cases "holds pc'")
    case True
    from less(1) [OF thread_step_earlier [OF fin m(3) live] at' True] le show ?thesis by (meson le_trans)
  next
    case False
    have "pc_ok pc" "resuming (heap (mem (shared (f m))) a)"
      using inv [of m] m(2) less(3) unfolding claims_ok_def by blast+
    then have "\<not> resuming (heap (mem st') a)"
      using thread_claim [OF m(3)] less(3) False by (auto simp: claim_step_def)
    then have "\<not> resuming (heap (mem (shared (f (Suc m)))) a)" by (simp add: m(4))
    with at' le show ?thesis by blast
  qed
qed

lemma run_reachable:
  assumes "reachable quiet (interleaves res e) (f 0)" "run res e f"
  shows "reachable quiet (interleaves res e) (f n)"
proof (induction n)
  case 0
  show ?case by (rule assms(1))
next
  case (Suc n)
  with assms(2) show ?case unfolding run_def by (blast intro: reach_step)
qed

text \<open>The run in which only thread \<open>i\<close> is scheduled.\<close>

definition own_next :: "(nat \<Rightarrow> 'w resume) \<Rightarrow> 'w engine \<Rightarrow> nat \<Rightarrow> 'w config \<Rightarrow> 'w config" where
  "own_next res e i c =
     (case threads c i of
        None \<Rightarrow> c
      | Some (a, pc) \<Rightarrow>
          (case thread_step (res i) e a pc (shared c) of
             (pc', st') \<Rightarrow> c\<lparr>threads := (threads c)(i \<mapsto> (a, pc')), shared := st'\<rparr>))"

lemma own_next_step:
  assumes "threads c i \<noteq> None"
  shows "own_step res e i c (own_next res e i c)" "threads (own_next res e i c) i \<noteq> None"
  using assms by (auto simp: own_step_def own_next_def split: prod.split)

lemma alone_runs:
  assumes "threads c i \<noteq> None"
  shows "run res e (\<lambda>n. (own_next res e i ^^ n) c)" "fair res e i (\<lambda>n. (own_next res e i ^^ n) c)"
proof -
  have t: "threads ((own_next res e i ^^ n) c) i \<noteq> None" for n
    by (induction n) (use assms own_next_step(2) in simp_all)
  have o: "own_step res e i ((own_next res e i ^^ n) c) ((own_next res e i ^^ Suc n) c)" for n
    using own_next_step(1) [OF t [of n]] by simp
  show "run res e (\<lambda>n. (own_next res e i ^^ n) c)"
    unfolding run_def using own_step_interleaves [OF o] by blast
  show "fair res e i (\<lambda>n. (own_next res e i ^^ n) c)"
    unfolding fair_def using o by blast
qed

lemma quick_finite: "finite_effects (eSDK quick_engine) blen"
  by (auto simp: finite_effects_def quick_engine_def demo_engine_def demo_sdk_def blen_def split: list.splits)

section \<open>Property\<close>

text \<open>
  C5: no claim is stuck. Take any infinite run of callbacks, status reads and starts, interleaved in
  any way, in which a thread holds the claim on a session, and suppose that the thread is scheduled
  again as long as it has not returned and that the SDK asks for finitely many HTTP effects in a row
  (each resumed effect leads to a handle of smaller rank). Then at some point of the run the session is
  not marked as resuming, so its claim flag no longer refuses a callback, and at that point or later
  the thread has returned.
\<close>

theorem claim_is_released:
  assumes "reachable quiet (interleaves res e) (f 0)" and run: "run res e f" and fair: "fair res e i f"
    and fin: "finite_effects (eSDK e) rank"
    and at: "threads (f n) i = Some (a, pc)" "holds pc"
  shows "\<exists>m k r. n \<le> m \<and> m \<le> k \<and> \<not> resuming (heap (mem (shared (f m))) a) \<and> threads (f k) i = Some (a, PDone r)"
proof -
  have "claims_ok (f n)" for n
    using mutex.reachable_inv [OF run_reachable [OF assms(1) run]] by (simp add: claims_inv_def)
  from scheduled_holder_lets_go [OF run fair fin this at]
  obtain m pc' where m: "n \<le> m" "threads (f m) i = Some (a, pc')" "\<not> resuming (heap (mem (shared (f m))) a)" by blast
  from scheduled_thread_returns [OF run fair fin m(2)]
  obtain k r where "m \<le> k" "threads (f k) i = Some (a, PDone r)" by blast
  with m show ?thesis by blast
qed

theorem claim_is_released_witness:
  "\<exists>m k r. m \<le> k
     \<and> \<not> resuming (heap (mem (shared ((own_next quick_resume quick_engine 0 ^^ m) quick_claimed))) 0)
     \<and> threads ((own_next quick_resume quick_engine 0 ^^ k) quick_claimed) 0 = Some (0, PDone r)"
proof -
  let ?f = "\<lambda>n. (own_next quick_resume quick_engine 0 ^^ n) quick_claimed"
  have c: "threads (?f 0) 0 = Some (0, PResume (Some ''ab''))" "holds (PResume (Some ''ab''))"
    by (simp_all add: quick_claimed_def)
  then have "threads quick_claimed 0 \<noteq> None" by simp
  note alone = alone_runs [OF this, of quick_resume quick_engine]
  have "reachable quiet (interleaves quick_resume quick_engine) (?f 0)" using quick_reachable by simp
  from claim_is_released [of quick_resume quick_engine ?f, OF this alone quick_finite c] show ?thesis by blast
qed

end
