(* ===== verification/Spec2Isabelle.thy ===== *)
theory Spec2Isabelle
  imports Store_Spec Gateway_Server Interleaved_Store Fair_Runs
begin

text \<open>
  A verification development of the Alkemio trust gateway, the Go service under src/: the HTTP
  boundary in front of the Cleverbase signing SDK. It owns the OAuth state of each signing journey,
  drives the SDK through its redirects and HTTP effects, and hands out the signed document.

  \<^bold>\<open>The program and the theories\<close>

  \<^item> src/internal/session/store.go is Session_Store: statuses, sessions, the store with its indexes
    by correlation ID and by OAuth state, and every operation (New, Get, GetByState, ViewByID,
    ConsumeForResume, Update, SetState, Finalize, expiry and eviction). A pointer to a session is an
    address of a heap, because callers keep pointers to sessions the indexes have dropped. Each
    operation holds the mutex from start to end and is one atomic step; the clock readings are its
    arguments. Store_Spec is its abstract specification, a plain map of sessions, and the refinement.
  \<^item> src/internal/flow/flow.go is Flow_Engine (definitions) and Flow_Contract (theorems): reading a
    step of the SDK, the loop \<open>drive\<close> with one definition per branch of its switch, Begin, Complete,
    CompleteError and consume. The SDK and the effector, interfaces in the code, are records of
    functions over a world of any type. Interleaving gives the same engine as a thread that takes one
    step per lock acquisition or external call, and lets many of them interleave with lookups, status
    reads and starts; Interleaved_Store is the store's invariant in such interleavings, Fair_Runs their
    infinite runs.
  \<^item> src/internal/upstream/client.go is Upstream_Client: host rewriting, building the request, the
    4 MiB bound, the error of a failed round trip.
  \<^item> src/internal/cleverbase/adapter.go is Cleverbase_Adapter: the binding as the engine's SDK.
  \<^item> src/internal/config/config.go is Config_Profile: \<open>Load\<close> and every validation, in the order of the
    code, with the text of the errors.
  \<^item> src/internal/httpapi/service.go and auth.go are Http_Api (one definition per handler, the routes,
    the middleware) and Http_Contract (theorems). Service_Runs is the service as a state machine, one
    step per request.
  \<^item> src/cmd/server/main.go is Gateway_Server: wiring, start-up checks, serving, shutdown, exit code.
  \<^item> The Go standard library the code uses is modelled after its sources: Go_Base (strings, hex,
    base64, UTF-8, \<open>%q\<close>), Go_Net (IP literals), Go_URL (net/url), Go_JSON (encoding/json), Go_Time
    (durations with their float64 fractions, RFC 3339), Go_HTTP (ServeMux, Redirect, MaxBytesReader).
  \<^item> Prelude holds the Go value types, the errors with \<open>errors.Is\<close>, and the contracts of a Go map, of
    an encoder, and of a transition system.

  \<^bold>\<open>The interfaces\<close>

  The locale go_map (what a lookup returns after an assignment or a delete) is interpreted on the
  association lists of the store; resumable_store (what the engine relies on: a claim excludes all
  others until it is let go) on the store's operations; bounded_effector (what the SDK is handed) on
  the upstream client; codec on hexadecimal, base64 and query escaping; transition_system on the
  service and on the interleaved threads, with and without a clock that keeps its order.

  \<^bold>\<open>What the lemmas show\<close>

  \<^item> Store: the invariant \<open>wf_memory\<close> (the indexes agree with the sessions; a session the index has
    dropped is neither claimed nor alive) is kept by every operation; a state finds a session exactly
    while that session waits for it; the store implements a map.
  \<^item> Engine: whatever the SDK answers, a completion leaves its session sealed or waiting under a new
    state, touches no other session, and reports what it stored; malformed steps fail closed; the
    loop ends when the SDK's handles decrease in rank.
  \<^item> HTTP: the key gates every private route; each endpoint's answer on every branch; every error
    answer is one of a fixed list.
  \<^item> Runs: over any sequence of requests no claim is left behind, a finished session never changes,
    and a pending one can always be claimed. Under any interleaving one thread at most holds a
    session, it returns and lets go if it keeps being scheduled, a marked session has a thread that holds it, the indexes
    stay consistent and no OAuth state leads to a held session; a thread alone is the engine's
    function.
  \<^item> Server: a misconfigured process serves nothing; without the opt-out no private request without
    the key is served; live mode rewrites no URL; the exit code tells how serving ended.

  \<^bold>\<open>Bounds and termination\<close>

  Of the definitions only the JSON scanner \<open>json_value\<close> runs on fuel, twice the length of the text plus
  one, which \<open>json_value_enough\<close> shows to be enough. The loop of \<open>drive\<close> has no bound in the code, so it is a partial
  function whose None is a loop that does not end; that it ends is a theorem under the documented
  behaviour of the SDK, that each resumed effect leads to a handle of smaller rank. Sizes (20 MiB
  document, 64 KiB completion body, 1 KiB client state, 4 MiB upstream response, 16 random bytes) are
  the code's constants. A lookup or a claim reads the clock once, also where \<open>expireLocked\<close>'s test
  would skip the reading because the session is terminal; the reading is then not used. Durations are int64 with their range checked; times are unbounded integers,
  since a creation time plus an int64 duration is far inside Go's range.

  \<^bold>\<open>Not modelled\<close>

  \<^item> The Cleverbase binding (a C library behind cgo) and the network behind \<open>http.Client.Do\<close>
    (connections, redirects, the 30-second timeout, cancellation by the request's context): arbitrary
    functions, with hypotheses named where a theorem needs one.
  \<^item> Connection management of net/http: server timeouts are recorded in the server's configuration
    but nothing is derived from them; HTTP/1 framing, the Connection header and the dropping of the
    body of an answer to HEAD are left out. While the server runs, requests are a list served in
    order in Gateway_Server, and threads in Interleaving.
  \<^item> The text form of log lines (their level, message and attributes are kept), the formatting of
    floating-point numbers in JSON (a float carries its text), the escapes of unprintable Unicode in
    \<open>%q\<close>, the parser's own words in a URL error, and \<open>ParseQuery\<close>'s limit on the number of pairs.
  \<^item> Tests, the end-to-end suite, the deployment files and the container build.
\<close>

end
